(* ===== verification/Prelude.thy ===== *)
theory Prelude
  imports
    Main
    "HOL-Library.List_Lexorder"
    "HOL-Library.Char_ord"
    "HOL-Library.Product_Lexorder"
    "HOL-Library.Sublist"
begin

section \<open>Shared vocabulary\<close>

text \<open>
  What every component uses: the outcome of a call that may fail or never return,
  64-bit wrap-around of Go's \<^verbatim>\<open>int\<close>, the string functions of Go's package
  \<^verbatim>\<open>strings\<close> and \<^verbatim>\<open>%d\<close> of \<^verbatim>\<open>fmt\<close>, and the three shapes of SQL
  statement the store issues (select the best row, update where, insert with a key),
  with the lemmas the component proofs rewrite with.
\<close>

named_theorems row_simps \<open>evaluation of record rows and statements\<close>
named_theorems frame_simps \<open>tables a statement leaves alone\<close>

subsection \<open>Outcomes\<close>

text \<open>
  \<open>Ok\<close> is a normal return, \<open>Err\<close> a returned Go error, \<open>Blocked\<close> a call that waits
  for ever (a goroutine waiting for a connection only it could release).
\<close>

datatype go_error =
    EUnique string \<comment> \<open>a PRIMARY KEY or UNIQUE constraint of the named table\<close>
  | EForeignKey string \<comment> \<open>a FOREIGN KEY constraint of the named table\<close>
  | EIO \<comment> \<open>the engine failed (disk, connection)\<close>
  | ETxAborted \<comment> \<open>Postgres: an earlier statement of this transaction failed\<close>
  | EDialect \<comment> \<open>the statement is not SQL of the engine in use\<close>
  | EPanic string \<comment> \<open>a run-time panic, which the HTTP server recovers\<close>
  | EMsg string
  | EWrap string go_error \<comment> \<open>\<^verbatim>\<open>fmt.Errorf("...: %w", err)\<close>\<close>

datatype 'a outcome = Ok 'a | Err go_error | Blocked

fun map_outcome_val :: "('a \<Rightarrow> 'b) \<Rightarrow> 'a outcome \<Rightarrow> 'b outcome" where
  "map_outcome_val f (Ok a) = Ok (f a)"
| "map_outcome_val f (Err e) = Err e"
| "map_outcome_val f Blocked = Blocked"

subsection \<open>Go integers\<close>

text \<open>
  Go's \<^verbatim>\<open>int\<close> has 64 bits. The model holds its value as an HOL integer and applies
  \<open>wrap64\<close> wherever the source adds to one.
\<close>

definition maxint :: int where
  "maxint = 9223372036854775807"

definition minint :: int where
  "minint = - 9223372036854775808"

definition wrap64 :: "int \<Rightarrow> int" where
  "wrap64 x = (x + 9223372036854775808) mod 18446744073709551616 - 9223372036854775808"

definition int64_range :: "int \<Rightarrow> bool" where
  "int64_range x \<longleftrightarrow> minint \<le> x \<and> x \<le> maxint"

lemma wrap64_id: "int64_range x \<Longrightarrow> wrap64 x = x"
  by (simp add: wrap64_def int64_range_def minint_def maxint_def)

lemma wrap64_range: "int64_range (wrap64 x)"
proof -
  have "0 \<le> (x + 9223372036854775808) mod 18446744073709551616"
    and "(x + 9223372036854775808) mod 18446744073709551616 < 18446744073709551616"
    by simp_all
  then show ?thesis
    unfolding wrap64_def int64_range_def minint_def maxint_def by linarith
qed

lemma wrap64_max: "wrap64 (maxint + 1) = minint"
  by (simp add: wrap64_def maxint_def minint_def)

subsection \<open>Decimal printing\<close>

fun show_nat :: "nat \<Rightarrow> string" where
  "show_nat n = (if n < 10 then [char_of (48 + n)]
                 else show_nat (n div 10) @ [char_of (48 + n mod 10)])"

declare show_nat.simps [simp del]

definition show_int :: "int \<Rightarrow> string" where
  "show_int i = (if i < 0 then CHR ''-'' # show_nat (nat (- i)) else show_nat (nat i))"

definition is_digit :: "char \<Rightarrow> bool" where
  "is_digit c \<longleftrightarrow> 48 \<le> (of_char c :: nat) \<and> (of_char c :: nat) \<le> 57"

fun read_nat :: "nat \<Rightarrow> string \<Rightarrow> nat" where
  "read_nat acc [] = acc"
| "read_nat acc (c # cs) = read_nat (10 * acc + ((of_char c :: nat) - 48)) cs"

lemma of_char_char_of_small: "n < 256 \<Longrightarrow> (of_char (char_of n :: char) :: nat) = n"
  by simp

lemma is_digit_char_of: "n < 10 \<Longrightarrow> is_digit (char_of (48 + n :: nat))"
  by (simp add: is_digit_def)

lemma show_nat_digits: "list_all is_digit (show_nat n)"
proof (induction n rule: show_nat.induct)
  case (1 n)
  then show ?case
    by (subst show_nat.simps) (auto intro!: is_digit_char_of)
qed

lemma show_nat_nonempty [simp]: "show_nat n \<noteq> []"
  by (subst show_nat.simps) simp

lemma read_nat_append: "read_nat acc (xs @ ys) = read_nat (read_nat acc xs) ys"
  by (induction xs arbitrary: acc) auto

lemma read_show_nat: "read_nat 0 (show_nat n) = n"
proof (induction n rule: show_nat.induct)
  case (1 n)
  show ?case
  proof (cases "n < 10")
    case True
    then show ?thesis by (subst show_nat.simps) simp
  next
    case False
    then have "read_nat 0 (show_nat (n div 10)) = n div 10" using 1 by simp
    moreover have "48 + n mod 10 < 256" by simp
    ultimately show ?thesis using False
      by (subst show_nat.simps) (simp add: read_nat_append)
  qed
qed

lemma show_nat_inj: "show_nat m = show_nat n \<longleftrightarrow> m = n"
  by (metis read_show_nat)

lemma hd_show_nat_digit: "is_digit (hd (show_nat n))"
  using show_nat_digits [of n] by (cases "show_nat n") auto

lemma show_int_inj: "show_int i = show_int j \<longleftrightarrow> i = j"
proof
  assume eq: "show_int i = show_int j"
  have no_minus: "hd (show_nat n) \<noteq> CHR ''-''" for n
    using hd_show_nat_digit [of n] by (auto simp: is_digit_def)
  then have no_minus': "show_nat n \<noteq> CHR ''-'' # xs" for n xs
    by (metis list.sel(1))
  then have no_minus'': "CHR ''-'' # xs \<noteq> show_nat n" for n xs
    by metis
  show "i = j"
    using eq no_minus' no_minus''
    by (cases "i < 0"; cases "j < 0") (auto simp: show_int_def show_nat_inj)
qed simp

lemma show_int_nonempty [simp]: "show_int i \<noteq> []"
  by (simp add: show_int_def)

subsection \<open>Go's package strings\<close>

definition HasPrefix :: "string \<Rightarrow> string \<Rightarrow> bool" where
  "HasPrefix s p \<longleftrightarrow> take (length p) s = p"

definition HasSuffix :: "string \<Rightarrow> string \<Rightarrow> bool" where
  "HasSuffix s p \<longleftrightarrow> length p \<le> length s \<and> drop (length s - length p) s = p"

definition TrimPrefix :: "string \<Rightarrow> string \<Rightarrow> string" where
  "TrimPrefix s p = (if HasPrefix s p then drop (length p) s else s)"

definition TrimSuffix :: "string \<Rightarrow> string \<Rightarrow> string" where
  "TrimSuffix s p = (if HasSuffix s p then take (length s - length p) s else s)"

fun Contains :: "string \<Rightarrow> string \<Rightarrow> bool" where
  "Contains [] p \<longleftrightarrow> p = []"
| "Contains (c # cs) p \<longleftrightarrow> HasPrefix (c # cs) p \<or> Contains cs p"

text \<open>\<open>Replace1 s old new\<close> is \<^verbatim>\<open>strings.Replace(s, old, new, 1)\<close> for a non-empty \<open>old\<close>.\<close>

fun Replace1 :: "string \<Rightarrow> string \<Rightarrow> string \<Rightarrow> string" where
  "Replace1 [] old new = []"
| "Replace1 (c # cs) old new =
     (if HasPrefix (c # cs) old then new @ drop (length old) (c # cs)
      else c # Replace1 cs old new)"

lemma HasPrefix_append [simp]: "HasPrefix (p @ s) p"
  by (simp add: HasPrefix_def)

lemma HasPrefix_iff: "HasPrefix s p \<longleftrightarrow> (\<exists>t. s = p @ t)"
  by (metis HasPrefix_append HasPrefix_def append_take_drop_id)

lemma TrimPrefix_append [simp]: "TrimPrefix (p @ s) p = s"
  by (simp add: TrimPrefix_def)

lemma HasSuffix_append [simp]: "HasSuffix (s @ p) p"
  by (simp add: HasSuffix_def)

lemma HasSuffix_iff: "HasSuffix s p \<longleftrightarrow> (\<exists>t. s = t @ p)"
  by (metis HasSuffix_append HasSuffix_def append_take_drop_id)

lemma TrimSuffix_append [simp]: "TrimSuffix (s @ p) p = s"
  by (simp add: TrimSuffix_def)

lemma Contains_iff: "Contains s p \<longleftrightarrow> (\<exists>u v. s = u @ p @ v)"
proof (induction s)
  case Nil
  then show ?case by simp
next
  case (Cons c cs)
  show ?case
  proof
    assume "Contains (c # cs) p"
    then show "\<exists>u v. c # cs = u @ p @ v"
      using Cons.IH by (auto simp: HasPrefix_iff) (metis append_Cons append_Nil)+
  next
    assume "\<exists>u v. c # cs = u @ p @ v"
    then obtain u v where uv: "c # cs = u @ p @ v" by blast
    show "Contains (c # cs) p"
    proof (cases u)
      case Nil
      with uv have "HasPrefix (c # cs) p" by (simp add: HasPrefix_iff)
      then show ?thesis by simp
    next
      case (Cons a u')
      with uv have "cs = u' @ p @ v" by simp
      with \<open>Contains cs p \<longleftrightarrow> (\<exists>u v. cs = u @ p @ v)\<close> show ?thesis by auto
    qed
  qed
qed

subsection \<open>The rows a statement selects, updates and inserts\<close>

text \<open>
  A table is the list of its rows in the order the engine scans them. \<open>min_by\<close> is
  \<^verbatim>\<open>ORDER BY key LIMIT 1\<close> (\<^verbatim>\<open>None\<close> when no row qualifies, the error
  \<^verbatim>\<open>sql.ErrNoRows\<close>): among equal keys it takes the first row scanned, and since every
  theorem is about all lists, it is about every scan order.
\<close>

fun min_by :: "('a \<Rightarrow> 'k::linorder) \<Rightarrow> 'a list \<Rightarrow> 'a option" where
  "min_by k [] = None"
| "min_by k (x # xs) =
     (case min_by k xs of None \<Rightarrow> Some x | Some y \<Rightarrow> if k x \<le> k y then Some x else Some y)"

definition update_where :: "('a \<Rightarrow> bool) \<Rightarrow> ('a \<Rightarrow> 'a) \<Rightarrow> 'a list \<Rightarrow> 'a list" where
  "update_where P f xs = map (\<lambda>x. if P x then f x else x) xs"

definition affected :: "('a \<Rightarrow> bool) \<Rightarrow> 'a list \<Rightarrow> nat" where
  "affected P xs = length (filter P xs)"

definition key_used :: "('a \<Rightarrow> 'k) \<Rightarrow> 'k \<Rightarrow> 'a list \<Rightarrow> bool" where
  "key_used key k xs \<longleftrightarrow> k \<in> key ` set xs"

definition insert_row :: "('a \<Rightarrow> 'k) \<Rightarrow> 'a \<Rightarrow> 'a list \<Rightarrow> 'a list option" where
  "insert_row key x xs = (if key_used key (key x) xs then None else Some (xs @ [x]))"

definition replace_row :: "('a \<Rightarrow> 'k) \<Rightarrow> 'a \<Rightarrow> 'a list \<Rightarrow> 'a list" where
  "replace_row key x xs = filter (\<lambda>y. key y \<noteq> key x) xs @ [x]"

definition insert_or_ignore :: "('a \<Rightarrow> 'k) \<Rightarrow> 'a \<Rightarrow> 'a list \<Rightarrow> 'a list" where
  "insert_or_ignore key x xs = (if key_used key (key x) xs then xs else xs @ [x])"

definition find_row :: "('a \<Rightarrow> 'k) \<Rightarrow> 'k \<Rightarrow> 'a list \<Rightarrow> 'a option" where
  "find_row key k xs = find (\<lambda>x. key x = k) xs"

lemma min_by_None [simp]: "min_by k xs = None \<longleftrightarrow> xs = []"
  by (cases xs) (auto split: option.splits)

lemma min_by_Some:
  "min_by k xs = Some x \<Longrightarrow> x \<in> set xs \<and> (\<forall>y \<in> set xs. k x \<le> k y)"
proof (induction xs arbitrary: x)
  case (Cons a xs)
  show ?case
  proof (cases "min_by k xs")
    case None
    with Cons.prems show ?thesis by simp
  next
    case (Some z)
    then have "z \<in> set xs \<and> (\<forall>y \<in> set xs. k z \<le> k y)" by (rule Cons.IH)
    with Some Cons.prems show ?thesis
      by (auto split: if_splits)
  qed
qed simp

lemma min_by_in: "min_by k xs = Some x \<Longrightarrow> x \<in> set xs"
  by (blast dest: min_by_Some)

lemma min_by_le: "min_by k xs = Some x \<Longrightarrow> y \<in> set xs \<Longrightarrow> k x \<le> k y"
  by (blast dest: min_by_Some)

lemma min_by_unique:
  assumes "x \<in> set xs" and "\<And>y. y \<in> set xs \<Longrightarrow> y \<noteq> x \<Longrightarrow> k x < k y"
  shows "min_by k xs = Some x"
proof -
  obtain z where z: "min_by k xs = Some z"
    using assms(1) by (cases "min_by k xs") auto
  have "z \<in> set xs" using z by (rule min_by_in)
  moreover have "k z \<le> k x" using z assms(1) by (rule min_by_le)
  ultimately have "z = x" using assms(2) by fastforce
  with z show ?thesis by simp
qed

lemma length_update_where [simp]: "length (update_where P f xs) = length xs"
  by (simp add: update_where_def)

lemma set_update_where: "set (update_where P f xs) = (\<lambda>x. if P x then f x else x) ` set xs"
  by (simp add: update_where_def)

lemma map_update_where:
  "(\<And>x. P x \<Longrightarrow> g (f x) = g x) \<Longrightarrow> map g (update_where P f xs) = map g xs"
  by (simp add: update_where_def)

lemma update_where_none: "(\<And>x. x \<in> set xs \<Longrightarrow> \<not> P x) \<Longrightarrow> update_where P f xs = xs"
  by (induction xs) (auto simp: update_where_def)

lemma affected_0 [simp]: "affected P xs = 0 \<longleftrightarrow> (\<forall>x \<in> set xs. \<not> P x)"
  by (auto simp: affected_def filter_empty_conv)

lemma affected_pos [simp]: "0 < affected P xs \<longleftrightarrow> (\<exists>x \<in> set xs. P x)"
  by (auto simp: affected_def filter_empty_conv)

lemma update_where_Nil [simp]: "update_where P f [] = []"
  by (simp add: update_where_def)

lemma update_where_Cons [simp]:
  "update_where P f (x # xs) = (if P x then f x else x) # update_where P f xs"
  by (simp add: update_where_def)

lemma find_row_Some:
  "find_row key k xs = Some x \<Longrightarrow> x \<in> set xs \<and> key x = k"
  by (auto simp: find_row_def find_Some_iff)

lemma find_row_None: "find_row key k xs = None \<longleftrightarrow> \<not> key_used key k xs"
  by (auto simp: find_row_def find_None_iff key_used_def)

lemma key_used_find: "key_used key k xs \<longleftrightarrow> (\<exists>x. find_row key k xs = Some x)"
  using find_row_None [of key k xs] by auto

lemma find_row_in:
  assumes "distinct (map key xs)" and "x \<in> set xs"
  shows "find_row key (key x) xs = Some x"
  using assms by (induction xs) (auto simp: find_row_def image_iff)

lemma distinct_key_eq:
  "distinct (map key xs) \<Longrightarrow> x \<in> set xs \<Longrightarrow> y \<in> set xs \<Longrightarrow> key x = key y \<Longrightarrow> x = y"
  by (auto simp: distinct_map dest: inj_onD)

lemma find_row_Nil [simp]: "find_row key k [] = None"
  by (simp add: find_row_def)

lemma find_row_Cons [simp]:
  "find_row key k (x # xs) = (if key x = k then Some x else find_row key k xs)"
  by (simp add: find_row_def)

lemma find_row_append:
  "find_row key k (xs @ ys) =
     (case find_row key k xs of None \<Rightarrow> find_row key k ys | Some x \<Rightarrow> Some x)"
  by (induction xs) auto

lemma find_row_update_where:
  assumes "\<And>x. P x \<Longrightarrow> key (f x) = key x"
  shows "find_row key k (update_where P f xs) =
     map_option (\<lambda>x. if P x then f x else x) (find_row key k xs)"
  using assms by (induction xs) auto

lemma find_row_filter:
  "find_row key k (filter (\<lambda>y. key y \<noteq> k') xs) = (if k = k' then None else find_row key k xs)"
  by (induction xs) auto

lemma find_row_replace_row:
  "find_row key k (replace_row key x xs) = (if k = key x then Some x else find_row key k xs)"
  by (auto simp: replace_row_def find_row_append find_row_filter split: option.splits)

lemma distinct_replace_row:
  "distinct (map key xs) \<Longrightarrow> distinct (map key (replace_row key x xs))"
  by (auto simp: replace_row_def distinct_map inj_on_def)

lemma insert_row_Some:
  "insert_row key x xs = Some ys \<longleftrightarrow> key x \<notin> key ` set xs \<and> ys = xs @ [x]"
  by (auto simp: insert_row_def key_used_def)

lemma insert_row_None: "insert_row key x xs = None \<longleftrightarrow> key x \<in> key ` set xs"
  by (auto simp: insert_row_def key_used_def)

lemma insert_row_distinct:
  "insert_row key x xs = Some ys \<Longrightarrow> distinct (map key xs) \<Longrightarrow> distinct (map key ys)"
  by (auto simp: insert_row_Some)

subsection \<open>A keyed table as an interface\<close>

text \<open>
  What the store's code relies on when it looks a row up by primary key: an insert is
  refused exactly when the key is taken, and a row that was inserted is the one found.
\<close>

locale keyed_table =
  fixes key :: "'r \<Rightarrow> 'k"
    and ins :: "'r \<Rightarrow> 'r list \<Rightarrow> 'r list option"
    and lookup :: "'k \<Rightarrow> 'r list \<Rightarrow> 'r option"
  assumes ins_refused: "ins x t = None \<longleftrightarrow> lookup (key x) t \<noteq> None"
    and lookup_ins: "ins x t = Some t' \<Longrightarrow> lookup k t' = (if k = key x then Some x else lookup k t)"
    and lookup_key: "lookup k t = Some x \<Longrightarrow> key x = k"
begin

lemma ins_found: "ins x t = Some t' \<Longrightarrow> lookup (key x) t' = Some x"
  by (simp add: lookup_ins)

lemma ins_twice: "ins x t = Some t' \<Longrightarrow> key y = key x \<Longrightarrow> ins y t' = None"
  by (simp add: ins_refused lookup_ins)

lemma ins_keeps: "ins x t = Some t' \<Longrightarrow> lookup k t = Some y \<Longrightarrow> lookup k t' = Some y"
  using ins_refused [of x t] lookup_ins [of x t t' k] by auto

end

interpretation pk: keyed_table key "insert_row key" "find_row key" for key :: "'r \<Rightarrow> 'k"
proof
  fix x :: 'r and t t' :: "'r list" and k :: 'k
  show "insert_row key x t = None \<longleftrightarrow> find_row key (key x) t \<noteq> None"
    by (simp add: find_row_None insert_row_def)
  show "find_row key k t' = (if k = key x then Some x else find_row key k t)"
    if "insert_row key x t = Some t'"
    using that by (auto simp: insert_row_def find_row_append find_row_None [symmetric]
        split: option.splits if_splits)
  show "key x = k" if "find_row key k t = Some x"
    using find_row_Some [OF that] by simp
qed

subsection \<open>Invariants of a system that steps\<close>

text \<open>
  An invariant that holds at the start and is kept by every step holds of every reachable
  state. Components with a step relation interpret this locale on it.
\<close>

locale stepping_system =
  fixes start :: "'s \<Rightarrow> bool" and move :: "'s \<Rightarrow> 's \<Rightarrow> bool" and inv :: "'s \<Rightarrow> bool"
  assumes inv_start: "start s \<Longrightarrow> inv s"
    and inv_move: "inv s \<Longrightarrow> move s s' \<Longrightarrow> inv s'"
begin

lemma inv_reachable: "start s0 \<Longrightarrow> move\<^sup>*\<^sup>* s0 s \<Longrightarrow> inv s"
  by (rotate_tac 1, induction rule: rtranclp_induct) (auto intro: inv_start inv_move)

lemma inv_from: "move\<^sup>*\<^sup>* s0 s \<Longrightarrow> inv s0 \<Longrightarrow> inv s"
  by (induction rule: rtranclp_induct) (auto intro: inv_move)

end

text \<open>A run is a list of events, each of which must be possible; witnesses evaluate it.\<close>

fun run_steps :: "('e \<Rightarrow> 's \<Rightarrow> 's option) \<Rightarrow> 'e list \<Rightarrow> 's \<Rightarrow> 's option" where
  "run_steps step [] s = Some s"
| "run_steps step (e # es) s = (case step e s of None \<Rightarrow> None | Some s' \<Rightarrow> run_steps step es s')"

lemma run_steps_moves:
  assumes "\<And>e s s'. step e s = Some s' \<Longrightarrow> move s s'"
  shows "run_steps step es s = Some s' \<Longrightarrow> move\<^sup>*\<^sup>* s s'"
  by (induction es arbitrary: s) (auto split: option.splits intro: converse_rtranclp_into_rtranclp assms)

end
