(* ===== verification/Security.thy ===== *)
theory Security
  imports Prelude
begin

section \<open>Key material: internal/security/keys.go\<close>

text \<open>
  The hash functions of Go's \<^verbatim>\<open>crypto\<close> packages are parameters (the record
  \<open>crypto\<close>): every theorem holds whatever they compute, and one that needs them to be
  collision free on two given inputs says so. A \<open>KeyProvider\<close> is one of the two
  implementations of the source. \<open>NewLocalKeyProvider\<close> takes the environment variable's
  value and the outcome of reading 32 random bytes.
\<close>

record crypto =
  sha256_hex :: "string \<Rightarrow> string"
  hmac_hex :: "string \<Rightarrow> string \<Rightarrow> string"

text \<open>Transparent stand-ins for the hash functions, for evaluating the model on concrete inputs.\<close>

definition plain_crypto :: crypto where
  "plain_crypto = \<lparr>sha256_hex = (\<lambda>s. s), hmac_hex = (\<lambda>k s. k @ s)\<rparr>"

datatype KeyProvider = LocalKeyProvider string | KMSKeyProvider string

definition lkp_sign :: "crypto \<Rightarrow> string \<Rightarrow> string \<Rightarrow> string" where
  "lkp_sign C masterKey data = ''hmac:'' @ hmac_hex C masterKey data"

fun SignToken :: "crypto \<Rightarrow> KeyProvider \<Rightarrow> string \<Rightarrow> string outcome" where
  "SignToken C (LocalKeyProvider mk) token = Ok (lkp_sign C mk (''gate:'' @ token))"
| "SignToken C (KMSKeyProvider keyID) token = Err (EMsg ''KMSKeyProvider.SignToken: not implemented'')"

fun VerifyToken :: "crypto \<Rightarrow> KeyProvider \<Rightarrow> string \<Rightarrow> string \<Rightarrow> bool" where
  "VerifyToken C (LocalKeyProvider mk) token sig \<longleftrightarrow> lkp_sign C mk (''gate:'' @ token) = sig"
| "VerifyToken C (KMSKeyProvider keyID) token sig \<longleftrightarrow> False"

fun kp_HashAPIKey :: "crypto \<Rightarrow> KeyProvider \<Rightarrow> string \<Rightarrow> string" where
  "kp_HashAPIKey C (LocalKeyProvider mk) key = lkp_sign C mk (''apikey:'' @ key)"
| "kp_HashAPIKey C (KMSKeyProvider keyID) key = ''kms:not-implemented''"

definition hex_nibble :: "char \<Rightarrow> nat option" where
  "hex_nibble c = (let n = of_char c :: nat in
      if 48 \<le> n \<and> n \<le> 57 then Some (n - 48)
      else if 97 \<le> n \<and> n \<le> 102 then Some (n - 87)
      else if 65 \<le> n \<and> n \<le> 70 then Some (n - 55) else None)"

fun hex_DecodeString :: "string \<Rightarrow> string option" where
  "hex_DecodeString [] = Some []"
| "hex_DecodeString [c] = None"
| "hex_DecodeString (c # d # cs) =
     (case (hex_nibble c, hex_nibble d, hex_DecodeString cs) of
        (Some x, Some y, Some bs) \<Rightarrow> Some (char_of (16 * x + y) # bs)
      | _ \<Rightarrow> None)"

definition NewLocalKeyProvider :: "string \<Rightarrow> string option \<Rightarrow> KeyProvider outcome" where
  "NewLocalKeyProvider raw rnd =
     (if raw \<noteq> [] then
        (case hex_DecodeString raw of
           None \<Rightarrow> Err (EMsg ''ACP_MASTER_KEY must be hex-encoded'')
         | Some b \<Rightarrow> if length b < 32 then Err (EMsg ''ACP_MASTER_KEY must be at least 32 bytes (64 hex chars)'')
                     else Ok (LocalKeyProvider b))
      else (case rnd of
           None \<Rightarrow> Err (EMsg ''generate ephemeral key'')
         | Some key \<Rightarrow> Ok (LocalKeyProvider key)))"

definition DefaultProvider :: "(string \<Rightarrow> string) \<Rightarrow> string option \<Rightarrow> KeyProvider outcome" where
  "DefaultProvider getenv rnd =
     (let kmsKeyID = getenv ''ACP_KMS_KEY_ID'' in
      if kmsKeyID \<noteq> [] then Ok (KMSKeyProvider kmsKeyID)
      else NewLocalKeyProvider (getenv ''ACP_MASTER_KEY'') rnd)"

subsection \<open>What a signer promises\<close>

locale token_signer =
  fixes sgn :: "string \<Rightarrow> string outcome"
    and vrf :: "string \<Rightarrow> string \<Rightarrow> bool"
  assumes vrf_iff: "vrf t s \<longleftrightarrow> sgn t = Ok s"
begin

lemma signed_verifies: "sgn t = Ok s \<Longrightarrow> vrf t s"
  by (simp add: vrf_iff)

lemma signature_unique: "vrf t s \<Longrightarrow> vrf t s' \<Longrightarrow> s = s'"
  by (simp add: vrf_iff)

lemma transplanted_signature: "vrf t s \<Longrightarrow> sgn t' \<noteq> sgn t \<Longrightarrow> \<not> vrf t' s"
  by (auto simp: vrf_iff)

end

lemma VerifyToken_iff: "VerifyToken C kp t s \<longleftrightarrow> SignToken C kp t = Ok s"
  by (cases kp) auto

interpretation kp: token_signer "SignToken C kp" "VerifyToken C kp" for C kp
  by unfold_locales (rule VerifyToken_iff)

subsection \<open>Properties\<close>

lemma gate_apikey_distinct: "''gate:'' @ t \<noteq> ''apikey:'' @ k"
  by simp

lemma hex_DecodeString_length: "hex_DecodeString s = Some b \<Longrightarrow> length s = 2 * length b"
  by (induction s arbitrary: b rule: hex_DecodeString.induct)
    (auto split: option.splits)

end
