(* ===== verification/Json.thy ===== *)
theory Json
  imports Prelude
begin

section \<open>JSON texts\<close>

text \<open>
  What the service uses of Go's package \<^verbatim>\<open>encoding/json\<close>: documents, \<open>marshal\<close>
  (\<^verbatim>\<open>json.Marshal\<close>: map keys in byte order, HTML-sensitive and control characters
  escaped) and \<open>unmarshal\<close> (\<^verbatim>\<open>json.Unmarshal\<close> into \<^verbatim>\<open>any\<close>: a later
  duplicate key wins). \<open>unmarshal\<close> is a character machine (\<open>lex_step\<close>) followed by a
  token machine (\<open>parse_step\<close>), so both are structurally recursive on their input and
  need no fuel. The main fact is the round trip \<open>unmarshal_marshal\<close>.

  Strings are byte strings; bytes above 127 are copied. Integer literals are \<open>JInt\<close>;
  a literal with a fraction, an exponent or a negative zero is kept as written
  (\<open>JFrac\<close>): the service never computes with one. Texts are taken to be well-formed
  UTF-8 without the line separators U+2028 and U+2029, and integers that are decoded and
  printed again to be at most 2 to the 53rd in size (Go decodes them as \<^verbatim>\<open>float64\<close>).
\<close>

datatype json =
    JNull
  | JBool bool
  | JInt int
  | JFrac string
  | JStr string
  | JArr "json list"
  | JObj "(string \<times> json) list"

datatype tok = TLBrace | TRBrace | TLBrack | TRBrack | TComma | TColon | TStr string | TLit json

subsection \<open>Go maps as sorted association lists\<close>

fun map_put :: "string \<Rightarrow> 'v \<Rightarrow> (string \<times> 'v) list \<Rightarrow> (string \<times> 'v) list" where
  "map_put k v [] = [(k, v)]"
| "map_put k v ((k', v') # m) =
     (if k < k' then (k, v) # (k', v') # m
      else if k = k' then (k, v) # m else (k', v') # map_put k v m)"

definition go_map :: "(string \<times> 'v) list \<Rightarrow> (string \<times> 'v) list" where
  "go_map kvs = fold (\<lambda>(k, v) m. map_put k v m) kvs []"

definition map_del :: "string \<Rightarrow> (string \<times> 'v) list \<Rightarrow> (string \<times> 'v) list" where
  "map_del k m = filter (\<lambda>kv. fst kv \<noteq> k) m"

abbreviation sorted_keys :: "(string \<times> 'v) list \<Rightarrow> bool" where
  "sorted_keys m \<equiv> sorted_wrt (<) (map fst m)"

lemma keys_map_put: "fst ` set (map_put k v m) = insert k (fst ` set m)"
  by (induction k v m rule: map_put.induct) auto

lemma sorted_map_put: "sorted_keys m \<Longrightarrow> sorted_keys (map_put k v m)"
proof (induction k v m rule: map_put.induct)
  case (2 k v k' v' m)
  then show ?case
    using keys_map_put [of k v m] by (auto simp: image_iff Ball_def)
qed simp

lemma map_of_map_put: "map_of (map_put k v m) = (map_of m)(k \<mapsto> v)"
  by (induction k v m rule: map_put.induct) (auto simp: fun_eq_iff)

lemma map_put_last: "(\<And>k'. k' \<in> fst ` set m \<Longrightarrow> k' < k) \<Longrightarrow> map_put k v m = m @ [(k, v)]"
  by (induction k v m rule: map_put.induct) (auto simp: not_less_iff_gr_or_eq)

lemma fold_map_put_sorted:
  "sorted_keys (m @ kvs) \<Longrightarrow> fold (\<lambda>(k, v) m. map_put k v m) kvs m = m @ kvs"
proof (induction kvs arbitrary: m)
  case (Cons kv kvs)
  obtain k v where kv: "kv = (k, v)" by (cases kv)
  have "map_put k v m = m @ [(k, v)]"
    using Cons.prems by (intro map_put_last) (auto simp: kv sorted_wrt_append)
  with Cons show ?case by (simp add: kv)
qed simp

lemma go_map_sorted: "sorted_keys kvs \<Longrightarrow> go_map kvs = kvs"
  using fold_map_put_sorted [of "[]" kvs] by (simp add: go_map_def)

lemma sorted_fold_map_put:
  "sorted_keys m \<Longrightarrow> sorted_keys (fold (\<lambda>(k, v) m. map_put k v m) kvs m)"
  by (induction kvs arbitrary: m) (auto intro: sorted_map_put)

lemma sorted_go_map [simp]: "sorted_keys (go_map kvs)"
  unfolding go_map_def by (rule sorted_fold_map_put) simp

lemma set_map_put: "set (map_put k v m) \<subseteq> insert (k, v) (set m)"
  by (induction k v m rule: map_put.induct) auto

lemma set_go_map: "set (go_map kvs) \<subseteq> set kvs"
proof -
  have "set (fold (\<lambda>(k, v) m. map_put k v m) kvs m) \<subseteq> set m \<union> set kvs" for m
  proof (induction kvs arbitrary: m)
    case (Cons kv kvs)
    obtain k v where kv: "kv = (k, v)" by (cases kv)
    from Cons.IH [of "map_put k v m"] set_map_put [of k v m] show ?case
      by (auto simp: kv)
  qed simp
  from this [of "[]"] show ?thesis by (simp add: go_map_def)
qed

lemma sorted_map_del: "sorted_keys m \<Longrightarrow> sorted_keys (map_del k m)"
  by (induction m) (auto simp: map_del_def)

lemma map_of_map_del: "map_of (map_del k m) = (map_of m)(k := None)"
  by (induction m) (auto simp: map_del_def fun_eq_iff)

subsection \<open>Printing\<close>

definition hexdig :: "nat \<Rightarrow> char" where
  "hexdig n = (if n < 10 then char_of (48 + n) else char_of (87 + n))"

definition esc_char :: "char \<Rightarrow> string" where
  "esc_char c =
     (let n = of_char c :: nat in
      if n = 34 then [CHR 0x5C, CHR 0x22]
      else if n = 92 then [CHR 0x5C, CHR 0x5C]
      else if n = 8 then [CHR 0x5C, CHR ''b'']
      else if n = 12 then [CHR 0x5C, CHR ''f'']
      else if n = 10 then [CHR 0x5C, CHR ''n'']
      else if n = 13 then [CHR 0x5C, CHR ''r'']
      else if n = 9 then [CHR 0x5C, CHR ''t'']
      else if n < 32 \<or> n = 60 \<or> n = 62 \<or> n = 38
        then [CHR 0x5C, CHR ''u'', CHR ''0'', CHR ''0'', hexdig (n div 16), hexdig (n mod 16)]
      else [c])"

definition print_str :: "string \<Rightarrow> string" where
  "print_str s = CHR 0x22 # concat (map esc_char s) @ [CHR 0x22]"

fun marshal :: "json \<Rightarrow> string"
  and marshal_elems :: "json list \<Rightarrow> string"
  and marshal_members :: "(string \<times> json) list \<Rightarrow> string" where
  "marshal JNull = ''null''"
| "marshal (JBool b) = (if b then ''true'' else ''false'')"
| "marshal (JInt i) = show_int i"
| "marshal (JFrac s) = s"
| "marshal (JStr s) = print_str s"
| "marshal (JArr vs) = CHR ''['' # marshal_elems vs @ [CHR '']'']"
| "marshal (JObj kvs) = CHR ''{'' # marshal_members kvs @ [CHR ''}'']"
| "marshal_elems [] = []"
| "marshal_elems (v # vs) = marshal v @ (if vs = [] then [] else CHR '','' # marshal_elems vs)"
| "marshal_members [] = []"
| "marshal_members ((k, v) # kvs) = print_str k @ CHR '':'' # marshal v @
     (if kvs = [] then [] else CHR '','' # marshal_members kvs)"

subsection \<open>Lexing\<close>

datatype lstate =
    LStart
  | LWord string
  | LStr string
  | LEsc string
  | LHex string nat nat
  | LHi string nat
  | LHiEsc string nat
  | LHex2 string nat nat nat

definition is_ws :: "char \<Rightarrow> bool" where
  "is_ws c \<longleftrightarrow> (of_char c :: nat) \<in> {32, 9, 10, 13}"

definition is_wordc :: "char \<Rightarrow> bool" where
  "is_wordc c \<longleftrightarrow> is_digit c \<or> (let n = of_char c :: nat in
      (97 \<le> n \<and> n \<le> 122) \<or> n = 69 \<or> n = 43 \<or> n = 45 \<or> n = 46)"

text \<open>The number grammar as an automaton: accepting states 2, 3 (integers), 5, 8.\<close>

fun num_step :: "nat \<Rightarrow> char \<Rightarrow> nat option" where
  "num_step q c =
     (let n = of_char c :: nat; d = is_digit c in
      if q = 0 then (if n = 45 then Some 1 else if n = 48 then Some 2 else if d then Some 3 else None)
      else if q = 1 then (if n = 48 then Some 2 else if d then Some 3 else None)
      else if q = 2 then (if n = 46 then Some 4 else if n = 101 \<or> n = 69 then Some 6 else None)
      else if q = 3 then (if d then Some 3 else if n = 46 then Some 4
                          else if n = 101 \<or> n = 69 then Some 6 else None)
      else if q = 4 then (if d then Some 5 else None)
      else if q = 5 then (if d then Some 5 else if n = 101 \<or> n = 69 then Some 6 else None)
      else if q = 6 then (if d then Some 8 else if n = 43 \<or> n = 45 then Some 7 else None)
      else if q = 7 then (if d then Some 8 else None)
      else (if d then Some 8 else None))"

declare num_step.simps [simp del]

fun num_run :: "nat \<Rightarrow> string \<Rightarrow> nat option" where
  "num_run q [] = Some q"
| "num_run q (c # cs) = (case num_step q c of None \<Rightarrow> None | Some q' \<Rightarrow> num_run q' cs)"

definition read_int :: "string \<Rightarrow> int" where
  "read_int s = (case s of [] \<Rightarrow> 0 | c # cs \<Rightarrow>
      if c = CHR ''-'' then - int (read_nat 0 cs) else int (read_nat 0 s))"

definition word_tok :: "string \<Rightarrow> json option" where
  "word_tok w =
     (if w = ''null'' then Some JNull
      else if w = ''true'' then Some (JBool True)
      else if w = ''false'' then Some (JBool False)
      else (case num_run 0 w of
          Some q \<Rightarrow>
            if (q = 2 \<or> q = 3) \<and> w \<noteq> ''-0'' then Some (JInt (read_int w))
            else if q \<in> {2, 3, 5, 8} then Some (JFrac w) else None
        | None \<Rightarrow> None))"

definition start_step :: "char \<Rightarrow> (tok list \<times> lstate) option" where
  "start_step c =
     (if is_ws c then Some ([], LStart)
      else if c = CHR ''{'' then Some ([TLBrace], LStart)
      else if c = CHR ''}'' then Some ([TRBrace], LStart)
      else if c = CHR ''['' then Some ([TLBrack], LStart)
      else if c = CHR '']'' then Some ([TRBrack], LStart)
      else if c = CHR '','' then Some ([TComma], LStart)
      else if c = CHR '':'' then Some ([TColon], LStart)
      else if c = CHR 0x22 then Some ([], LStr [])
      else if is_wordc c then Some ([], LWord [c])
      else None)"

definition hexval :: "char \<Rightarrow> nat option" where
  "hexval c = (let n = of_char c :: nat in
      if is_digit c then Some (n - 48)
      else if 97 \<le> n \<and> n \<le> 102 then Some (n - 87)
      else if 65 \<le> n \<and> n \<le> 70 then Some (n - 55) else None)"

definition utf8 :: "nat \<Rightarrow> string" where
  "utf8 v =
     (if v < 128 then [char_of v]
      else if v < 2048 then [char_of (192 + v div 64), char_of (128 + v mod 64)]
      else if v < 65536 then
        [char_of (224 + v div 4096), char_of (128 + v div 64 mod 64), char_of (128 + v mod 64)]
      else [char_of (240 + v div 262144), char_of (128 + v div 4096 mod 64),
            char_of (128 + v div 64 mod 64), char_of (128 + v mod 64)])"

definition bad_rune :: string where
  "bad_rune = utf8 65533"

definition unit_state :: "string \<Rightarrow> nat \<Rightarrow> lstate" where
  "unit_state acc v =
     (if 55296 \<le> v \<and> v < 56320 then LHi acc v
      else if 56320 \<le> v \<and> v < 57344 then LStr (acc @ bad_rune)
      else LStr (acc @ utf8 v))"

definition str_step :: "string \<Rightarrow> char \<Rightarrow> (tok list \<times> lstate) option" where
  "str_step acc c =
     (if c = CHR 0x22 then Some ([TStr acc], LStart)
      else if c = CHR 0x5C then Some ([], LEsc acc)
      else if (of_char c :: nat) < 32 then None
      else Some ([], LStr (acc @ [c])))"

definition esc_step :: "string \<Rightarrow> char \<Rightarrow> (tok list \<times> lstate) option" where
  "esc_step acc c =
     (if c = CHR 0x22 \<or> c = CHR 0x5C \<or> c = CHR ''/'' then Some ([], LStr (acc @ [c]))
      else if c = CHR ''b'' then Some ([], LStr (acc @ [CHR 0x08]))
      else if c = CHR ''f'' then Some ([], LStr (acc @ [CHR 0x0C]))
      else if c = CHR ''n'' then Some ([], LStr (acc @ [CHR 0x0A]))
      else if c = CHR ''r'' then Some ([], LStr (acc @ [CHR 0x0D]))
      else if c = CHR ''t'' then Some ([], LStr (acc @ [CHR 0x09]))
      else if c = CHR ''u'' then Some ([], LHex acc 0 0)
      else None)"

fun lex_step :: "lstate \<Rightarrow> char \<Rightarrow> (tok list \<times> lstate) option" where
  "lex_step LStart c = start_step c"
| "lex_step (LWord w) c =
     (if is_wordc c then Some ([], LWord (w @ [c]))
      else case word_tok w of None \<Rightarrow> None
        | Some j \<Rightarrow> map_option (\<lambda>(ts, st). (TLit j # ts, st)) (start_step c))"
| "lex_step (LStr acc) c = str_step acc c"
| "lex_step (LEsc acc) c = esc_step acc c"
| "lex_step (LHex acc k v) c =
     (case hexval c of None \<Rightarrow> None
      | Some x \<Rightarrow> Some ([], if k < 3 then LHex acc (Suc k) (16 * v + x) else unit_state acc (16 * v + x)))"
| "lex_step (LHi acc h) c =
     (if c = CHR 0x5C then Some ([], LHiEsc acc h) else str_step (acc @ bad_rune) c)"
| "lex_step (LHiEsc acc h) c =
     (if c = CHR ''u'' then Some ([], LHex2 acc h 0 0) else esc_step (acc @ bad_rune) c)"
| "lex_step (LHex2 acc h k v) c =
     (case hexval c of None \<Rightarrow> None
      | Some x \<Rightarrow> Some ([],
          if k < 3 then LHex2 acc h (Suc k) (16 * v + x)
          else let u = 16 * v + x in
            if 56320 \<le> u \<and> u < 57344
            then LStr (acc @ utf8 (65536 + 1024 * (h - 55296) + (u - 56320)))
            else unit_state (acc @ bad_rune) u))"

fun lex_end :: "lstate \<Rightarrow> tok list option" where
  "lex_end LStart = Some []"
| "lex_end (LWord w) = map_option (\<lambda>j. [TLit j]) (word_tok w)"
| "lex_end _ = None"

fun lex :: "lstate \<Rightarrow> string \<Rightarrow> tok list option" where
  "lex st [] = lex_end st"
| "lex st (c # cs) =
     (case lex_step st c of None \<Rightarrow> None
      | Some (ts, st') \<Rightarrow> map_option ((@) ts) (lex st' cs))"

subsection \<open>Parsing\<close>

datatype frame = FArr "json list" | FObj "(string \<times> json) list" string

datatype pmode =
    PVal
  | PArr0
  | PArrSep "json list"
  | PObj0
  | PKey "(string \<times> json) list"
  | PColon "(string \<times> json) list" string
  | PObjSep "(string \<times> json) list"
  | PDone json

type_synonym pstate = "pmode \<times> frame list"

fun deliver :: "json \<Rightarrow> frame list \<Rightarrow> pstate" where
  "deliver v [] = (PDone v, [])"
| "deliver v (FArr vs # fs) = (PArrSep (vs @ [v]), fs)"
| "deliver v (FObj kvs k # fs) = (PObjSep (kvs @ [(k, v)]), fs)"

fun val_step :: "frame list \<Rightarrow> tok \<Rightarrow> pstate option" where
  "val_step fs (TLit v) = Some (deliver v fs)"
| "val_step fs (TStr s) = Some (deliver (JStr s) fs)"
| "val_step fs TLBrack = Some (PArr0, fs)"
| "val_step fs TLBrace = Some (PObj0, fs)"
| "val_step fs _ = None"

fun parse_step :: "pstate \<Rightarrow> tok \<Rightarrow> pstate option" where
  "parse_step (PVal, fs) t = val_step fs t"
| "parse_step (PArr0, fs) t =
     (if t = TRBrack then Some (deliver (JArr []) fs) else val_step (FArr [] # fs) t)"
| "parse_step (PArrSep vs, fs) t =
     (if t = TRBrack then Some (deliver (JArr vs) fs)
      else if t = TComma then Some (PVal, FArr vs # fs) else None)"
| "parse_step (PObj0, fs) t =
     (case t of TRBrace \<Rightarrow> Some (deliver (JObj []) fs) | TStr k \<Rightarrow> Some (PColon [] k, fs) | _ \<Rightarrow> None)"
| "parse_step (PKey kvs, fs) t =
     (case t of TStr k \<Rightarrow> Some (PColon kvs k, fs) | _ \<Rightarrow> None)"
| "parse_step (PColon kvs k, fs) t = (if t = TColon then Some (PVal, FObj kvs k # fs) else None)"
| "parse_step (PObjSep kvs, fs) t =
     (if t = TRBrace then Some (deliver (JObj (go_map kvs)) fs)
      else if t = TComma then Some (PKey kvs, fs) else None)"
| "parse_step (PDone v, fs) t = None"

fun parse_run :: "pstate \<Rightarrow> tok list \<Rightarrow> json option" where
  "parse_run st [] = (case fst st of PDone v \<Rightarrow> Some v | _ \<Rightarrow> None)"
| "parse_run st (t # ts) = (case parse_step st t of None \<Rightarrow> None | Some st' \<Rightarrow> parse_run st' ts)"

definition unmarshal :: "string \<Rightarrow> json option" where
  "unmarshal s = (case lex LStart s of None \<Rightarrow> None | Some ts \<Rightarrow> parse_run (PVal, []) ts)"

text \<open>Decoding into \<^verbatim>\<open>map[string]any\<close>: \<^verbatim>\<open>null\<close> leaves a nil map, another kind of value is an error.\<close>

definition unmarshal_map :: "string \<Rightarrow> (string \<times> json) list option" where
  "unmarshal_map s =
     (case unmarshal s of Some (JObj m) \<Rightarrow> Some m | Some JNull \<Rightarrow> Some [] | _ \<Rightarrow> None)"

text \<open>The type assertion \<^verbatim>\<open>m[k].(string)\<close>.\<close>

definition get_string :: "(string \<times> json) list \<Rightarrow> string \<Rightarrow> string option" where
  "get_string m k = (case map_of m k of Some (JStr s) \<Rightarrow> Some s | _ \<Rightarrow> None)"

subsection \<open>The round trip\<close>

fun wf_json :: "json \<Rightarrow> bool"
  and wf_elems :: "json list \<Rightarrow> bool"
  and wf_members :: "(string \<times> json) list \<Rightarrow> bool" where
  "wf_json (JFrac s) = (s \<noteq> [] \<and> list_all is_wordc s \<and> word_tok s = Some (JFrac s))"
| "wf_json (JArr vs) = wf_elems vs"
| "wf_json (JObj kvs) = (sorted_keys kvs \<and> wf_members kvs)"
| "wf_json _ = True"
| "wf_elems [] = True"
| "wf_elems (v # vs) = (wf_json v \<and> wf_elems vs)"
| "wf_members [] = True"
| "wf_members ((k, v) # kvs) = (wf_json v \<and> wf_members kvs)"

text \<open>
  A value whose objects are not sorted (a Go struct, printed in the order of its fields) is
  read back with its members sorted: \<open>canon\<close>. \<open>lit_json\<close> asks only for well-formed
  fractional literals.
\<close>

fun lit_json :: "json \<Rightarrow> bool"
  and lit_elems :: "json list \<Rightarrow> bool"
  and lit_members :: "(string \<times> json) list \<Rightarrow> bool" where
  "lit_json (JFrac s) = (s \<noteq> [] \<and> list_all is_wordc s \<and> word_tok s = Some (JFrac s))"
| "lit_json (JArr vs) = lit_elems vs"
| "lit_json (JObj kvs) = lit_members kvs"
| "lit_json _ = True"
| "lit_elems [] = True"
| "lit_elems (v # vs) = (lit_json v \<and> lit_elems vs)"
| "lit_members [] = True"
| "lit_members ((k, v) # kvs) = (lit_json v \<and> lit_members kvs)"

fun canon :: "json \<Rightarrow> json"
  and canon_elems :: "json list \<Rightarrow> json list"
  and canon_members :: "(string \<times> json) list \<Rightarrow> (string \<times> json) list" where
  "canon (JArr vs) = JArr (canon_elems vs)"
| "canon (JObj kvs) = JObj (go_map (canon_members kvs))"
| "canon j = j"
| "canon_elems [] = []"
| "canon_elems (v # vs) = canon v # canon_elems vs"
| "canon_members [] = []"
| "canon_members ((k, v) # kvs) = (k, canon v) # canon_members kvs"

lemma wf_canon:
  "wf_json j \<Longrightarrow> lit_json j \<and> canon j = j"
  "wf_elems vs \<Longrightarrow> lit_elems vs \<and> canon_elems vs = vs"
  "wf_members kvs \<Longrightarrow> lit_members kvs \<and> canon_members kvs = kvs"
  by (induction j and vs and kvs rule: wf_json_wf_elems_wf_members.induct) (auto simp: go_map_sorted)

lemma canon_elems_map: "canon_elems vs = map canon vs"
  by (induction vs) auto

lemma canon_members_map: "canon_members kvs = map (\<lambda>(k, v). (k, canon v)) kvs"
  by (induction kvs) auto

lemma lit_members_iff: "lit_members kvs \<longleftrightarrow> (\<forall>kv \<in> set kvs. lit_json (snd kv))"
  by (induction kvs) auto

lemma lit_elems_iff: "lit_elems vs \<longleftrightarrow> (\<forall>v \<in> set vs. lit_json v)"
  by (induction vs) auto

fun toks :: "json \<Rightarrow> tok list"
  and toks_elems :: "json list \<Rightarrow> tok list"
  and toks_members :: "(string \<times> json) list \<Rightarrow> tok list" where
  "toks (JStr s) = [TStr s]"
| "toks (JArr vs) = TLBrack # toks_elems vs @ [TRBrack]"
| "toks (JObj kvs) = TLBrace # toks_members kvs @ [TRBrace]"
| "toks j = [TLit j]"
| "toks_elems [] = []"
| "toks_elems (v # vs) = toks v @ (if vs = [] then [] else TComma # toks_elems vs)"
| "toks_members [] = []"
| "toks_members ((k, v) # kvs) = TStr k # TColon # toks v @
     (if kvs = [] then [] else TComma # toks_members kvs)"


lemma is_digit_wordc: "is_digit c \<Longrightarrow> is_wordc c"
  by (simp add: is_wordc_def)

lemma hexval_hexdig: "n < 16 \<Longrightarrow> hexval (hexdig n) = Some n"
  by (auto simp: hexval_def hexdig_def is_digit_def Let_def)

lemma of_charD: "(of_char c :: nat) = n \<Longrightarrow> c = char_of n"
  by (metis char_of_char)

lemma char_of_consts:
  "char_of (48::nat) = CHR ''0''" "char_of (45::nat) = CHR ''-''" "char_of (34::nat) = CHR 0x22"
  "char_of (92::nat) = CHR 0x5C" "char_of (8::nat) = CHR 0x08" "char_of (12::nat) = CHR 0x0C"
  "char_of (10::nat) = CHR 0x0A" "char_of (13::nat) = CHR 0x0D" "char_of (9::nat) = CHR 0x09"
  by code_simp+

lemma emit_Nil [simp]: "map_option ((@) []) x = x"
  by (cases x) auto

lemma emit_Cons [simp]: "map_option ((@) (t # ts)) x = map_option ((#) t) (map_option ((@) ts) x)"
  by (cases x) auto

lemma lex_esc_char: "lex (LStr acc) (esc_char c @ cs) = lex (LStr (acc @ [c])) cs"
proof -
  let ?n = "of_char c :: nat"
  have n256: "?n < 256" by simp
  show ?thesis
  proof (cases "?n < 32 \<or> ?n = 60 \<or> ?n = 62 \<or> ?n = 38")
    case True
    have "?n div 16 < 16" using less_mult_imp_div_less [of ?n 16 16] n256 by simp
    then have hex: "hexval (hexdig (?n div 16)) = Some (?n div 16)"
      "hexval (hexdig (?n mod 16)) = Some (?n mod 16)" "hexval CHR ''0'' = Some 0"
      by (simp_all only: hexval_hexdig) (simp_all add: hexval_hexdig hexval_def is_digit_def)
    have bck: "utf8 (16 * (?n div 16) + ?n mod 16) = [c]"
      using True by (auto simp: utf8_def)
    show ?thesis
    proof (cases "?n \<in> {8, 12, 10, 13, 9}")
      case True
      then have "c = CHR 0x08 \<or> c = CHR 0x0C \<or> c = CHR 0x0A \<or> c = CHR 0x0D \<or> c = CHR 0x09"
        by (auto dest!: of_charD simp: char_of_consts)
      then show ?thesis
        by (auto simp: esc_char_def str_step_def esc_step_def Let_def)
    next
      case False
      with True have "?n \<noteq> 34" "?n \<noteq> 92" by auto
      moreover have "unit_state acc (16 * (?n div 16) + ?n mod 16) = LStr (acc @ [c])"
        using True bck by (auto simp: unit_state_def)
      ultimately show ?thesis
        using True False by (simp add: esc_char_def Let_def str_step_def esc_step_def hex)
    qed
  next
    case False
    show ?thesis
    proof (cases "?n = 34 \<or> ?n = 92")
      case True
      then have "c = CHR 0x22 \<or> c = CHR 0x5C"
        by (auto dest!: of_charD simp: char_of_consts)
      then show ?thesis by (auto simp: esc_char_def str_step_def esc_step_def Let_def)
    next
      case nq: False
      then have "c \<noteq> CHR 0x22" "c \<noteq> CHR 0x5C" by auto
      with False nq show ?thesis by (auto simp: esc_char_def str_step_def Let_def)
    qed
  qed
qed

lemma lex_str:
  "lex (LStr acc) (concat (map esc_char s) @ CHR 0x22 # cs) =
     map_option ((#) (TStr (acc @ s))) (lex LStart cs)"
proof (induction s arbitrary: acc)
  case Nil
  show ?case by (simp add: str_step_def)
next
  case (Cons c s)
  then show ?case by (simp add: lex_esc_char)
qed

lemma lex_print_str:
  "lex LStart (print_str s @ cs) = map_option ((#) (TStr s)) (lex LStart cs)"
proof -
  have "start_step CHR 0x22 = Some ([], LStr [])"
    by (simp add: start_step_def is_ws_def)
  then show ?thesis
    using lex_str [of "[]" s cs] by (simp add: print_str_def)
qed

text \<open>A word ends where the text ends or at a character no word holds.\<close>

definition word_break :: "string \<Rightarrow> bool" where
  "word_break cs \<longleftrightarrow> cs = [] \<or> \<not> is_wordc (hd cs)"

lemma lex_word_more:
  "list_all is_wordc w \<Longrightarrow> lex (LWord acc) (w @ cs) = lex (LWord (acc @ w)) cs"
  by (induction w arbitrary: acc) auto

lemma lex_word_end:
  assumes "word_tok w = Some j" and "word_break cs"
  shows "lex (LWord w) cs = map_option ((#) (TLit j)) (lex LStart cs)"
proof (cases cs)
  case (Cons c cs')
  with assms show ?thesis
    by (cases "start_step c") (auto simp: word_break_def)
qed (use assms in simp)

lemma wordc_not_start:
  assumes "is_wordc c"
  shows "start_step c = Some ([], LWord [c])"
proof -
  have "\<not> is_ws c" using assms by (auto simp: is_wordc_def is_digit_def is_ws_def Let_def)
  moreover have "c \<noteq> CHR ''{''" "c \<noteq> CHR ''}''" "c \<noteq> CHR ''[''" "c \<noteq> CHR '']''" "c \<noteq> CHR '',''"
    "c \<noteq> CHR '':''" "c \<noteq> CHR 0x22"
    using assms by (auto simp: is_wordc_def is_digit_def Let_def)
  ultimately show ?thesis using assms by (simp add: start_step_def)
qed

lemma lex_word:
  assumes "w \<noteq> []" and "list_all is_wordc w" and "word_tok w = Some j" and "word_break cs"
  shows "lex LStart (w @ cs) = map_option ((#) (TLit j)) (lex LStart cs)"
proof -
  obtain c w' where w: "w = c # w'" using assms(1) by (cases w) auto
  with assms(2) have "lex LStart (w @ cs) = lex (LWord w) cs"
    using lex_word_more [of w' "[c]" cs]
    by (simp add: wordc_not_start)
  with lex_word_end [OF assms(3,4)] show ?thesis by simp
qed

subsection \<open>Integer literals\<close>

lemma show_nat_hd_nonzero: "0 < n \<Longrightarrow> hd (show_nat n) \<noteq> CHR ''0''"
proof (induction n rule: show_nat.induct)
  case (1 n)
  show ?case
  proof (cases "n < 10")
    case True
    have "char_of (48 + n) \<noteq> CHR ''0''"
    proof
      assume "char_of (48 + n) = CHR ''0''"
      then have "(of_char (char_of (48 + n) :: char) :: nat) = of_char CHR ''0''" by simp
      with True \<open>0 < n\<close> show False by simp
    qed
    with True show ?thesis by (subst show_nat.simps) simp
  next
    case False
    with 1 show ?thesis by (subst show_nat.simps) simp
  qed
qed

lemma num_run_digits: "list_all is_digit ds \<Longrightarrow> num_run 3 ds = Some 3"
  by (induction ds) (auto simp: num_step.simps Let_def)

lemma num_run_show_nat:
  assumes "q = 0 \<or> q = 1"
  shows "num_run q (show_nat n) = Some (if n = 0 then 2 else 3)"
proof (cases "n = 0")
  case True
  then have "show_nat n = ''0''" by (simp add: show_nat.simps char_of_consts)
  then show ?thesis using True assms by (auto simp: num_step.simps)
next
  case False
  obtain c ds where cs: "show_nat n = c # ds" by (cases "show_nat n") auto
  then have "is_digit c" and ds: "list_all is_digit ds" and "c \<noteq> CHR ''0''"
    using show_nat_digits [of n] show_nat_hd_nonzero [of n] False by auto
  then have "(of_char c :: nat) \<noteq> 48" "(of_char c :: nat) \<noteq> 45"
    by (auto dest!: of_charD simp: is_digit_def char_of_consts)
  with \<open>is_digit c\<close> assms have "num_step q c = Some 3" by (auto simp: num_step.simps)
  with cs ds False show ?thesis by (simp add: num_run_digits)
qed

lemma show_int_wordc: "list_all is_wordc (show_int i)"
proof -
  have "list_all is_wordc (show_nat n)" for n
    using show_nat_digits [of n] by (auto simp: list_all_iff is_digit_wordc)
  then show ?thesis by (auto simp: show_int_def is_wordc_def)
qed

lemma digits_not_word:
  assumes "is_digit (hd w) \<or> hd w = CHR ''-''"
  shows "w \<noteq> ''null'' \<and> w \<noteq> ''true'' \<and> w \<noteq> ''false''"
  using assms by (auto simp: is_digit_def)

lemma word_tok_show_int: "word_tok (show_int i) = Some (JInt i)"
proof -
  have hd: "is_digit (hd (show_int i)) \<or> hd (show_int i) = CHR ''-''"
    by (auto simp: show_int_def hd_show_nat_digit)
  have run: "num_run 0 (show_int i) = Some 2 \<or> num_run 0 (show_int i) = Some 3"
    by (auto simp: show_int_def num_run_show_nat num_step.simps)
  have nz: "show_int i \<noteq> ''-0''"
  proof
    assume eq: "show_int i = ''-0''"
    then have neg: "i < 0"
      using hd_show_nat_digit [of "nat i"] by (auto simp: show_int_def is_digit_def split: if_splits)
    with eq have "show_nat (nat (- i)) = ''0''" by (simp add: show_int_def)
    with show_nat_hd_nonzero [of "nat (- i)"] neg show False by simp
  qed
  have "show_nat (nat i) = c # cs \<Longrightarrow> c \<noteq> CHR ''-''" for c cs
    using hd_show_nat_digit [of "nat i"] by (auto simp: is_digit_def)
  then have "read_int (show_int i) = i"
    using read_show_nat [of "nat i"] read_show_nat [of "nat (- i)"]
    by (auto simp: read_int_def show_int_def split: list.splits)
  with digits_not_word [OF hd] run nz show ?thesis by (auto simp: word_tok_def)
qed

subsection \<open>Printed documents lex to their tokens and parse back\<close>

lemma word_break_punct [simp]:
  "word_break (CHR '','' # cs)" "word_break (CHR '']'' # cs)" "word_break (CHR ''}'' # cs)" "word_break []"
  by (simp_all add: word_break_def is_wordc_def is_digit_def)

lemma start_step_punct [simp]:
  "start_step CHR '','' = Some ([TComma], LStart)" "start_step CHR '':'' = Some ([TColon], LStart)"
  "start_step CHR ''['' = Some ([TLBrack], LStart)" "start_step CHR '']'' = Some ([TRBrack], LStart)"
  "start_step CHR ''{'' = Some ([TLBrace], LStart)" "start_step CHR ''}'' = Some ([TRBrace], LStart)"
  by (simp_all add: start_step_def is_ws_def)

lemma word_tok_literals [simp]:
  "word_tok ''null'' = Some JNull" "word_tok ''true'' = Some (JBool True)"
  "word_tok ''false'' = Some (JBool False)"
  by (simp_all add: word_tok_def)

lemma literal_wordc [simp]:
  "list_all is_wordc ''null''" "list_all is_wordc ''true''" "list_all is_wordc ''false''"
  by (simp_all add: is_wordc_def)

lemma emit_append: "map_option ((@) (ts @ us)) x = map_option ((@) ts) (map_option ((@) us) x)"
  by (cases x) auto

lemma lex_marshal:
  "lit_json j \<Longrightarrow> word_break cs \<Longrightarrow>
     lex LStart (marshal j @ cs) = map_option ((@) (toks j)) (lex LStart cs)"
  "lit_elems vs \<Longrightarrow> word_break cs \<Longrightarrow>
     lex LStart (marshal_elems vs @ cs) = map_option ((@) (toks_elems vs)) (lex LStart cs)"
  "lit_members kvs \<Longrightarrow> word_break cs \<Longrightarrow>
     lex LStart (marshal_members kvs @ cs) = map_option ((@) (toks_members kvs)) (lex LStart cs)"
proof (induction j and vs and kvs arbitrary: cs and cs and cs
    rule: marshal_marshal_elems_marshal_members.induct)
  case 1
  then show ?case
    using lex_word [OF _ literal_wordc(1) word_tok_literals(1), of cs] by (simp del: lex.simps)
next
  case (2 b)
  then show ?case
    using lex_word [OF _ literal_wordc(2) word_tok_literals(2), of cs]
      lex_word [OF _ literal_wordc(3) word_tok_literals(3), of cs] by (simp del: lex.simps)
next
  case (3 i)
  then show ?case
    using lex_word [OF show_int_nonempty show_int_wordc word_tok_show_int, of cs i] by simp
next
  case (4 s)
  then show ?case using lex_word [of s "JFrac s" cs] by simp
qed (simp_all add: lex_print_str emit_append)

lemma parse_toks:
  "lit_json j \<Longrightarrow> parse_run (PVal, fs) (toks j @ ts) = parse_run (deliver (canon j) fs) ts"
  "lit_elems vs \<Longrightarrow> vs \<noteq> [] \<Longrightarrow>
     parse_run (PVal, FArr us # fs) (toks_elems vs @ ts) = parse_run (PArrSep (us @ canon_elems vs), fs) ts"
  "lit_members kvs \<Longrightarrow> kvs \<noteq> [] \<Longrightarrow>
     parse_run (PKey ms, fs) (toks_members kvs @ ts) = parse_run (PObjSep (ms @ canon_members kvs), fs) ts"
proof (induction j and vs and kvs arbitrary: fs ts and us fs ts and ms fs ts
    rule: toks_toks_elems_toks_members.induct)
  case (2 vs)
  have first: "toks v = t # us \<Longrightarrow> t \<noteq> TRBrack" for v t us
    by (cases v) auto
  show ?case
  proof (cases vs)
    case (Cons v vs')
    obtain t us where "toks v = t # us" by (cases v) auto
    with first Cons have "parse_step (PArr0, fs) (hd (toks_elems vs)) =
        parse_step (PVal, FArr [] # fs) (hd (toks_elems vs))" and "toks_elems vs \<noteq> []"
      by auto
    then have "parse_run (PArr0, fs) (toks_elems vs @ TRBrack # ts) =
        parse_run (PVal, FArr [] # fs) (toks_elems vs @ TRBrack # ts)"
      by (cases "toks_elems vs") auto
    with 2 Cons show ?thesis by simp
  qed simp
next
  case (3 kvs)
  show ?case
  proof (cases kvs)
    case (Cons kv kvs')
    obtain k v where kv: "kv = (k, v)" by (cases kv)
    have "parse_run (PObj0, fs) (toks_members kvs @ TRBrace # ts) =
        parse_run (PKey [], fs) (toks_members kvs @ TRBrace # ts)"
      by (simp add: Cons kv)
    with 3 Cons show ?thesis by simp
  qed (simp add: go_map_def)
next
  case (6 v vs)
  then show ?case by (cases vs) auto
next
  case (8 k v kvs)
  then show ?case by (cases kvs) auto
qed simp_all

theorem unmarshal_canon: "lit_json j \<Longrightarrow> unmarshal (marshal j) = Some (canon j)"
  using lex_marshal(1) [of j "[]"] parse_toks(1) [of j "[]" "[]"]
  by (simp add: unmarshal_def)

theorem unmarshal_marshal: "wf_json j \<Longrightarrow> unmarshal (marshal j) = Some j"
  using unmarshal_canon [of j] wf_canon(1) [of j] by simp

subsection \<open>What \<open>unmarshal\<close> returns is well formed\<close>

lemma wf_elems_iff: "wf_elems vs \<longleftrightarrow> (\<forall>v \<in> set vs. wf_json v)"
  by (induction vs) auto

lemma wf_members_iff: "wf_members kvs \<longleftrightarrow> (\<forall>kv \<in> set kvs. wf_json (snd kv))"
  by (induction kvs) auto

fun tok_ok :: "tok \<Rightarrow> bool" where
  "tok_ok (TLit j) = wf_json j"
| "tok_ok _ = True"

fun lstate_ok :: "lstate \<Rightarrow> bool" where
  "lstate_ok (LWord w) = (w \<noteq> [] \<and> list_all is_wordc w)"
| "lstate_ok _ = True"

lemma word_tok_shape:
  "word_tok w = Some j \<Longrightarrow> j = JNull \<or> (\<exists>b. j = JBool b) \<or> (\<exists>i. j = JInt i) \<or> j = JFrac w"
  unfolding word_tok_def by (auto split: if_split_asm option.split_asm)

lemma word_tok_wf:
  "w \<noteq> [] \<Longrightarrow> list_all is_wordc w \<Longrightarrow> word_tok w = Some j \<Longrightarrow> wf_json j"
  using word_tok_shape [of w j] by auto

lemma start_step_ok: "start_step c = Some (ts, st) \<Longrightarrow> list_all tok_ok ts \<and> lstate_ok st"
  by (auto simp: start_step_def split: if_splits)

lemma str_step_ok: "str_step acc c = Some (ts, st) \<Longrightarrow> list_all tok_ok ts \<and> lstate_ok st"
  by (auto simp: str_step_def split: if_splits)

lemma esc_step_ok: "esc_step acc c = Some (ts, st) \<Longrightarrow> list_all tok_ok ts \<and> lstate_ok st"
  by (auto simp: esc_step_def split: if_splits)

lemma unit_state_ok [simp]: "lstate_ok (unit_state acc v)"
  by (simp add: unit_state_def)

lemma lex_step_ok:
  assumes "lex_step st c = Some (ts, st')" and "lstate_ok st"
  shows "list_all tok_ok ts \<and> lstate_ok st'"
proof (cases st)
  case (LWord w)
  with assms show ?thesis
    using word_tok_wf [of w] start_step_ok [of c]
    by (cases "word_tok w"; cases "start_step c") (auto split: if_splits)
next
  case (LHi acc h)
  with assms show ?thesis by (auto split: if_splits dest: str_step_ok)
next
  case (LHiEsc acc h)
  with assms show ?thesis by (auto split: if_splits dest: esc_step_ok)
qed (use assms in \<open>auto simp: Let_def split: option.splits if_splits
       dest: start_step_ok str_step_ok esc_step_ok\<close>)

lemma lex_ok: "lex st cs = Some ts \<Longrightarrow> lstate_ok st \<Longrightarrow> list_all tok_ok ts"
proof (induction cs arbitrary: st ts)
  case Nil
  then show ?case by (cases st) (auto dest: word_tok_wf)
next
  case (Cons c cs)
  then obtain us st' vs where s: "lex_step st c = Some (us, st')" and v: "lex st' cs = Some vs"
    and ts: "ts = us @ vs"
    by (auto split: option.splits)
  from lex_step_ok [OF s Cons.prems(2)] Cons.IH [OF v] show ?case by (simp add: ts)
qed

fun frame_ok :: "frame \<Rightarrow> bool" where
  "frame_ok (FArr vs) = wf_elems vs"
| "frame_ok (FObj kvs k) = wf_members kvs"

fun pmode_ok :: "pmode \<Rightarrow> bool" where
  "pmode_ok (PArrSep vs) = wf_elems vs"
| "pmode_ok (PKey kvs) = wf_members kvs"
| "pmode_ok (PColon kvs k) = wf_members kvs"
| "pmode_ok (PObjSep kvs) = wf_members kvs"
| "pmode_ok (PDone v) = wf_json v"
| "pmode_ok _ = True"

definition pstate_ok :: "pstate \<Rightarrow> bool" where
  "pstate_ok st \<longleftrightarrow> pmode_ok (fst st) \<and> list_all frame_ok (snd st)"

lemma deliver_ok: "wf_json v \<Longrightarrow> list_all frame_ok fs \<Longrightarrow> pstate_ok (deliver v fs)"
  by (cases "(v, fs)" rule: deliver.cases)
    (auto simp: pstate_ok_def wf_elems_iff wf_members_iff)

lemma val_step_ok:
  "val_step fs t = Some st \<Longrightarrow> tok_ok t \<Longrightarrow> list_all frame_ok fs \<Longrightarrow> pstate_ok st"
  by (cases t) (auto simp: deliver_ok, auto simp: pstate_ok_def)

lemma wf_go_map: "wf_members kvs \<Longrightarrow> wf_members (go_map kvs)"
  using set_go_map [of kvs] by (auto simp: wf_members_iff)

lemma parse_step_ok:
  assumes "parse_step st t = Some st'" and "tok_ok t" and "pstate_ok st"
  shows "pstate_ok st'"
proof -
  obtain m fs where st: "st = (m, fs)" by (cases st)
  have fs: "list_all frame_ok fs" and m: "pmode_ok m"
    using assms(3) by (simp_all add: st pstate_ok_def)
  show ?thesis
  proof (cases m)
    case PVal
    with assms fs show ?thesis by (simp add: st val_step_ok)
  next
    case PArr0
    with assms fs show ?thesis by (auto simp: st split: if_splits intro: deliver_ok val_step_ok)
  next
    case (PArrSep vs)
    with m have "wf_json (JArr vs)" by simp
    with PArrSep assms(1) fs show ?thesis
      by (auto simp: st split: if_splits intro: deliver_ok) (auto simp: pstate_ok_def)
  next
    case (PObjSep kvs)
    with m have "wf_json (JObj (go_map kvs))" by (simp add: wf_go_map)
    with PObjSep m assms(1) fs show ?thesis
      by (auto simp: st simp del: wf_json.simps split: if_splits intro: deliver_ok)
        (auto simp: pstate_ok_def)
  next
    case PObj0
    with assms(1) fs show ?thesis
      by (auto simp: st split: tok.splits intro: deliver_ok) (auto simp: pstate_ok_def)
  qed (use assms in \<open>auto simp: st pstate_ok_def split: tok.splits if_splits\<close>)
qed

lemma parse_run_ok:
  "parse_run st ts = Some j \<Longrightarrow> list_all tok_ok ts \<Longrightarrow> pstate_ok st \<Longrightarrow> wf_json j"
proof (induction ts arbitrary: st)
  case Nil
  then show ?case by (auto simp: pstate_ok_def split: pmode.splits)
next
  case (Cons t ts)
  then show ?case by (auto split: option.splits intro: parse_step_ok)
qed

lemma unmarshal_wf:
  assumes "unmarshal s = Some j"
  shows "wf_json j"
proof -
  from assms obtain ts where "lex LStart s = Some ts" and run: "parse_run (PVal, []) ts = Some j"
    by (auto simp: unmarshal_def split: option.splits)
  then have "list_all tok_ok ts" by (auto dest: lex_ok)
  with run show ?thesis by (rule parse_run_ok) (simp add: pstate_ok_def)
qed

lemma unmarshal_map_wf: "unmarshal_map s = Some m \<Longrightarrow> wf_json (JObj m)"
  by (auto simp: unmarshal_map_def dest!: unmarshal_wf split: option.splits json.splits)

lemma unmarshal_map_marshal: "wf_json (JObj m) \<Longrightarrow> unmarshal_map (marshal (JObj m)) = Some m"
  using unmarshal_marshal [of "JObj m"] by (simp add: unmarshal_map_def del: marshal.simps)

lemma wf_map_put: "wf_json (JObj m) \<Longrightarrow> wf_json v \<Longrightarrow> wf_json (JObj (map_put k v m))"
  using set_map_put [of k v m] by (auto simp: wf_members_iff sorted_map_put)

lemma wf_map_of: "wf_json (JObj m) \<Longrightarrow> map_of m k = Some v \<Longrightarrow> wf_json v"
  by (auto simp: wf_members_iff dest!: map_of_SomeD)

end
