(* ===== verification/DB.thy ===== *)
theory DB
  imports Security Json
begin

section \<open>The database handle: internal/store/db.go\<close>

text \<open>
  The rows of every table (the columns of \<^verbatim>\<open>acpd/migrations\<close>, nullable ones as
  \<^verbatim>\<open>option\<close>), the handle \<open>dbs\<close> (the Go struct \<^verbatim>\<open>DB\<close> with what its
  connection pool sees), statements, and transactions.

  \<^item> Time stamps are the seconds \<open>now\<close> prints, read from the handle's \<open>clock\<close>; the
    environment moves the clock between operations.
  \<^item> Every statement first takes one element of \<open>faults\<close>; \<open>True\<close> makes the engine
    fail there. A theorem about all handles is about every pattern of engine failures.
  \<^item> \<open>saved\<close> is \<open>Some\<close> of the committed tables while a transaction runs. On SQLite the
    pool has one connection, so a statement on the pool inside a transaction waits for
    ever (\<open>Blocked\<close>); on Postgres it reads the committed tables, and a failed statement
    aborts its transaction.
\<close>

subsection \<open>Rows\<close>

record workflow_row =
  wf_id :: string
  wf_goal :: string
  wf_owner :: string
  wf_stage :: string
  wf_state_hash :: string
  wf_current_seq :: int
  wf_snapshot_seq :: int
  wf_created_at :: int
  wf_updated_at :: int

record snapshot_row =
  sn_workflow_id :: string
  sn_seq :: int
  sn_state_json :: string
  sn_state_hash :: string
  sn_created_at :: int

record delta_row =
  dl_workflow_id :: string
  dl_seq :: int
  dl_delta_json :: string
  dl_delta_hash :: string
  dl_prev_delta_hash :: "string option"
  dl_created_at :: int

record receipt_row =
  rc_workflow_id :: string
  rc_seq :: int
  rc_receipt_digest :: string
  rc_receipt_json :: string
  rc_prev_receipt_digest :: "string option"
  rc_created_at :: int

record artifact_row =
  ar_digest :: string
  ar_workflow_id :: string
  ar_artifact_json :: string
  ar_content_ref :: "string option"
  ar_created_at :: int

record gate_row =
  gt_token :: string
  gt_workflow_id :: string
  gt_seq :: int
  gt_status :: string
  gt_gate_json :: string
  gt_resolved_at :: "int option"
  gt_resolved_by :: "string option"
  gt_created_at :: int

record task_row =
  tk_task_id :: string
  tk_workflow_id :: string
  tk_node_id :: string
  tk_agent :: string
  tk_status :: string
  tk_priority :: int
  tk_priority_lane :: string
  tk_input_json :: string
  tk_output_json :: "string option"
  tk_policy_result_json :: "string option"
  tk_claimed_by :: "string option"
  tk_claimed_at :: "int option"
  tk_last_heartbeat :: "int option"
  tk_timeout_sec :: int
  tk_attempt_count :: int
  tk_max_attempts :: int
  tk_dead_lettered :: int
  tk_completed_at :: "int option"
  tk_failed_reason :: "string option"
  tk_created_at :: int
  tk_updated_at :: int

record dead_letter_row =
  dd_task_id :: string
  dd_workflow_id :: string
  dd_node_id :: string
  dd_agent :: string
  dd_input_json :: string
  dd_failed_reason :: string
  dd_attempt_count :: int
  dd_original_created :: int
  dd_dead_lettered_at :: int

record branch_row =
  br_branch_id :: string
  br_parent_id :: string
  br_branch_point_seq :: int
  br_branch_point_hash :: string
  br_reason :: string
  br_kind :: string
  br_created_at :: int

record anchor_row =
  an_proof_id :: string
  an_workflow_id :: string
  an_seq_from :: int
  an_seq_to :: int
  an_chain_root :: string
  an_payload_digest :: string
  an_proof_digest :: string
  an_external_kind :: string
  an_external_ref :: string
  an_anchored_by :: string
  an_payload_json :: string
  an_proof_json :: string
  an_created_at :: int

record actor_row =
  ac_actor_id :: string
  ac_api_key_hash :: string
  ac_roles_json :: string
  ac_allowed_agents_json :: "string option"
  ac_allowed_workflows_json :: "string option"
  ac_created_at :: int
  ac_updated_at :: int

record tables =
  t_workflows :: "workflow_row list"
  t_snapshots :: "snapshot_row list"
  t_deltas :: "delta_row list"
  t_receipts :: "receipt_row list"
  t_artifacts :: "artifact_row list"
  t_gates :: "gate_row list"
  t_tasks :: "task_row list"
  t_dead_letters :: "dead_letter_row list"
  t_branches :: "branch_row list"
  t_anchors :: "anchor_row list"
  t_actors :: "actor_row list"
  t_migrations :: "string list option"

definition empty_tables :: tables where
  "empty_tables = \<lparr>t_workflows = [], t_snapshots = [], t_deltas = [], t_receipts = [],
     t_artifacts = [], t_gates = [], t_tasks = [], t_dead_letters = [], t_branches = [],
     t_anchors = [], t_actors = [], t_migrations = None\<rparr>"

subsection \<open>The handle\<close>

record dbs =
  driver :: string
  db_keys :: "KeyProvider option"
  fk_on :: bool
  tabs :: tables
  saved :: "tables option"
  tx_aborted :: bool
  clock :: int
  faults :: "bool list"

text \<open>\<open>handle_of\<close> is a handle on given tables outside any transaction, references checked.\<close>

definition handle_of :: "string \<Rightarrow> tables \<Rightarrow> bool list \<Rightarrow> dbs" where
  "handle_of drv t bs = \<lparr>driver = drv, db_keys = None, fk_on = True, tabs = t, saved = None,
     tx_aborted = False, clock = 100, faults = bs\<rparr>"

type_synonym 'a dbm = "dbs \<Rightarrow> 'a outcome \<times> dbs"

definition IsPostgres :: "dbs \<Rightarrow> bool" where
  "IsPostgres d \<longleftrightarrow> driver d = ''pgx''"

definition IsSQLite :: "dbs \<Rightarrow> bool" where
  "IsSQLite d \<longleftrightarrow> driver d = ''sqlite3''"

definition SetKeyProvider :: "KeyProvider option \<Rightarrow> dbs \<Rightarrow> dbs" where
  "SetKeyProvider kp d = d\<lparr>db_keys := kp\<rparr>"

definition now :: "dbs \<Rightarrow> int" where
  "now d = clock d"

definition resolveDriver :: "string \<Rightarrow> string \<times> string" where
  "resolveDriver dsn =
     (if HasPrefix dsn ''postgres://'' \<or> HasPrefix dsn ''postgresql://'' then (''pgx'', dsn)
      else (''sqlite3'',
        if \<not> Contains dsn ''?''
        then dsn @ ''?_journal_mode=WAL&_foreign_keys=on&_busy_timeout=5000'' else dsn))"

fun rebind_loop :: "nat \<Rightarrow> string \<Rightarrow> string" where
  "rebind_loop n [] = []"
| "rebind_loop n (c # q) =
     (if c = CHR ''?'' then CHR ''$'' # show_nat (Suc n) @ rebind_loop (Suc n) q
      else c # rebind_loop n q)"

definition rebind :: "dbs \<Rightarrow> string \<Rightarrow> string" where
  "rebind d q = (if driver d \<noteq> ''pgx'' then q else rebind_loop 0 q)"

definition placeholder :: "dbs \<Rightarrow> int \<Rightarrow> string" where
  "placeholder d n = (if driver d = ''pgx'' then CHR ''$'' # show_int n else ''?'')"

subsection \<open>Sequencing\<close>

definition returnM :: "'a \<Rightarrow> 'a dbm" where
  "returnM a d = (Ok a, d)"

definition failM :: "go_error \<Rightarrow> 'a dbm" where
  "failM e d = (Err e, d)"

definition bindM :: "'a dbm \<Rightarrow> ('a \<Rightarrow> 'b dbm) \<Rightarrow> 'b dbm" where
  "bindM m k d =
     (case m d of (Ok a, d') \<Rightarrow> k a d' | (Err e, d') \<Rightarrow> (Err e, d') | (Blocked, d') \<Rightarrow> (Blocked, d'))"

text \<open>\<open>wrapM\<close> is \<^verbatim>\<open>return fmt.Errorf("msg: %w", err)\<close>; \<open>tryM\<close> lets the caller see the error and go on.\<close>

definition wrapM :: "string \<Rightarrow> 'a dbm \<Rightarrow> 'a dbm" where
  "wrapM msg m d =
     (case m d of (Err e, d') \<Rightarrow> (Err (EWrap msg e), d') | r \<Rightarrow> r)"

definition tryM :: "'a dbm \<Rightarrow> (go_error + 'a) dbm" where
  "tryM m d =
     (case m d of (Ok a, d') \<Rightarrow> (Ok (Inr a), d') | (Err e, d') \<Rightarrow> (Ok (Inl e), d')
      | (Blocked, d') \<Rightarrow> (Blocked, d'))"

subsection \<open>Statements\<close>

definition poll :: "dbs \<Rightarrow> bool \<times> dbs" where
  "poll d = (case faults d of [] \<Rightarrow> (False, d) | b # bs \<Rightarrow> (b, d\<lparr>faults := bs\<rparr>))"

definition stmt_failed :: "dbs \<Rightarrow> dbs" where
  "stmt_failed d = (if IsPostgres d then d\<lparr>tx_aborted := True\<rparr> else d)"

definition txQuery :: "(tables \<Rightarrow> 'a) \<Rightarrow> 'a dbm" where
  "txQuery f d =
     (if tx_aborted d then (Err ETxAborted, d)
      else case poll d of
          (True, d') \<Rightarrow> (Err EIO, stmt_failed d')
        | (False, d') \<Rightarrow> (Ok (f (tabs d')), d'))"

definition txExec :: "(tables \<Rightarrow> go_error + nat \<times> tables) \<Rightarrow> nat dbm" where
  "txExec f d =
     (if tx_aborted d then (Err ETxAborted, d)
      else case poll d of
          (True, d') \<Rightarrow> (Err EIO, stmt_failed d')
        | (False, d') \<Rightarrow> (case f (tabs d') of
             Inl e \<Rightarrow> (Err e, stmt_failed d')
           | Inr (n, t) \<Rightarrow> (Ok n, d'\<lparr>tabs := t\<rparr>)))"

definition pool_tables :: "dbs \<Rightarrow> tables" where
  "pool_tables d = (case saved d of None \<Rightarrow> tabs d | Some t \<Rightarrow> t)"

definition query :: "(tables \<Rightarrow> 'a) \<Rightarrow> 'a dbm" where
  "query f d =
     (if saved d \<noteq> None \<and> \<not> IsPostgres d then (Blocked, d)
      else case poll d of
          (True, d') \<Rightarrow> (Err EIO, d')
        | (False, d') \<Rightarrow> (Ok (f (pool_tables d')), d'))"

text \<open>No caller runs \<open>exec\<close> inside a transaction; there it waits for the connection.\<close>

definition exec :: "(tables \<Rightarrow> go_error + nat \<times> tables) \<Rightarrow> nat dbm" where
  "exec f d =
     (if saved d \<noteq> None then (Blocked, d)
      else case poll d of
          (True, d') \<Rightarrow> (Err EIO, d')
        | (False, d') \<Rightarrow> (case f (tabs d') of
             Inl e \<Rightarrow> (Err e, d')
           | Inr (n, t) \<Rightarrow> (Ok n, d'\<lparr>tabs := t\<rparr>)))"

subsection \<open>Transactions\<close>

definition rollback :: "dbs \<Rightarrow> dbs" where
  "rollback d =
     (case saved d of None \<Rightarrow> d | Some t \<Rightarrow> d\<lparr>tabs := t, saved := None, tx_aborted := False\<rparr>)"

definition Tx :: "'a dbm \<Rightarrow> 'a dbm" where
  "Tx fn d =
     (if saved d \<noteq> None then (Blocked, d)
      else case poll d of
          (True, d1) \<Rightarrow> (Err EIO, d1)
        | (False, d1) \<Rightarrow>
            (case fn (d1\<lparr>saved := Some (tabs d1), tx_aborted := False\<rparr>) of
               (Blocked, d2) \<Rightarrow> (Blocked, d2)
             | (Err e, d2) \<Rightarrow> (Err e, rollback d2)
             | (Ok a, d2) \<Rightarrow>
                 (case poll d2 of
                    (True, d3) \<Rightarrow> (Err EIO, rollback d3)
                  | (False, d3) \<Rightarrow>
                      if tx_aborted d3 then (Err ETxAborted, rollback d3)
                      else (Ok a, d3\<lparr>saved := None\<rparr>))))"

subsection \<open>Frame: what statements never touch\<close>

text \<open>A statement changes the tables, the fault script and the abort flag, nothing else.\<close>

definition frame :: "dbs \<Rightarrow> string \<times> KeyProvider option \<times> bool \<times> tables option \<times> int" where
  "frame d = (driver d, db_keys d, fk_on d, saved d, clock d)"

definition framed :: "'a dbm \<Rightarrow> bool" where
  "framed m \<longleftrightarrow> (\<forall>d. frame (snd (m d)) = frame d)"

lemma framedD: "framed m \<Longrightarrow> m d = (r, d') \<Longrightarrow> frame d' = frame d"
  by (metis framed_def snd_conv)

lemma frame_tabs [simp]: "frame (d\<lparr>tabs := t\<rparr>) = frame d"
  by (simp add: frame_def)

lemma frame_faults [simp]: "frame (d\<lparr>faults := bs\<rparr>) = frame d"
  by (simp add: frame_def)

lemma frame_tx_aborted [simp]: "frame (d\<lparr>tx_aborted := b\<rparr>) = frame d"
  by (simp add: frame_def)

lemma frame_stmt_failed [simp]: "frame (stmt_failed d) = frame d"
  by (simp add: stmt_failed_def)

lemma frame_poll: "poll d = (b, d') \<Longrightarrow> frame d' = frame d"
  by (auto simp: poll_def split: list.splits)

lemma tabs_poll: "poll d = (b, d') \<Longrightarrow> tabs d' = tabs d"
  by (auto simp: poll_def split: list.splits)

lemma aborted_poll: "poll d = (b, d') \<Longrightarrow> tx_aborted d' = tx_aborted d"
  by (auto simp: poll_def split: list.splits)

lemma tabs_stmt_failed [simp]: "tabs (stmt_failed d) = tabs d"
  by (simp add: stmt_failed_def)

lemma framed_return: "framed (returnM a)"
  by (simp add: framed_def returnM_def)

lemma framed_fail: "framed (failM e)"
  by (simp add: framed_def failM_def)

lemma framed_txQuery: "framed (txQuery f)"
  by (auto simp: framed_def txQuery_def frame_poll split: prod.splits bool.splits)

lemma framed_query: "framed (query f)"
  by (auto simp: framed_def query_def frame_poll split: prod.splits bool.splits)

lemma framed_txExec: "framed (txExec f)"
  by (auto simp: framed_def txExec_def frame_poll split: prod.splits bool.splits sum.splits)

lemma framed_exec: "framed (exec f)"
  by (auto simp: framed_def exec_def frame_poll split: prod.splits bool.splits sum.splits)

lemma framed_bind: "framed m \<Longrightarrow> (\<And>a. framed (k a)) \<Longrightarrow> framed (bindM m k)"
  by (auto simp: framed_def bindM_def split: prod.splits outcome.splits) (metis snd_conv)+

lemma framed_wrap: "framed m \<Longrightarrow> framed (wrapM msg m)"
  by (auto simp: framed_def wrapM_def split: prod.splits outcome.splits) (metis snd_conv)+

lemma framed_try: "framed m \<Longrightarrow> framed (tryM m)"
  by (auto simp: framed_def tryM_def split: prod.splits outcome.splits) (metis snd_conv)+

lemma framed_if: "framed a \<Longrightarrow> framed b \<Longrightarrow> framed (if c then a else b)"
  by simp

lemma framed_option:
  "framed a \<Longrightarrow> (\<And>x. framed (f x)) \<Longrightarrow> framed (case v of None \<Rightarrow> a | Some x \<Rightarrow> f x)"
  by (simp split: option.split)

lemma framed_sum:
  "(\<And>x. framed (f x)) \<Longrightarrow> (\<And>x. framed (g x)) \<Longrightarrow> framed (case v of Inl x \<Rightarrow> f x | Inr x \<Rightarrow> g x)"
  by (simp split: sum.split)


lemmas framed_rules = framed_return framed_fail framed_txQuery framed_query framed_txExec framed_exec
  framed_bind framed_wrap framed_try framed_if framed_option framed_sum

subsection \<open>What a successful step did\<close>

lemma bindM_Ok:
  "bindM m k d = (Ok b, d') \<longleftrightarrow> (\<exists>a d1. m d = (Ok a, d1) \<and> k a d1 = (Ok b, d'))"
  by (auto simp: bindM_def split: prod.splits outcome.splits)

lemma wrapM_Ok: "wrapM msg m d = (Ok a, d') \<longleftrightarrow> m d = (Ok a, d')"
  by (auto simp: wrapM_def split: prod.splits outcome.splits)

lemma returnM_Ok: "returnM a d = (Ok b, d') \<longleftrightarrow> b = a \<and> d' = d"
  by (auto simp: returnM_def)

lemma failM_Ok: "failM e d = (Ok b, d') \<longleftrightarrow> False"
  by (simp add: failM_def)

lemma tryM_Ok:
  "tryM m d = (Ok r, d') \<longleftrightarrow>
     (case r of Inl e \<Rightarrow> m d = (Err e, d') | Inr a \<Rightarrow> m d = (Ok a, d'))"
  by (auto simp: tryM_def split: prod.splits outcome.splits sum.splits)

lemmas step_Ok = bindM_Ok wrapM_Ok returnM_Ok failM_Ok tryM_Ok

lemma txQuery_OkD:
  "txQuery f d = (Ok a, d') \<Longrightarrow> a = f (tabs d) \<and> tabs d' = tabs d \<and> tx_aborted d' = tx_aborted d"
  by (auto simp: txQuery_def tabs_poll aborted_poll split: prod.splits bool.splits if_splits)

lemma txQuery_ErrD: "txQuery f d = (Err e, d') \<Longrightarrow> tabs d' = tabs d"
  by (auto simp: txQuery_def tabs_poll split: prod.splits bool.splits if_splits)

lemma txQuery_Err_aborts:
  "txQuery f d = (Err e, d') \<Longrightarrow> IsPostgres d \<Longrightarrow> tx_aborted d'"
  by (auto simp: txQuery_def stmt_failed_def IsPostgres_def frame_def dest!: frame_poll
      split: prod.splits bool.splits if_splits)

lemma txExec_OkD:
  "txExec f d = (Ok n, d') \<Longrightarrow> f (tabs d) = Inr (n, tabs d') \<and> \<not> tx_aborted d \<and> \<not> tx_aborted d'"
  by (auto simp: txExec_def aborted_poll tabs_poll
      split: prod.splits bool.splits if_splits sum.splits)

lemma txExec_aborted: "tx_aborted d \<Longrightarrow> txExec f d = (Err ETxAborted, d)"
  by (simp add: txExec_def)

lemma exec_OkD: "exec f d = (Ok n, d') \<Longrightarrow> f (tabs d) = Inr (n, tabs d')"
  by (auto simp: exec_def tabs_poll split: prod.splits bool.splits if_splits sum.splits)

lemma exec_ErrD: "exec f d = (Err e, d') \<Longrightarrow> tabs d' = tabs d"
  by (auto simp: exec_def tabs_poll split: prod.splits bool.splits if_splits sum.splits)

lemma query_OkD: "query f d = (Ok a, d') \<Longrightarrow> a = f (pool_tables d) \<and> tabs d' = tabs d"
  by (auto simp: query_def pool_tables_def tabs_poll frame_def dest!: frame_poll
      split: prod.splits bool.splits if_splits option.splits)

lemma query_tabs: "tabs (snd (query f d)) = tabs d"
  by (auto simp: query_def tabs_poll split: prod.splits bool.splits)

subsection \<open>Runs without engine failures\<close>

text \<open>
  \<open>quiet\<close> handles have an empty fault script and no transaction open: every statement
  is executed, so an operation's result is determined by the tables.
\<close>

definition quiet :: "dbs \<Rightarrow> bool" where
  "quiet d \<longleftrightarrow> faults d = [] \<and> saved d = None \<and> \<not> tx_aborted d"

lemma quiet_handle: "quiet (handle_of drv t [])"
  by (simp add: quiet_def handle_of_def)

lemma tabs_handle [simp]: "tabs (handle_of drv t bs) = t"
  by (simp add: handle_of_def)

lemma poll_nil [simp]: "faults d = [] \<Longrightarrow> poll d = (False, d)"
  by (simp add: poll_def)

lemma txQuery_live [simp]: "faults d = [] \<Longrightarrow> \<not> tx_aborted d \<Longrightarrow> txQuery f d = (Ok (f (tabs d)), d)"
  by (simp add: txQuery_def)

lemma txExec_live [simp]:
  "faults d = [] \<Longrightarrow> \<not> tx_aborted d \<Longrightarrow>
   txExec f d = (case f (tabs d) of Inl e \<Rightarrow> (Err e, stmt_failed d) | Inr (n, t) \<Rightarrow> (Ok n, d\<lparr>tabs := t\<rparr>))"
  by (simp add: txExec_def)

lemma query_live [simp]: "quiet d \<Longrightarrow> query f d = (Ok (f (tabs d)), d)"
  by (simp add: query_def quiet_def pool_tables_def)

lemma exec_live [simp]:
  "quiet d \<Longrightarrow>
   exec f d = (case f (tabs d) of Inl e \<Rightarrow> (Err e, d) | Inr (n, t) \<Rightarrow> (Ok n, d\<lparr>tabs := t\<rparr>))"
  by (simp add: exec_def quiet_def)

lemma quiet_tabs [simp]: "quiet (d\<lparr>tabs := t\<rparr>) = quiet d"
  by (simp add: quiet_def)

lemma quiet_pool [simp]: "quiet d \<Longrightarrow> pool_tables d = tabs d"
  by (simp add: quiet_def pool_tables_def)

lemma Tx_live:
  "quiet d \<Longrightarrow>
   Tx fn d =
     (case fn (d\<lparr>saved := Some (tabs d), tx_aborted := False\<rparr>) of
        (Blocked, d2) \<Rightarrow> (Blocked, d2)
      | (Err e, d2) \<Rightarrow> (Err e, rollback d2)
      | (Ok a, d2) \<Rightarrow>
          (case poll d2 of
             (True, d3) \<Rightarrow> (Err EIO, rollback d3)
           | (False, d3) \<Rightarrow>
               if tx_aborted d3 then (Err ETxAborted, rollback d3)
               else (Ok a, d3\<lparr>saved := None\<rparr>)))"
  by (simp add: Tx_def quiet_def)

lemma bindM_simp [simp]:
  "m d = (Ok a, d1) \<Longrightarrow> bindM m k d = k a d1"
  "m d = (Err e, d1) \<Longrightarrow> bindM m k d = (Err e, d1)"
  "m d = (Blocked, d1) \<Longrightarrow> bindM m k d = (Blocked, d1)"
  by (simp_all add: bindM_def)

lemma wrapM_simp [simp]:
  "m d = (Ok a, d1) \<Longrightarrow> wrapM msg m d = (Ok a, d1)"
  "m d = (Err e, d1) \<Longrightarrow> wrapM msg m d = (Err (EWrap msg e), d1)"
  "m d = (Blocked, d1) \<Longrightarrow> wrapM msg m d = (Blocked, d1)"
  by (simp_all add: wrapM_def)

subsection \<open>A transaction runner as an interface\<close>

text \<open>
  What every commit of the store relies on: a transaction that returns \<^verbatim>\<open>nil\<close> has
  published what its body computed from the committed tables, and any other outcome has
  published nothing. A body that keeps a property of the tables when it succeeds
  therefore keeps it in every outcome (\<open>run_keeps\<close>), and if every success performs the
  same step of the tables, the runner refines that step (\<open>run_step\<close>).
\<close>

locale transaction_runner =
  fixes run :: "'a dbm \<Rightarrow> 'a dbm"
  assumes run_success: "framed fn \<Longrightarrow> run fn d = (Ok a, d') \<Longrightarrow>
      \<exists>d1 d2. tabs d1 = pool_tables d \<and> driver d1 = driver d \<and> \<not> tx_aborted d1
        \<and> fn d1 = (Ok a, d2) \<and> \<not> tx_aborted d2 \<and> pool_tables d' = tabs d2"
    and run_failure: "framed fn \<Longrightarrow> run fn d = (r, d') \<Longrightarrow> (\<And>a. r \<noteq> Ok a) \<Longrightarrow>
      pool_tables d' = pool_tables d"
begin

lemma run_keeps:
  assumes "framed fn" and "I (pool_tables d)"
    and "\<And>d1 a d2. I (tabs d1) \<Longrightarrow> fn d1 = (Ok a, d2) \<Longrightarrow> I (tabs d2)"
  shows "I (pool_tables (snd (run fn d)))"
proof -
  obtain r d' where r: "run fn d = (r, d')" by (cases "run fn d")
  show ?thesis
  proof (cases "\<exists>a. r = Ok a")
    case True
    then obtain a where "r = Ok a" by blast
    with run_success [OF assms(1)] r assms(2,3) show ?thesis by (metis snd_conv)
  next
    case False
    then have "pool_tables d' = pool_tables d" using run_failure [OF assms(1) r] by blast
    with assms(2) r show ?thesis by simp
  qed
qed

lemma run_step:
  assumes "framed fn"
    and "\<And>d1 a d2. driver d1 = driver d \<Longrightarrow> \<not> tx_aborted d1 \<Longrightarrow> \<not> tx_aborted d2 \<Longrightarrow>
       fn d1 = (Ok a, d2) \<Longrightarrow> R (tabs d1) a (tabs d2)"
    and "run fn d = (r, d')"
  shows "(case r of Ok a \<Rightarrow> R (pool_tables d) a (pool_tables d')
          | _ \<Rightarrow> pool_tables d' = pool_tables d)"
proof (cases r)
  case (Ok a)
  then obtain d1 d2 where "tabs d1 = pool_tables d" "driver d1 = driver d" "\<not> tx_aborted d1"
    "fn d1 = (Ok a, d2)" "\<not> tx_aborted d2" "pool_tables d' = tabs d2"
    using run_success [OF assms(1), of d a d'] assms(3) by blast
  with assms(2) [of d1 d2 a] Ok show ?thesis by simp
next
  case (Err e)
  with run_failure [OF assms(1,3)] show ?thesis by simp
next
  case Blocked
  with run_failure [OF assms(1,3)] show ?thesis by simp
qed

end

lemma saved_framed: "framed m \<Longrightarrow> m d = (r, d') \<Longrightarrow> saved d' = saved d"
  by (drule (1) framedD) (simp add: frame_def)

lemma saved_poll: "poll d = (b, d') \<Longrightarrow> saved d' = saved d"
  by (drule frame_poll) (simp add: frame_def)

lemma now_framed: "framed m \<Longrightarrow> m d = (r, d') \<Longrightarrow> now d' = now d"
  by (drule (1) framedD) (simp add: frame_def now_def)

lemma driver_poll: "poll d = (b, d') \<Longrightarrow> driver d' = driver d"
  by (drule frame_poll) (simp add: frame_def)

lemma Tx_success:
  assumes "framed fn" and "Tx fn d = (Ok a, d')"
  shows "\<exists>d1 d2. tabs d1 = pool_tables d \<and> driver d1 = driver d \<and> \<not> tx_aborted d1
        \<and> fn d1 = (Ok a, d2) \<and> \<not> tx_aborted d2 \<and> pool_tables d' = tabs d2"
proof -
  obtain d0 where sv: "saved d = None" and p0: "poll d = (False, d0)"
    using assms(2) by (auto simp: Tx_def split: prod.splits bool.splits if_splits)
  define d1 where "d1 = d0\<lparr>saved := Some (tabs d0), tx_aborted := False\<rparr>"
  obtain d2 d3 where f: "fn d1 = (Ok a, d2)" and p2: "poll d2 = (False, d3)"
    and na: "\<not> tx_aborted d3" and d': "d' = d3\<lparr>saved := None\<rparr>"
    using assms(2) sv p0
    by (auto simp: Tx_def d1_def split: prod.splits bool.splits outcome.splits if_splits)
  have "tabs d1 = pool_tables d" "driver d1 = driver d" "\<not> tx_aborted d1"
    using sv tabs_poll [OF p0] driver_poll [OF p0] by (simp_all add: d1_def pool_tables_def)
  moreover have "\<not> tx_aborted d2" "pool_tables d' = tabs d2"
    using na d' tabs_poll [OF p2] aborted_poll [OF p2] by (simp_all add: pool_tables_def)
  ultimately show ?thesis using f by blast
qed

lemma Tx_failure:
  assumes "framed fn" and "Tx fn d = (r, d')" and "\<And>a. r \<noteq> Ok a"
  shows "pool_tables d' = pool_tables d"
  using assms
  by (auto simp: Tx_def rollback_def pool_tables_def tabs_poll dest!: saved_poll saved_framed
      split: prod.splits bool.splits outcome.splits if_splits option.splits)

interpretation tx: transaction_runner Tx
  by unfold_locales (fact Tx_success, fact Tx_failure)

subsection \<open>Operations that keep a property of the committed tables\<close>

text \<open>
  \<open>keeps I m\<close>: whatever the engine fails, and also when it returns an error or never
  returns, \<open>m\<close> leaves committed tables with property \<open>I\<close> if it found such, and the same
  driver. A body of a transaction needs to keep the property only when it succeeds (\<open>keeps_Tx\<close>).
\<close>

definition keeps :: "(tables \<Rightarrow> bool) \<Rightarrow> 'a dbm \<Rightarrow> bool" where
  "keeps I m \<longleftrightarrow> (\<forall>d. (I (pool_tables d) \<longrightarrow> I (pool_tables (snd (m d)))) \<and> driver (snd (m d)) = driver d)"

definition body_keeps :: "(tables \<Rightarrow> bool) \<Rightarrow> 'a dbm \<Rightarrow> bool" where
  "body_keeps I m \<longleftrightarrow> framed m \<and> (\<forall>d a d'. I (tabs d) \<longrightarrow> m d = (Ok a, d') \<longrightarrow> I (tabs d'))"

lemma keepsD: "keeps I m \<Longrightarrow> I (pool_tables d) \<Longrightarrow> m d = (r, d') \<Longrightarrow> I (pool_tables d')"
  by (auto simp: keeps_def dest: spec [of _ d])

lemma keepsI:
  "(\<And>d r d'. m d = (r, d') \<Longrightarrow> (I (pool_tables d) \<longrightarrow> I (pool_tables d')) \<and> driver d' = driver d) \<Longrightarrow> keeps I m"
  unfolding keeps_def by (metis prod.collapse)

lemma keepsE:
  "keeps I m \<Longrightarrow> m d = (r, d') \<Longrightarrow> (I (pool_tables d) \<longrightarrow> I (pool_tables d')) \<and> driver d' = driver d"
  by (metis keeps_def snd_conv)

lemma keeps_driver: "keeps I m \<Longrightarrow> m d = (r, d') \<Longrightarrow> driver d' = driver d"
  by (metis keeps_def snd_conv)

lemma driver_framed: "framed m \<Longrightarrow> m d = (r, d') \<Longrightarrow> driver d' = driver d"
  by (drule (1) framedD) (simp add: frame_def)

lemma driver_Tx: "framed fn \<Longrightarrow> Tx fn d = (r, d') \<Longrightarrow> driver d' = driver d"
  by (auto simp: Tx_def rollback_def dest!: driver_poll driver_framed
      split: prod.splits bool.splits outcome.splits if_splits option.splits)

lemma pool_poll: "poll d = (b, d') \<Longrightarrow> pool_tables d' = pool_tables d"
  by (simp add: pool_tables_def tabs_poll saved_poll split: option.split)

lemma keeps_return: "keeps I (returnM a)"
  by (simp add: keeps_def returnM_def)

lemma keeps_fail: "keeps I (failM e)"
  by (simp add: keeps_def failM_def)

lemma keeps_query: "keeps I (query f)"
  by (auto simp: keeps_def query_def pool_poll driver_poll split: prod.splits bool.splits)

lemma query_same: "query f d = (r, d') \<Longrightarrow> pool_tables d' = pool_tables d"
  using keepsD [OF keeps_query, of "\<lambda>t. t = pool_tables d" d] by blast

lemma exec_pool:
  assumes "exec f d = (r, d')"
  shows "case r of Ok n \<Rightarrow> f (pool_tables d) = Inr (n, pool_tables d') | _ \<Rightarrow> pool_tables d' = pool_tables d"
proof (cases "saved d")
  case None
  obtain b d1 where p: "poll d = (b, d1)" by (cases "poll d")
  have "tabs d1 = tabs d" "saved d1 = None" using tabs_poll [OF p] saved_poll [OF p] None by simp_all
  with assms None p show ?thesis
    by (auto simp: exec_def pool_tables_def split: bool.splits sum.splits prod.splits)
next
  case (Some t)
  with assms show ?thesis by (auto simp: exec_def)
qed

lemma keeps_exec:
  assumes "\<And>t n t'. I t \<Longrightarrow> f t = Inr (n, t') \<Longrightarrow> I t'"
  shows "keeps I (exec f)"
  unfolding keeps_def
proof (intro allI conjI impI)
  fix d
  obtain r d' where e: "exec f d = (r, d')" by (cases "exec f d")
  show "driver (snd (exec f d)) = driver d" using driver_framed [OF framed_exec e] by (simp add: e)
  assume i: "I (pool_tables d)"
  show "I (pool_tables (snd (exec f d)))"
  proof (cases r)
    case (Ok n)
    then have "f (pool_tables d) = Inr (n, pool_tables d')" using exec_pool [OF e] by simp
    from assms [OF i this] show ?thesis by (simp add: e)
  qed (use exec_pool [OF e] i e in simp_all)
qed

lemma keeps_bind:
  assumes "keeps I m" and "\<And>a. keeps I (k a)"
  shows "keeps I (bindM m k)"
proof (rule keepsI)
  fix d r d' assume "bindM m k d = (r, d')"
  then show "(I (pool_tables d) \<longrightarrow> I (pool_tables d')) \<and> driver d' = driver d"
    using keepsE [OF assms(1), of d] keepsE [OF assms(2)]
    by (auto simp: bindM_def split: prod.splits outcome.splits)
qed

lemma keeps_wrap: "keeps I m \<Longrightarrow> keeps I (wrapM msg m)"
  by (rule keepsI) (auto simp: wrapM_def dest!: keepsE split: prod.splits outcome.splits)

lemma keeps_try: "keeps I m \<Longrightarrow> keeps I (tryM m)"
  by (rule keepsI) (auto simp: tryM_def dest!: keepsE split: prod.splits outcome.splits)

lemma keeps_if: "keeps I a \<Longrightarrow> keeps I b \<Longrightarrow> keeps I (if c then a else b)"
  by simp

lemma keeps_Tx: "body_keeps I fn \<Longrightarrow> keeps I (Tx fn)"
  unfolding keeps_def body_keeps_def by (metis driver_Tx prod.collapse tx.run_keeps)

lemmas keeps_rules = keeps_return keeps_fail keeps_query keeps_bind keeps_wrap keeps_try keeps_if keeps_Tx

lemma body_return: "body_keeps I (returnM a)"
  by (simp add: body_keeps_def framed_return returnM_def)

lemma body_fail: "body_keeps I (failM e)"
  by (simp add: body_keeps_def framed_fail failM_def)

lemma body_txQuery: "body_keeps I (txQuery f)"
  by (auto simp: body_keeps_def framed_txQuery dest!: txQuery_OkD)

lemma body_txExec:
  assumes "\<And>t n t'. I t \<Longrightarrow> f t = Inr (n, t') \<Longrightarrow> I t'"
  shows "body_keeps I (txExec f)"
  using assms by (auto simp: body_keeps_def framed_txExec dest!: txExec_OkD)

lemma body_bind: "body_keeps I m \<Longrightarrow> (\<And>a. body_keeps I (k a)) \<Longrightarrow> body_keeps I (bindM m k)"
  unfolding body_keeps_def bindM_Ok by (intro conjI framed_bind) blast+

lemma body_wrap: "body_keeps I m \<Longrightarrow> body_keeps I (wrapM msg m)"
  unfolding body_keeps_def by (auto simp: wrapM_Ok intro!: framed_wrap)

lemma body_query: "body_keeps I (tryM (query f))"
  by (auto simp: body_keeps_def tryM_Ok framed_try framed_query split: sum.splits)
     (metis query_tabs snd_conv)+

lemma body_if: "body_keeps I a \<Longrightarrow> body_keeps I b \<Longrightarrow> body_keeps I (if c then a else b)"
  by simp

lemma body_option:
  "body_keeps I a \<Longrightarrow> (\<And>x. body_keeps I (f x)) \<Longrightarrow> body_keeps I (case v of None \<Rightarrow> a | Some x \<Rightarrow> f x)"
  by (simp split: option.split)

lemmas body_rules = body_return body_fail body_txQuery body_bind body_wrap body_query body_if body_option

text \<open>An operation that reads its settings (the clock, the driver) from the handle it runs on.\<close>

lemma keeps_env: "(\<And>d. m d = g (h d) d) \<Longrightarrow> (\<And>e. keeps I (g e)) \<Longrightarrow> keeps I m"
  by (simp add: keeps_def)

lemma body_env: "(\<And>d. m d = g (h d) d) \<Longrightarrow> (\<And>e. body_keeps I (g e)) \<Longrightarrow> body_keeps I m"
  by (auto simp: body_keeps_def framed_def)

end
