(* ===== verification/Schema.thy ===== *)
theory Schema
  imports DB
begin

section \<open>Insert and upsert statements under the schema's constraints\<close>

text \<open>
  The primary keys, unique columns and foreign keys of \<^verbatim>\<open>acpd/migrations\<close>, as the
  outcome of the INSERT statements the store issues. A unique conflict is reported before
  a foreign key one (both engines check references at the end of the statement).
  Foreign keys are enforced by Postgres, and by SQLite when the DSN turns them on
  (\<open>fk_on\<close>).
\<close>

abbreviation rc_key :: "receipt_row \<Rightarrow> string \<times> int" where
  "rc_key r \<equiv> (rc_workflow_id r, rc_seq r)"

abbreviation dl_key :: "delta_row \<Rightarrow> string \<times> int" where
  "dl_key r \<equiv> (dl_workflow_id r, dl_seq r)"

abbreviation sn_key :: "snapshot_row \<Rightarrow> string \<times> int" where
  "sn_key r \<equiv> (sn_workflow_id r, sn_seq r)"

definition fk_workflow :: "bool \<Rightarrow> tables \<Rightarrow> string \<Rightarrow> bool" where
  "fk_workflow fk t w \<longleftrightarrow> (fk \<longrightarrow> key_used wf_id w (t_workflows t))"

definition stmt_insert_workflow :: "workflow_row \<Rightarrow> tables \<Rightarrow> go_error + nat \<times> tables" where
  "stmt_insert_workflow r t =
     (case insert_row wf_id r (t_workflows t) of
        None \<Rightarrow> Inl (EUnique ''workflows'')
      | Some ws \<Rightarrow> Inr (1, t\<lparr>t_workflows := ws\<rparr>))"

definition stmt_insert_receipt :: "bool \<Rightarrow> receipt_row \<Rightarrow> tables \<Rightarrow> go_error + nat \<times> tables" where
  "stmt_insert_receipt fk r t =
     (if key_used rc_key (rc_key r) (t_receipts t) \<or>
         key_used rc_receipt_digest (rc_receipt_digest r) (t_receipts t)
      then Inl (EUnique ''receipts'')
      else if \<not> fk_workflow fk t (rc_workflow_id r) then Inl (EForeignKey ''receipts'')
      else Inr (1, t\<lparr>t_receipts := t_receipts t @ [r]\<rparr>))"

definition stmt_insert_delta :: "bool \<Rightarrow> delta_row \<Rightarrow> tables \<Rightarrow> go_error + nat \<times> tables" where
  "stmt_insert_delta fk r t =
     (if key_used dl_key (dl_key r) (t_deltas t) then Inl (EUnique ''deltas'')
      else if \<not> fk_workflow fk t (dl_workflow_id r) then Inl (EForeignKey ''deltas'')
      else Inr (1, t\<lparr>t_deltas := t_deltas t @ [r]\<rparr>))"

text \<open>\<^verbatim>\<open>insertOrReplaceSnapshot\<close>: both spellings replace the row with the same key.\<close>

definition insertOrReplaceSnapshot :: "bool \<Rightarrow> snapshot_row \<Rightarrow> tables \<Rightarrow> go_error + nat \<times> tables" where
  "insertOrReplaceSnapshot fk r t =
     (if \<not> fk_workflow fk t (sn_workflow_id r) then Inl (EForeignKey ''workflow_snapshots'')
      else Inr (1, t\<lparr>t_snapshots := replace_row sn_key r (t_snapshots t)\<rparr>))"

text \<open>\<^verbatim>\<open>insertOrIgnoreArtifact\<close> and \<^verbatim>\<open>insertOrIgnoreArtifactNoRef\<close>: an existing digest is left alone.\<close>

definition insertOrIgnoreArtifact :: "bool \<Rightarrow> artifact_row \<Rightarrow> tables \<Rightarrow> go_error + nat \<times> tables" where
  "insertOrIgnoreArtifact fk r t =
     (if key_used ar_digest (ar_digest r) (t_artifacts t) then Inr (0, t)
      else if \<not> fk_workflow fk t (ar_workflow_id r) then Inl (EForeignKey ''artifacts'')
      else Inr (1, t\<lparr>t_artifacts := t_artifacts t @ [r]\<rparr>))"

definition insertOrIgnoreArtifactNoRef ::
  "bool \<Rightarrow> string \<Rightarrow> string \<Rightarrow> string \<Rightarrow> int \<Rightarrow> tables \<Rightarrow> go_error + nat \<times> tables" where
  "insertOrIgnoreArtifactNoRef fk digest w ajson ts =
     insertOrIgnoreArtifact fk \<lparr>ar_digest = digest, ar_workflow_id = w, ar_artifact_json = ajson,
       ar_content_ref = None, ar_created_at = ts\<rparr>"

definition stmt_insert_gate :: "bool \<Rightarrow> gate_row \<Rightarrow> tables \<Rightarrow> go_error + nat \<times> tables" where
  "stmt_insert_gate fk r t =
     (if key_used gt_token (gt_token r) (t_gates t) then Inl (EUnique ''gates'')
      else if \<not> fk_workflow fk t (gt_workflow_id r) then Inl (EForeignKey ''gates'')
      else Inr (1, t\<lparr>t_gates := t_gates t @ [r]\<rparr>))"

definition stmt_insert_task :: "bool \<Rightarrow> task_row \<Rightarrow> tables \<Rightarrow> go_error + nat \<times> tables" where
  "stmt_insert_task fk r t =
     (if key_used tk_task_id (tk_task_id r) (t_tasks t) then Inl (EUnique ''tasks'')
      else if \<not> fk_workflow fk t (tk_workflow_id r) then Inl (EForeignKey ''tasks'')
      else Inr (1, t\<lparr>t_tasks := t_tasks t @ [r]\<rparr>))"

definition stmt_insert_branch :: "branch_row \<Rightarrow> tables \<Rightarrow> go_error + nat \<times> tables" where
  "stmt_insert_branch r t =
     (case insert_row br_branch_id r (t_branches t) of
        None \<Rightarrow> Inl (EUnique ''branches'')
      | Some bs \<Rightarrow> Inr (1, t\<lparr>t_branches := bs\<rparr>))"

definition stmt_insert_anchor :: "anchor_row \<Rightarrow> tables \<Rightarrow> go_error + nat \<times> tables" where
  "stmt_insert_anchor r t =
     (case insert_row an_proof_id r (t_anchors t) of
        None \<Rightarrow> Inl (EUnique ''anchors'')
      | Some bs \<Rightarrow> Inr (1, t\<lparr>t_anchors := bs\<rparr>))"

definition stmt_insert_actor :: "actor_row \<Rightarrow> tables \<Rightarrow> go_error + nat \<times> tables" where
  "stmt_insert_actor r t =
     (if key_used ac_actor_id (ac_actor_id r) (t_actors t) \<or>
         key_used ac_api_key_hash (ac_api_key_hash r) (t_actors t)
      then Inl (EUnique ''actors'')
      else Inr (1, t\<lparr>t_actors := t_actors t @ [r]\<rparr>))"

text \<open>An UPDATE of the workflows or gates table; it never fails a constraint (no key column is set).\<close>

definition stmt_update_workflow ::
  "(workflow_row \<Rightarrow> bool) \<Rightarrow> (workflow_row \<Rightarrow> workflow_row) \<Rightarrow> tables \<Rightarrow> go_error + nat \<times> tables" where
  "stmt_update_workflow P f t =
     Inr (affected P (t_workflows t), t\<lparr>t_workflows := update_where P f (t_workflows t)\<rparr>)"

definition stmt_update_gate ::
  "(gate_row \<Rightarrow> bool) \<Rightarrow> (gate_row \<Rightarrow> gate_row) \<Rightarrow> tables \<Rightarrow> go_error + nat \<times> tables" where
  "stmt_update_gate P f t =
     Inr (affected P (t_gates t), t\<lparr>t_gates := update_where P f (t_gates t)\<rparr>)"

definition stmt_update_task ::
  "(task_row \<Rightarrow> bool) \<Rightarrow> (task_row \<Rightarrow> task_row) \<Rightarrow> tables \<Rightarrow> go_error + nat \<times> tables" where
  "stmt_update_task P f t =
     Inr (affected P (t_tasks t), t\<lparr>t_tasks := update_where P f (t_tasks t)\<rparr>)"

subsection \<open>Time stamps read back\<close>

text \<open>
  Every stamp in the tables was printed by \<open>now\<close>, with the layout
  \<^verbatim>\<open>2006-01-02 15:04:05\<close>. \<open>time_Parse\<close> is \<^verbatim>\<open>time.Parse\<close> on such a stamp: with
  another layout it returns an error, and the callers, which drop the error, keep the zero
  time (\<^verbatim>\<open>None\<close>).
\<close>

definition RFC3339Nano :: string where
  "RFC3339Nano = ''2006-01-02T15:04:05.999999999Z07:00''"

definition space_layout :: string where
  "space_layout = ''2006-01-02 15:04:05''"

definition time_Parse :: "string \<Rightarrow> int \<Rightarrow> int option" where
  "time_Parse layout stamp = (if layout = space_layout then Some stamp else None)"

lemma time_Parse_RFC [simp]: "time_Parse RFC3339Nano s = None"
  by (simp add: time_Parse_def RFC3339Nano_def space_layout_def)

lemma time_Parse_space [simp]: "time_Parse space_layout s = Some s"
  by (simp add: time_Parse_def)

subsection \<open>Nullable strings\<close>

definition nullString :: "string \<Rightarrow> string option" where
  "nullString s = (if s = [] then None else Some s)"

text \<open>\<^verbatim>\<open>sql.NullString.String\<close>: the empty string when the column is NULL.\<close>

definition null_str :: "string option \<Rightarrow> string" where
  "null_str v = (case v of None \<Rightarrow> [] | Some s \<Rightarrow> s)"

lemma null_str_nullString [simp]: "null_str (nullString s) = s"
  by (simp add: null_str_def nullString_def)

definition ErrNoRows :: go_error where
  "ErrNoRows = EMsg ''sql: no rows in result set''"

subsection \<open>The keys are keys\<close>

text \<open>The constraints as an invariant of the tables; every statement above keeps it.\<close>

definition keys_ok :: "tables \<Rightarrow> bool" where
  "keys_ok t \<longleftrightarrow>
     distinct (map wf_id (t_workflows t)) \<and>
     distinct (map sn_key (t_snapshots t)) \<and>
     distinct (map dl_key (t_deltas t)) \<and>
     distinct (map rc_key (t_receipts t)) \<and>
     distinct (map rc_receipt_digest (t_receipts t)) \<and>
     distinct (map ar_digest (t_artifacts t)) \<and>
     distinct (map gt_token (t_gates t)) \<and>
     distinct (map tk_task_id (t_tasks t)) \<and>
     distinct (map dd_task_id (t_dead_letters t)) \<and>
     distinct (map br_branch_id (t_branches t)) \<and>
     distinct (map an_proof_id (t_anchors t)) \<and>
     distinct (map ac_actor_id (t_actors t)) \<and>
     distinct (map ac_api_key_hash (t_actors t))"

lemma keys_ok_empty: "keys_ok empty_tables"
  by (simp add: keys_ok_def empty_tables_def)

lemma keys_insert_workflow:
  "stmt_insert_workflow r t = Inr (n, t') \<Longrightarrow> keys_ok t \<Longrightarrow> keys_ok t'"
  by (auto simp: stmt_insert_workflow_def keys_ok_def insert_row_distinct split: option.splits)

lemma keys_insert_receipt:
  "stmt_insert_receipt fk r t = Inr (n, t') \<Longrightarrow> keys_ok t \<Longrightarrow> keys_ok t'"
  by (auto simp: stmt_insert_receipt_def keys_ok_def key_used_def split: if_splits)

lemma keys_insert_delta:
  "stmt_insert_delta fk r t = Inr (n, t') \<Longrightarrow> keys_ok t \<Longrightarrow> keys_ok t'"
  by (auto simp: stmt_insert_delta_def keys_ok_def key_used_def split: if_splits)

lemma keys_upsert_snapshot:
  "insertOrReplaceSnapshot fk r t = Inr (n, t') \<Longrightarrow> keys_ok t \<Longrightarrow> keys_ok t'"
  by (auto simp: insertOrReplaceSnapshot_def keys_ok_def distinct_replace_row split: if_splits)

lemma keys_insert_artifact:
  "insertOrIgnoreArtifact fk r t = Inr (n, t') \<Longrightarrow> keys_ok t \<Longrightarrow> keys_ok t'"
  by (auto simp: insertOrIgnoreArtifact_def keys_ok_def key_used_def split: if_splits)

lemma keys_insert_gate:
  "stmt_insert_gate fk r t = Inr (n, t') \<Longrightarrow> keys_ok t \<Longrightarrow> keys_ok t'"
  by (auto simp: stmt_insert_gate_def keys_ok_def key_used_def split: if_splits)

lemma keys_insert_task:
  "stmt_insert_task fk r t = Inr (n, t') \<Longrightarrow> keys_ok t \<Longrightarrow> keys_ok t'"
  by (auto simp: stmt_insert_task_def keys_ok_def key_used_def split: if_splits)

lemma keys_insert_branch:
  "stmt_insert_branch r t = Inr (n, t') \<Longrightarrow> keys_ok t \<Longrightarrow> keys_ok t'"
  by (auto simp: stmt_insert_branch_def keys_ok_def insert_row_distinct split: option.splits)

lemma keys_insert_anchor:
  "stmt_insert_anchor r t = Inr (n, t') \<Longrightarrow> keys_ok t \<Longrightarrow> keys_ok t'"
  by (auto simp: stmt_insert_anchor_def keys_ok_def insert_row_distinct split: option.splits)

lemma keys_insert_actor:
  "stmt_insert_actor r t = Inr (n, t') \<Longrightarrow> keys_ok t \<Longrightarrow> keys_ok t'"
  by (auto simp: stmt_insert_actor_def keys_ok_def key_used_def split: if_splits)

lemma keys_update_workflow:
  "stmt_update_workflow P f t = Inr (n, t') \<Longrightarrow> (\<And>x. wf_id (f x) = wf_id x) \<Longrightarrow> keys_ok t \<Longrightarrow> keys_ok t'"
  by (auto simp: stmt_update_workflow_def keys_ok_def map_update_where)

lemma keys_update_gate:
  "stmt_update_gate P f t = Inr (n, t') \<Longrightarrow> (\<And>x. gt_token (f x) = gt_token x) \<Longrightarrow> keys_ok t \<Longrightarrow> keys_ok t'"
  by (auto simp: stmt_update_gate_def keys_ok_def map_update_where)

lemma keys_update_task:
  "stmt_update_task P f t = Inr (n, t') \<Longrightarrow> (\<And>x. tk_task_id (f x) = tk_task_id x) \<Longrightarrow> keys_ok t \<Longrightarrow> keys_ok t'"
  by (auto simp: stmt_update_task_def keys_ok_def map_update_where)

lemmas keys_stmt =
  keys_insert_workflow keys_insert_receipt keys_insert_delta keys_upsert_snapshot
  keys_insert_artifact keys_insert_gate keys_insert_task keys_insert_branch
  keys_insert_anchor keys_insert_actor keys_update_workflow keys_update_gate keys_update_task

end
