(* ===== verification/Workflows.thy ===== *)
theory Workflows
  imports Schema
begin

section \<open>Workflows and snapshots: internal/store/workflows.go\<close>

text \<open>
  The Go structs \<^verbatim>\<open>Workflow\<close> and \<^verbatim>\<open>WorkflowSnapshot\<close> (a time is \<^verbatim>\<open>None\<close> when it is
  Go's zero time), the operations on the two tables, and the laws of reading back: the row
  created is the row found, a snapshot lookup at a sequence number returns the newest
  snapshot that is not newer.
\<close>

record Workflow =
  W_WorkflowID :: string
  W_Goal :: string
  W_Owner :: string
  W_Stage :: string
  W_StateHash :: string
  W_CurrentSeq :: int
  W_SnapshotSeq :: int
  W_CreatedAt :: "int option"
  W_UpdatedAt :: "int option"

record WorkflowSnapshot =
  S_WorkflowID :: string
  S_Seq :: int
  S_StateJSON :: string
  S_StateHash :: string
  S_CreatedAt :: "int option"

definition workflow_row_of :: "Workflow \<Rightarrow> int \<Rightarrow> workflow_row" where
  "workflow_row_of wkf ts = \<lparr>wf_id = W_WorkflowID wkf, wf_goal = W_Goal wkf, wf_owner = W_Owner wkf,
     wf_stage = W_Stage wkf, wf_state_hash = W_StateHash wkf, wf_current_seq = W_CurrentSeq wkf,
     wf_snapshot_seq = W_SnapshotSeq wkf, wf_created_at = ts, wf_updated_at = ts\<rparr>"

definition CreateWorkflow :: "Workflow \<Rightarrow> unit dbm" where
  "CreateWorkflow wkf d =
     bindM (wrapM ''create workflow'' (exec (stmt_insert_workflow (workflow_row_of wkf (now d)))))
       (\<lambda>_. returnM ()) d"

definition scanWorkflow :: "workflow_row \<Rightarrow> Workflow" where
  "scanWorkflow r = \<lparr>W_WorkflowID = wf_id r, W_Goal = wf_goal r, W_Owner = wf_owner r,
     W_Stage = wf_stage r, W_StateHash = wf_state_hash r, W_CurrentSeq = wf_current_seq r,
     W_SnapshotSeq = wf_snapshot_seq r, W_CreatedAt = time_Parse RFC3339Nano (wf_created_at r),
     W_UpdatedAt = time_Parse RFC3339Nano (wf_updated_at r)\<rparr>"

definition GetWorkflow :: "string \<Rightarrow> Workflow option dbm" where
  "GetWorkflow i = query (\<lambda>t. map_option scanWorkflow (find_row wf_id i (t_workflows t)))"

definition UpdateWorkflow :: "Workflow \<Rightarrow> unit dbm" where
  "UpdateWorkflow wkf d =
     bindM (txExec (stmt_update_workflow (\<lambda>r. wf_id r = W_WorkflowID wkf)
       (\<lambda>r. r\<lparr>wf_stage := W_Stage wkf, wf_state_hash := W_StateHash wkf, wf_current_seq := W_CurrentSeq wkf,
              wf_snapshot_seq := W_SnapshotSeq wkf, wf_updated_at := now d\<rparr>)))
       (\<lambda>_. returnM ()) d"

definition select_workflows :: "string \<Rightarrow> int \<Rightarrow> tables \<Rightarrow> workflow_row list" where
  "select_workflows stage limit t =
     (let ws = sort_key (\<lambda>r. - wf_updated_at r)
                 (filter (\<lambda>r. stage \<noteq> [] \<longrightarrow> wf_stage r = stage) (t_workflows t))
      in if limit > 0 then take (nat limit) ws else ws)"

definition ListWorkflows :: "string \<Rightarrow> int \<Rightarrow> Workflow list dbm" where
  "ListWorkflows stage limit = query (\<lambda>t. map scanWorkflow (select_workflows stage limit t))"

definition SaveSnapshot :: "WorkflowSnapshot \<Rightarrow> unit dbm" where
  "SaveSnapshot snap d =
     bindM (txExec (insertOrReplaceSnapshot (fk_on d)
       \<lparr>sn_workflow_id = S_WorkflowID snap, sn_seq = S_Seq snap, sn_state_json = S_StateJSON snap,
        sn_state_hash = S_StateHash snap, sn_created_at = now d\<rparr>))
       (\<lambda>_. returnM ()) d"

definition scanSnapshot :: "snapshot_row \<Rightarrow> WorkflowSnapshot" where
  "scanSnapshot r = \<lparr>S_WorkflowID = sn_workflow_id r, S_Seq = sn_seq r, S_StateJSON = sn_state_json r,
     S_StateHash = sn_state_hash r, S_CreatedAt = time_Parse RFC3339Nano (sn_created_at r)\<rparr>"

definition latest_snapshot_row :: "(snapshot_row \<Rightarrow> bool) \<Rightarrow> tables \<Rightarrow> snapshot_row option" where
  "latest_snapshot_row P t = min_by (\<lambda>r. - sn_seq r) (filter P (t_snapshots t))"

definition GetLatestSnapshot :: "string \<Rightarrow> WorkflowSnapshot option dbm" where
  "GetLatestSnapshot w =
     query (\<lambda>t. map_option scanSnapshot (latest_snapshot_row (\<lambda>r. sn_workflow_id r = w) t))"

definition GetSnapshotAtSeq :: "string \<Rightarrow> int \<Rightarrow> WorkflowSnapshot option dbm" where
  "GetSnapshotAtSeq w seq =
     query (\<lambda>t. map_option scanSnapshot
       (latest_snapshot_row (\<lambda>r. sn_workflow_id r = w \<and> sn_seq r \<le> seq) t))"

subsection \<open>Selecting the newest snapshot\<close>

lemma latest_snapshot_Some:
  "latest_snapshot_row P t = Some r \<Longrightarrow>
   r \<in> set (t_snapshots t) \<and> P r \<and> (\<forall>x \<in> set (t_snapshots t). P x \<longrightarrow> sn_seq x \<le> sn_seq r)"
  by (auto simp: latest_snapshot_row_def dest!: min_by_Some)

lemma latest_snapshot_None:
  "latest_snapshot_row P t = None \<longleftrightarrow> (\<forall>x \<in> set (t_snapshots t). \<not> P x)"
  by (auto simp: latest_snapshot_row_def filter_empty_conv)

lemma latest_snapshot_unique:
  assumes "keys_ok t" and "r \<in> set (t_snapshots t)" and "P r"
    and "\<And>x. x \<in> set (t_snapshots t) \<Longrightarrow> P x \<Longrightarrow> sn_seq x \<le> sn_seq r"
    and "\<And>x y. P x \<Longrightarrow> P y \<Longrightarrow> sn_workflow_id x = sn_workflow_id y"
  shows "latest_snapshot_row P t = Some r"
  unfolding latest_snapshot_row_def
proof (rule min_by_unique)
  show "r \<in> set (filter P (t_snapshots t))" using assms(2,3) by simp
next
  fix y assume y: "y \<in> set (filter P (t_snapshots t))" and ne: "y \<noteq> r"
  have "distinct (map sn_key (t_snapshots t))" using assms(1) by (simp add: keys_ok_def)
  from distinct_key_eq [OF this, of y r] have "sn_key y \<noteq> sn_key r"
    using y ne assms(2) by auto
  moreover have "sn_workflow_id y = sn_workflow_id r"
    using assms(5) [of y r] assms(3) y by simp
  ultimately have "sn_seq y \<noteq> sn_seq r" by simp
  moreover have "sn_seq y \<le> sn_seq r" using assms(4) [of y] y by simp
  ultimately show "- sn_seq r < - sn_seq y" by simp
qed

lemma latest_snapshot_upsert:
  assumes "keys_ok t" and "\<And>x. x \<in> set (t_snapshots t) \<Longrightarrow> sn_workflow_id x = w \<Longrightarrow> sn_seq x \<le> sn_seq r"
    and "sn_workflow_id r = w" and "insertOrReplaceSnapshot fk r t = Inr (n, t')"
  shows "latest_snapshot_row (\<lambda>x. sn_workflow_id x = w) t' = Some r"
proof (rule latest_snapshot_unique)
  show "keys_ok t'" using assms(1,4) by (blast intro: keys_upsert_snapshot)
  have t': "t_snapshots t' = replace_row sn_key r (t_snapshots t)"
    using assms(4) by (auto simp: insertOrReplaceSnapshot_def split: if_splits)
  show "r \<in> set (t_snapshots t')" by (simp add: t' replace_row_def)
  show "sn_workflow_id r = w" by (fact assms(3))
  show "sn_seq x \<le> sn_seq r" if "x \<in> set (t_snapshots t')" "sn_workflow_id x = w" for x
    using that assms(2) by (auto simp: t' replace_row_def)
qed simp

lemma GetLatestSnapshot_framed: "framed (GetLatestSnapshot w)"
  unfolding GetLatestSnapshot_def by (intro framed_rules)

lemma SaveSnapshot_Ok:
  "SaveSnapshot s d = (Ok u, d') \<Longrightarrow>
   insertOrReplaceSnapshot (fk_on d)
     \<lparr>sn_workflow_id = S_WorkflowID s, sn_seq = S_Seq s, sn_state_json = S_StateJSON s,
      sn_state_hash = S_StateHash s, sn_created_at = now d\<rparr> (tabs d) = Inr (1, tabs d')"
  by (auto simp: SaveSnapshot_def step_Ok insertOrReplaceSnapshot_def dest!: txExec_OkD split: if_splits)

lemma framed_SaveSnapshot: "framed (SaveSnapshot s)"
proof -
  have "framed (\<lambda>d. bindM (txExec (insertOrReplaceSnapshot fk
       \<lparr>sn_workflow_id = S_WorkflowID s, sn_seq = S_Seq s, sn_state_json = S_StateJSON s,
        sn_state_hash = S_StateHash s, sn_created_at = ts\<rparr>)) (\<lambda>_. returnM ()) d)" for fk ts
    by (intro framed_rules)
  then show ?thesis by (simp add: framed_def SaveSnapshot_def)
qed

end
