(* ===== verification/GoTime.thy ===== *)
theory GoTime
  imports Prelude
begin

section \<open>Printed times\<close>

text \<open>
  \<^verbatim>\<open>time.Time.Format\<close> for the two layouts the service prints, on seconds since 1970 in UTC.
  The date of a day number comes from the proleptic Gregorian calendar in eras of 400
  years, counted from 1 March of year 0. \<open>json_time\<close> is the JSON encoding of a
  \<^verbatim>\<open>time.Time\<close> value; \<^verbatim>\<open>None\<close> is the zero time, year 1.
\<close>

definition civil_from_days :: "int \<Rightarrow> int \<times> int \<times> int" where
  "civil_from_days days =
     (let z = days + 719468;
          era = z div 146097;
          doe = z mod 146097;
          yoe = (doe - doe div 1460 + doe div 36524 - doe div 146096) div 365;
          doy = doe - (365 * yoe + yoe div 4 - yoe div 100);
          mp = (5 * doy + 2) div 153;
          dd = doy - (153 * mp + 2) div 5 + 1;
          mm = (if mp < 10 then mp + 3 else mp - 9)
      in (yoe + era * 400 + (if mm \<le> 2 then 1 else 0), mm, dd))"

definition pad :: "nat \<Rightarrow> int \<Rightarrow> string" where
  "pad n i = (let s = show_int i in replicate (n - length s) (CHR ''0'') @ s)"

definition date_part :: "int \<Rightarrow> string" where
  "date_part secs =
     (case civil_from_days (secs div 86400) of (y, m, d) \<Rightarrow> pad 4 y @ ''-'' @ pad 2 m @ ''-'' @ pad 2 d)"

definition clock_part :: "int \<Rightarrow> string" where
  "clock_part secs =
     (let s = secs mod 86400 in pad 2 (s div 3600) @ '':'' @ pad 2 (s div 60 mod 60) @ '':'' @ pad 2 (s mod 60))"

definition format_space :: "int \<Rightarrow> string" where
  "format_space secs = date_part secs @ '' '' @ clock_part secs"

definition format_RFC3339 :: "int \<Rightarrow> string" where
  "format_RFC3339 secs = date_part secs @ ''T'' @ clock_part secs @ ''Z''"

definition json_time :: "int option \<Rightarrow> string" where
  "json_time t = (case t of None \<Rightarrow> ''0001-01-01T00:00:00Z'' | Some s \<Rightarrow> format_RFC3339 s)"

lemma format_sample: "format_space 1709210096 = ''2024-02-29 12:34:56''"
  by code_simp

lemma zero_time_sample: "format_RFC3339 (- 62135596800) = json_time None"
  by code_simp

end
