(* ===== verification/Anchors.thy ===== *)
theory Anchors
  imports Workflows GoTime
begin

section \<open>Anchors: internal/store/anchors.go, internal/anchor/backend.go\<close>

text \<open>
  Anchor proofs cover ranges of sequence numbers of a workflow. \<open>GetAnchorGaps\<close> fills a
  map of covered numbers and scans it for gaps; both loops count a 64-bit integer up to a
  bound, so at the largest bound they never end. They are \<^theory_text>\<open>partial_function (option)\<close>,
  not returning is \<^verbatim>\<open>None\<close>, and an operation that runs into such a loop is \<open>Blocked\<close>.
  The Go map is the function from numbers to booleans it represents; a gap is the pair of
  the entries \<^verbatim>\<open>from\<close> and \<^verbatim>\<open>to\<close>. Shown: when exactly \<open>GetAnchorGaps\<close> returns, that
  its gaps are the maximal uncovered runs, and what \<open>AnchorSummary\<close> reports.
\<close>

record Anchor =
  AN_ProofID :: string
  AN_WorkflowID :: string
  AN_SeqFrom :: int
  AN_SeqTo :: int
  AN_ChainRoot :: string
  AN_PayloadDigest :: string
  AN_ProofDigest :: string
  AN_ExternalKind :: string
  AN_ExternalRef :: string
  AN_AnchoredBy :: string
  AN_PayloadJSON :: string
  AN_ProofJSON :: string
  AN_CreatedAt :: "int option"

definition anchor_row_of :: "Anchor \<Rightarrow> int \<Rightarrow> anchor_row" where
  "anchor_row_of a ts =
     \<lparr>an_proof_id = AN_ProofID a, an_workflow_id = AN_WorkflowID a, an_seq_from = AN_SeqFrom a,
      an_seq_to = AN_SeqTo a, an_chain_root = AN_ChainRoot a, an_payload_digest = AN_PayloadDigest a,
      an_proof_digest = AN_ProofDigest a, an_external_kind = AN_ExternalKind a,
      an_external_ref = AN_ExternalRef a, an_anchored_by = AN_AnchoredBy a,
      an_payload_json = AN_PayloadJSON a, an_proof_json = AN_ProofJSON a, an_created_at = ts\<rparr>"

definition CreateAnchor :: "Anchor \<Rightarrow> unit dbm" where
  "CreateAnchor a d = bindM (exec (stmt_insert_anchor (anchor_row_of a (now d)))) (\<lambda>_. returnM ()) d"

definition scanAnchor :: "anchor_row \<Rightarrow> Anchor" where
  "scanAnchor r =
     \<lparr>AN_ProofID = an_proof_id r, AN_WorkflowID = an_workflow_id r, AN_SeqFrom = an_seq_from r,
      AN_SeqTo = an_seq_to r, AN_ChainRoot = an_chain_root r, AN_PayloadDigest = an_payload_digest r,
      AN_ProofDigest = an_proof_digest r, AN_ExternalKind = an_external_kind r,
      AN_ExternalRef = an_external_ref r, AN_AnchoredBy = an_anchored_by r,
      AN_PayloadJSON = an_payload_json r, AN_ProofJSON = an_proof_json r,
      AN_CreatedAt = time_Parse space_layout (an_created_at r)\<rparr>"

definition select_anchors :: "string \<Rightarrow> tables \<Rightarrow> anchor_row list" where
  "select_anchors w t = sort_key an_seq_from (filter (\<lambda>r. an_workflow_id r = w) (t_anchors t))"

definition ListAnchors :: "string \<Rightarrow> Anchor list dbm" where
  "ListAnchors w = query (\<lambda>t. map scanAnchor (select_anchors w t))"

subsection \<open>Gaps\<close>

partial_function (option) cover_loop :: "int \<Rightarrow> int \<Rightarrow> (int \<Rightarrow> bool) \<Rightarrow> (int \<Rightarrow> bool) option" where
  "cover_loop seq to covered =
     (if seq \<le> to then cover_loop (wrap64 (seq + 1)) to (covered(seq := True)) else Some covered)"

fun cover_all :: "Anchor list \<Rightarrow> (int \<Rightarrow> bool) \<Rightarrow> (int \<Rightarrow> bool) option" where
  "cover_all [] covered = Some covered"
| "cover_all (a # as) covered =
     (case cover_loop (AN_SeqFrom a) (AN_SeqTo a) covered of None \<Rightarrow> None | Some c \<Rightarrow> cover_all as c)"

definition gap_step :: "(int \<Rightarrow> bool) \<Rightarrow> int \<Rightarrow> (int \<times> int) list \<times> int \<Rightarrow> (int \<times> int) list \<times> int" where
  "gap_step covered seq st =
     (case st of (gaps, gapStart) \<Rightarrow>
        if \<not> covered seq then (if gapStart = -1 then (gaps, seq) else (gaps, gapStart))
        else (if gapStart \<noteq> -1 then (gaps @ [(gapStart, seq - 1)], -1) else (gaps, gapStart)))"

partial_function (option) gap_loop ::
  "(int \<Rightarrow> bool) \<Rightarrow> int \<Rightarrow> int \<Rightarrow> (int \<times> int) list \<times> int \<Rightarrow> ((int \<times> int) list \<times> int) option" where
  "gap_loop covered maxSeq seq st =
     (if seq \<le> maxSeq then gap_loop covered maxSeq (wrap64 (seq + 1)) (gap_step covered seq st) else Some st)"

definition find_gaps :: "(int \<Rightarrow> bool) \<Rightarrow> int \<Rightarrow> (int \<times> int) list option" where
  "find_gaps covered maxSeq =
     map_option (\<lambda>(gaps, gapStart). if gapStart \<noteq> -1 then gaps @ [(gapStart, maxSeq)] else gaps)
       (gap_loop covered maxSeq 1 ([], -1))"

definition gaps_of :: "Anchor list \<Rightarrow> int \<Rightarrow> (int \<times> int) list option" where
  "gaps_of anchors maxSeq =
     (case cover_all anchors (\<lambda>_. False) of None \<Rightarrow> None | Some covered \<Rightarrow> find_gaps covered maxSeq)"

definition hangM :: "'a option \<Rightarrow> 'a dbm" where
  "hangM v d = (case v of None \<Rightarrow> (Blocked, d) | Some x \<Rightarrow> (Ok x, d))"

definition GetAnchorGaps :: "string \<Rightarrow> int \<Rightarrow> (int \<times> int) list dbm" where
  "GetAnchorGaps w maxSeq = bindM (ListAnchors w) (\<lambda>anchors. hangM (gaps_of anchors maxSeq))"

subsection \<open>Summary\<close>

text \<open>
  The decoding of \<^verbatim>\<open>struct{ Seq int }\<close>: a missing or null field is 0, an integer out of
  range or any other value is an error, and then the code keeps 0.
\<close>

definition state_seq :: "string \<Rightarrow> int" where
  "state_seq s =
     (case unmarshal_map s of
        None \<Rightarrow> 0
      | Some m \<Rightarrow> (case map_of m ''seq'' of Some (JInt i) \<Rightarrow> if int64_range i then i else 0 | _ \<Rightarrow> 0))"

definition covered_sum :: "Anchor list \<Rightarrow> int" where
  "covered_sum anchors =
     fold (\<lambda>a c. wrap64 (c + wrap64 (wrap64 (AN_SeqTo a - AN_SeqFrom a) + 1))) anchors 0"

definition gap_json :: "int \<times> int \<Rightarrow> json" where
  "gap_json g = JObj (go_map [(''from'', JInt (fst g)), (''to'', JInt (snd g))])"

definition summary_json :: "string \<Rightarrow> Anchor list \<Rightarrow> int \<Rightarrow> (int \<times> int) list \<Rightarrow> json" where
  "summary_json w anchors maxSeq gaps =
     JObj (go_map [(''workflow_id'', JStr w), (''proof_count'', JInt (int (length anchors))),
       (''max_seq'', JInt maxSeq), (''covered_seqs'', JInt (covered_sum anchors)),
       (''gap_count'', JInt (int (length gaps))),
       (''gaps'', if gaps = [] then JNull else JArr (map gap_json gaps)),
       (''fully_anchored'', JBool (gaps = [] \<and> 0 < maxSeq))])"

text \<open>The errors of \<open>GetLatestSnapshot\<close> and \<open>GetAnchorGaps\<close> are dropped.\<close>

definition AnchorSummary :: "string \<Rightarrow> json dbm" where
  "AnchorSummary w =
     bindM (ListAnchors w) (\<lambda>anchors.
     bindM (tryM (GetLatestSnapshot w)) (\<lambda>snap.
       let maxSeq = (case snap of Inr (Some s) \<Rightarrow> state_seq (S_StateJSON s) | _ \<Rightarrow> 0) in
     bindM (tryM (GetAnchorGaps w maxSeq)) (\<lambda>res.
       let gaps = (case res of Inl e \<Rightarrow> [] | Inr gs \<Rightarrow> gs) in
     returnM (summary_json w anchors maxSeq gaps))))"

subsection \<open>Backends\<close>

record ExternalRef =
  ER_Kind :: string
  ER_TxHash :: string
  ER_Block :: int
  ER_Network :: string
  ER_TSA :: string
  ER_TokenDigest :: string
  ER_LogID :: string
  ER_LeafIndex :: int
  ER_TreeSize :: int
  ER_LocalRef :: string
  ER_AnchoredAt :: string

datatype Backend = LocalBackend | RFC3161Backend string | EthereumBackend string string string | CTLogBackend string

fun backend_Name :: "Backend \<Rightarrow> string" where
  "backend_Name LocalBackend = ''local''"
| "backend_Name (RFC3161Backend url) = ''rfc3161''"
| "backend_Name (EthereumBackend rpc contract network) = ''ethereum''"
| "backend_Name (CTLogBackend url) = ''ct_log''"

definition LocalBackend_Anchor :: "crypto \<Rightarrow> int \<Rightarrow> string \<Rightarrow> string \<Rightarrow> int \<Rightarrow> int \<Rightarrow> ExternalRef" where
  "LocalBackend_Anchor C clk payloadDigest workflowID seqFrom seqTo =
     (let h = sha256_hex C (workflowID @ '':'' @ show_int seqFrom @ '':'' @ show_int seqTo @ '':'' @ payloadDigest) in
      \<lparr>ER_Kind = ''local'', ER_TxHash = [], ER_Block = 0, ER_Network = [], ER_TSA = [], ER_TokenDigest = [],
       ER_LogID = [], ER_LeafIndex = 0, ER_TreeSize = 0, ER_LocalRef = ''local:'' @ take 16 h,
       ER_AnchoredAt = format_space clk\<rparr>)"

fun backend_Anchor :: "crypto \<Rightarrow> int \<Rightarrow> Backend \<Rightarrow> string \<Rightarrow> string \<Rightarrow> int \<Rightarrow> int \<Rightarrow> ExternalRef outcome" where
  "backend_Anchor C clk LocalBackend pd w f t = Ok (LocalBackend_Anchor C clk pd w f t)"
| "backend_Anchor C clk (RFC3161Backend url) pd w f t = Err (EMsg ''RFC3161Backend.Anchor: not implemented'')"
| "backend_Anchor C clk (EthereumBackend rpc ct nw) pd w f t = Err (EMsg ''EthereumBackend.Anchor: not implemented'')"
| "backend_Anchor C clk (CTLogBackend url) pd w f t = Err (EMsg ''CTLogBackend.Anchor: not implemented'')"

definition DefaultBackend :: Backend where
  "DefaultBackend = LocalBackend"

text \<open>Struct fields in declaration order; a zero field tagged \<^verbatim>\<open>omitempty\<close> is left out.\<close>

definition omit_str :: "string \<Rightarrow> string \<Rightarrow> (string \<times> json) list" where
  "omit_str k s = (if s = [] then [] else [(k, JStr s)])"

definition omit_int :: "string \<Rightarrow> int \<Rightarrow> (string \<times> json) list" where
  "omit_int k i = (if i = 0 then [] else [(k, JInt i)])"

definition ExternalRef_json :: "ExternalRef \<Rightarrow> json" where
  "ExternalRef_json r = JObj ((''kind'', JStr (ER_Kind r)) # omit_str ''tx_hash'' (ER_TxHash r) @
     omit_int ''block'' (ER_Block r) @ omit_str ''network'' (ER_Network r) @ omit_str ''tsa'' (ER_TSA r) @
     omit_str ''token_digest'' (ER_TokenDigest r) @ omit_str ''log_id'' (ER_LogID r) @
     omit_int ''leaf_index'' (ER_LeafIndex r) @ omit_int ''tree_size'' (ER_TreeSize r) @
     omit_str ''local_ref'' (ER_LocalRef r) @ omit_str ''anchored_at'' (ER_AnchoredAt r))"

definition MarshalExternalRef :: "ExternalRef \<Rightarrow> string" where
  "MarshalExternalRef r = marshal (ExternalRef_json r)"

subsection \<open>When the loops return\<close>

lemma cover_loop_Some:
  assumes "to < maxint" and "minint \<le> seq"
  shows "cover_loop seq to c = Some (\<lambda>x. c x \<or> seq \<le> x \<and> x \<le> to)"
  using assms(2)
proof (induction "nat (to + 1 - seq)" arbitrary: seq c)
  case 0
  then have "\<not> seq \<le> to" by simp
  then show ?case by (subst cover_loop.simps) (auto simp: fun_eq_iff)
next
  case (Suc n)
  then have le: "seq \<le> to" by simp
  have w: "wrap64 (seq + 1) = seq + 1" using assms(1) Suc.prems le by (intro wrap64_id) (simp add: int64_range_def)
  have "cover_loop (seq + 1) to (c(seq := True)) = Some (\<lambda>x. (c(seq := True)) x \<or> seq + 1 \<le> x \<and> x \<le> to)"
    using Suc.hyps(2) Suc.prems by (intro Suc.hyps(1)) auto
  with le w show ?case by (subst cover_loop.simps) (auto simp: fun_eq_iff)
qed

lemma cover_loop_diverges:
  assumes "int64_range seq"
  shows "cover_loop seq maxint c = None"
proof -
  have "to = maxint \<longrightarrow> \<not> int64_range s" if "cover_loop s to c = Some r" for s to c r
  proof (rule cover_loop.raw_induct [OF _ that, where P = "\<lambda>s to c r. to = maxint \<longrightarrow> \<not> int64_range s"])
    fix loop s to c r
    assume IH: "\<And>s to c r. loop s to c = Some r \<Longrightarrow> to = maxint \<longrightarrow> \<not> int64_range s"
      and body: "(if s \<le> to then loop (wrap64 (s + 1)) to (c(s := True)) else Some c) = Some r"
    show "to = maxint \<longrightarrow> \<not> int64_range s"
      using IH [of "wrap64 (s + 1)" to "c(s := True)" r] body wrap64_range [of "s + 1"]
      by (auto simp: int64_range_def split: if_splits)
  qed
  then show ?thesis using assms by (cases "cover_loop seq maxint c") auto
qed

lemma gap_loop_fold:
  assumes "n < maxint" and "minint \<le> seq"
  shows "gap_loop c n seq st = Some (fold (gap_step c) [seq..n] st)"
  using assms(2)
proof (induction "nat (n + 1 - seq)" arbitrary: seq st)
  case 0
  then show ?case by (subst gap_loop.simps) simp
next
  case (Suc k)
  then have le: "seq \<le> n" by simp
  have w: "wrap64 (seq + 1) = seq + 1" using assms(1) Suc.prems le by (intro wrap64_id) (simp add: int64_range_def)
  have "gap_loop c n (seq + 1) (gap_step c seq st) = Some (fold (gap_step c) [seq + 1..n] (gap_step c seq st))"
    using Suc.hyps(2) Suc.prems by (intro Suc.hyps(1)) auto
  with le w show ?case by (subst gap_loop.simps) (simp add: upto_rec1)
qed

lemma gap_loop_diverges:
  assumes "int64_range seq"
  shows "gap_loop c maxint seq st = None"
proof -
  have "n = maxint \<longrightarrow> \<not> int64_range s" if "gap_loop c n s st = Some r" for c n s st r
  proof (rule gap_loop.raw_induct [OF _ that, where P = "\<lambda>c n s st r. n = maxint \<longrightarrow> \<not> int64_range s"])
    fix loop c n s st r
    assume IH: "\<And>c n s st r. loop c n s st = Some r \<Longrightarrow> n = maxint \<longrightarrow> \<not> int64_range s"
      and body: "(if s \<le> n then loop c n (wrap64 (s + 1)) (gap_step c s st) else Some st) = Some r"
    show "n = maxint \<longrightarrow> \<not> int64_range s"
      using IH [of c n "wrap64 (s + 1)" "gap_step c s st" r] body wrap64_range [of "s + 1"]
      by (auto simp: int64_range_def split: if_splits)
  qed
  then show ?thesis using assms by (cases "gap_loop c maxint seq st") auto
qed

definition covers :: "Anchor list \<Rightarrow> int \<Rightarrow> bool" where
  "covers as x \<longleftrightarrow> (\<exists>a \<in> set as. AN_SeqFrom a \<le> x \<and> x \<le> AN_SeqTo a)"

definition ranges_ok :: "Anchor list \<Rightarrow> bool" where
  "ranges_ok as \<longleftrightarrow> (\<forall>a \<in> set as. int64_range (AN_SeqFrom a) \<and> int64_range (AN_SeqTo a))"

lemma cover_all_Some:
  assumes "\<And>a. a \<in> set as \<Longrightarrow> AN_SeqTo a < maxint \<and> minint \<le> AN_SeqFrom a"
  shows "cover_all as c = Some (\<lambda>x. c x \<or> covers as x)"
  using assms by (induction as arbitrary: c) (auto simp: cover_loop_Some covers_def fun_eq_iff)

lemma cover_all_returns:
  assumes "ranges_ok as"
  shows "cover_all as c = None \<longleftrightarrow> (\<exists>a \<in> set as. AN_SeqTo a = maxint)"
  using assms
proof (induction as arbitrary: c)
  case (Cons a as)
  have r: "int64_range (AN_SeqFrom a)" "int64_range (AN_SeqTo a)" "ranges_ok as"
    using Cons.prems by (simp_all add: ranges_ok_def)
  show ?case
  proof (cases "AN_SeqTo a = maxint")
    case True
    then show ?thesis using cover_loop_diverges [OF r(1)] by simp
  next
    case False
    then have "AN_SeqTo a < maxint" "minint \<le> AN_SeqFrom a" using r by (auto simp: int64_range_def)
    then show ?thesis using Cons.IH [OF r(3)] False by (simp add: cover_loop_Some)
  qed
qed simp

lemma find_gaps_returns: "int64_range n \<Longrightarrow> find_gaps c n = None \<longleftrightarrow> n = maxint"
proof (cases "n = maxint")
  case True
  have "int64_range 1" by (simp add: int64_range_def minint_def maxint_def)
  then show ?thesis using True by (simp add: find_gaps_def gap_loop_diverges)
next
  case False
  moreover assume "int64_range n"
  ultimately have "n < maxint" by (simp add: int64_range_def)
  moreover have "minint \<le> 1" by (simp add: minint_def)
  ultimately show ?thesis using False by (simp add: find_gaps_def gap_loop_fold)
qed

lemma gaps_of_returns:
  assumes "ranges_ok as" and "int64_range n"
  shows "gaps_of as n = None \<longleftrightarrow> n = maxint \<or> (\<exists>a \<in> set as. AN_SeqTo a = maxint)"
  using cover_all_returns [OF assms(1), of "\<lambda>_. False"] find_gaps_returns [OF assms(2)]
  by (auto simp: gaps_of_def split: option.splits)

subsection \<open>The gaps are the maximal uncovered runs\<close>

definition gap_union :: "(int \<times> int) list \<Rightarrow> int set" where
  "gap_union gaps = (\<Union>g \<in> set gaps. {fst g..snd g})"

definition uncovered :: "(int \<Rightarrow> bool) \<Rightarrow> int \<Rightarrow> int set" where
  "uncovered c n = {s. 1 \<le> s \<and> s \<le> n \<and> \<not> c s}"

definition separated :: "(int \<times> int) list \<Rightarrow> bool" where
  "separated gaps \<longleftrightarrow> (\<forall>g \<in> set gaps. fst g \<le> snd g) \<and> sorted_wrt (\<lambda>a b. snd a + 1 < fst b) gaps"

definition scan_inv :: "(int \<Rightarrow> bool) \<Rightarrow> int \<Rightarrow> (int \<times> int) list \<times> int \<Rightarrow> bool" where
  "scan_inv c k st \<longleftrightarrow> (case st of (gaps, start) \<Rightarrow> separated gaps \<and>
     (if start = -1 then gap_union gaps = uncovered c k \<and> (\<forall>g \<in> set gaps. snd g < k)
      else 1 \<le> start \<and> start \<le> k \<and> (\<forall>s. start \<le> s \<and> s \<le> k \<longrightarrow> \<not> c s) \<and>
        gap_union gaps = uncovered c (start - 1) \<and> (\<forall>g \<in> set gaps. snd g + 1 < start)))"

lemma separated_snoc:
  "separated gaps \<Longrightarrow> f \<le> t \<Longrightarrow> (\<And>g. g \<in> set gaps \<Longrightarrow> snd g + 1 < f) \<Longrightarrow> separated (gaps @ [(f, t)])"
  by (auto simp: separated_def sorted_wrt_append)

lemma gap_union_snoc: "gap_union (gaps @ [(f, t)]) = gap_union gaps \<union> {f..t}"
  by (auto simp: gap_union_def)

lemma uncovered_step: "0 \<le> k \<Longrightarrow> uncovered c (k + 1) = uncovered c k \<union> (if c (k + 1) then {} else {k + 1})"
  by (auto simp: uncovered_def zle_add1_eq_le order_le_less)

lemma uncovered_run:
  "1 \<le> start \<Longrightarrow> (\<And>s. start \<le> s \<Longrightarrow> s \<le> k \<Longrightarrow> \<not> c s) \<Longrightarrow> start \<le> k \<Longrightarrow>
   uncovered c (start - 1) \<union> {start..k} = uncovered c k"
  by (force simp: uncovered_def)

lemma scan_inv_step:
  assumes "scan_inv c k st" and "0 \<le> k"
  shows "scan_inv c (k + 1) (gap_step c (k + 1) st)"
proof -
  obtain gaps start where st: "st = (gaps, start)" by (cases st)
  show ?thesis
  proof (cases "c (k + 1)")
    case True
    have u: "uncovered c (k + 1) = uncovered c k" using True uncovered_step [OF assms(2)] by simp
    show ?thesis
    proof (cases "start = -1")
      case True
      then show ?thesis using assms u \<open>c (k + 1)\<close> by (force simp: scan_inv_def gap_step_def st)
    next
      case False
      then have s: "1 \<le> start" "start \<le> k" "\<And>s. start \<le> s \<Longrightarrow> s \<le> k \<Longrightarrow> \<not> c s" "separated gaps"
        "gap_union gaps = uncovered c (start - 1)" "\<And>g. g \<in> set gaps \<Longrightarrow> snd g + 1 < start"
        using assms by (auto simp: scan_inv_def st)
      have "separated (gaps @ [(start, k)])" using s by (intro separated_snoc)
      moreover have "gap_union (gaps @ [(start, k)]) = uncovered c (k + 1)"
        using uncovered_run [OF s(1,3,2)] u s(5) by (simp add: gap_union_snoc)
      moreover have "snd g < k + 1" if "g \<in> set (gaps @ [(start, k)])" for g
        using that s(2) s(6) [of g] by auto
      ultimately show ?thesis using False \<open>c (k + 1)\<close> by (simp add: scan_inv_def gap_step_def st)
    qed
  next
    case False
    then have "\<forall>s. start \<le> s \<and> s \<le> k + 1 \<longrightarrow> \<not> c s" if "\<forall>s. start \<le> s \<and> s \<le> k \<longrightarrow> \<not> c s"
      using that by (metis add.commute zle_add1_eq_le order_le_less)
    then show ?thesis
      using assms False by (cases "start = -1") (force simp: scan_inv_def gap_step_def st)+
  qed
qed

lemma scan_inv_fold:
  assumes "0 \<le> n"
  shows "scan_inv c n (fold (gap_step c) [1..n] ([], -1))"
  using assms
proof (induction n rule: int_ge_induct)
  case base
  then show ?case by (auto simp: scan_inv_def separated_def gap_union_def uncovered_def)
next
  case (step n)
  then have "[1..n + 1] = [1..n] @ [n + 1]" by (simp add: upto_rec2)
  then show ?case using scan_inv_step [OF step.IH step.hyps] by simp
qed

lemma find_gaps_exact:
  assumes "n < maxint" and "find_gaps c n = Some gaps"
  shows "separated gaps \<and> gap_union gaps = uncovered c n"
proof (cases "0 \<le> n")
  case True
  obtain gs start where f: "fold (gap_step c) [1..n] ([], -1) = (gs, start)"
    by (cases "fold (gap_step c) [1..n] ([], -1)")
  have "minint \<le> 1" by (simp add: minint_def)
  with assms f have g: "gaps = (if start \<noteq> -1 then gs @ [(start, n)] else gs)"
    by (auto simp: find_gaps_def gap_loop_fold)
  have "scan_inv c n (gs, start)" using scan_inv_fold [OF True, of c] f by simp
  then show ?thesis using uncovered_run [of start n c]
    by (auto simp: scan_inv_def g gap_union_snoc split: if_splits intro: separated_snoc)
next
  case False
  then show ?thesis using assms by (auto simp: find_gaps_def gap_loop.simps [of c n 1] separated_def gap_union_def uncovered_def)
qed

lemma gaps_of_exact:
  assumes "n < maxint" and "\<And>a. a \<in> set as \<Longrightarrow> AN_SeqTo a < maxint \<and> minint \<le> AN_SeqFrom a"
    and "gaps_of as n = Some gaps"
  shows "separated gaps \<and> gap_union gaps = uncovered (covers as) n"
  using assms find_gaps_exact [OF assms(1), of "covers as" gaps] by (simp add: gaps_of_def cover_all_Some)

lemma separated_empty_iff: "separated gaps \<Longrightarrow> gaps = [] \<longleftrightarrow> gap_union gaps = {}"
  by (cases gaps) (auto simp: separated_def gap_union_def)

subsection \<open>Anchors in the tables\<close>

abbreviation anchors_of :: "string \<Rightarrow> dbs \<Rightarrow> Anchor list" where
  "anchors_of w d \<equiv> map scanAnchor (select_anchors w (pool_tables d))"

lemma covers_anchors_of:
  "covers (anchors_of w d) x \<longleftrightarrow>
   (\<exists>r \<in> set (t_anchors (pool_tables d)). an_workflow_id r = w \<and> an_seq_from r \<le> x \<and> x \<le> an_seq_to r)"
  by (auto simp: covers_def select_anchors_def scanAnchor_def)

lemma GetAnchorGaps_OkD:
  assumes "GetAnchorGaps w n d = (Ok gaps, d')"
  shows "gaps_of (anchors_of w d) n = Some gaps"
proof -
  obtain as d1 where l: "ListAnchors w d = (Ok as, d1)" and h: "hangM (gaps_of as n) d1 = (Ok gaps, d')"
    using assms by (auto simp: GetAnchorGaps_def bindM_Ok)
  have "as = anchors_of w d" using query_OkD [OF l [unfolded ListAnchors_def]] by simp
  then show ?thesis using h by (auto simp: hangM_def split: option.splits)
qed

lemma GetAnchorGaps_live:
  "quiet d \<Longrightarrow> GetAnchorGaps w n d =
     (case gaps_of (anchors_of w d) n of None \<Rightarrow> (Blocked, d) | Some g \<Rightarrow> (Ok g, d))"
  by (simp add: GetAnchorGaps_def ListAnchors_def hangM_def)

definition anchor_rows_ok :: "tables \<Rightarrow> bool" where
  "anchor_rows_ok t \<longleftrightarrow> (\<forall>r \<in> set (t_anchors t). int64_range (an_seq_from r) \<and> int64_range (an_seq_to r))"

lemma ranges_ok_anchors_of: "anchor_rows_ok (pool_tables d) \<Longrightarrow> ranges_ok (anchors_of w d)"
  by (auto simp: ranges_ok_def anchor_rows_ok_def select_anchors_def scanAnchor_def)

lemma anchors_of_bounded:
  assumes "anchor_rows_ok (pool_tables d)"
    and "\<And>r. r \<in> set (t_anchors (pool_tables d)) \<Longrightarrow> an_workflow_id r = w \<Longrightarrow> an_seq_to r < maxint"
    and "a \<in> set (anchors_of w d)"
  shows "AN_SeqTo a < maxint \<and> minint \<le> AN_SeqFrom a"
  using assms by (auto simp: select_anchors_def scanAnchor_def anchor_rows_ok_def int64_range_def)

subsection \<open>Properties\<close>

definition sample_anchor :: "string \<Rightarrow> int \<Rightarrow> int \<Rightarrow> anchor_row" where
  "sample_anchor i f t = \<lparr>an_proof_id = i, an_workflow_id = ''w'', an_seq_from = f, an_seq_to = t, an_chain_root = ''r'',
     an_payload_digest = ''p'', an_proof_digest = ''q'', an_external_kind = ''local'', an_external_ref = ''{}'',
     an_anchored_by = ''ann'', an_payload_json = ''{}'', an_proof_json = ''{}'', an_created_at = 7\<rparr>"

definition anchor_tables :: tables where
  "anchor_tables = empty_tables\<lparr>t_anchors := [sample_anchor ''a'' 5 6, sample_anchor ''b'' 2 3, sample_anchor ''c'' 3 3]\<rparr>"

lemma anchor_tables_rows: "set (t_anchors anchor_tables) =
  {sample_anchor ''a'' 5 6, sample_anchor ''b'' 2 3, sample_anchor ''c'' 3 3}"
  by (simp add: anchor_tables_def)

text \<open>
  C31: the gaps \<open>GetAnchorGaps\<close> returns are non-empty, in increasing order and separated by at
  least one anchored number, and together hold exactly the sequence numbers from 1 to the
  maximum that no anchor of the workflow covers.
\<close>
theorem GetAnchorGaps_exact:
  assumes "anchor_rows_ok (pool_tables d)" and "n < maxint"
    and "\<And>r. r \<in> set (t_anchors (pool_tables d)) \<Longrightarrow> an_workflow_id r = w \<Longrightarrow> an_seq_to r < maxint"
    and "GetAnchorGaps w n d = (Ok gaps, d')"
  shows "(\<forall>g \<in> set gaps. fst g \<le> snd g) \<and> sorted_wrt (\<lambda>a b. snd a + 1 < fst b) gaps \<and>
    (\<Union>g \<in> set gaps. {fst g..snd g}) = {s. 1 \<le> s \<and> s \<le> n \<and>
       \<not> (\<exists>r \<in> set (t_anchors (pool_tables d)). an_workflow_id r = w \<and> an_seq_from r \<le> s \<and> s \<le> an_seq_to r)}"
proof -
  have "separated gaps \<and> gap_union gaps = uncovered (covers (anchors_of w d)) n"
    by (rule gaps_of_exact [OF assms(2) anchors_of_bounded [OF assms(1,3)] GetAnchorGaps_OkD [OF assms(4)]])
  then show ?thesis unfolding uncovered_def covers_anchors_of by (simp add: separated_def gap_union_def)
qed

text \<open>
  C32: without engine failures \<open>GetAnchorGaps\<close> returns exactly when neither the maximum nor
  the end of an anchor of the workflow is the largest 64-bit integer; otherwise its counting
  loop wraps around and never ends.
\<close>
theorem GetAnchorGaps_returns_iff:
  assumes "quiet d" and "anchor_rows_ok (tabs d)" and "int64_range n"
  shows "(\<exists>gaps. GetAnchorGaps w n d = (Ok gaps, d)) \<longleftrightarrow>
    n \<noteq> maxint \<and> (\<forall>r \<in> set (t_anchors (tabs d)). an_workflow_id r = w \<longrightarrow> an_seq_to r \<noteq> maxint)"
proof -
  have "ranges_ok (anchors_of w d)" using assms by (intro ranges_ok_anchors_of) simp
  from gaps_of_returns [OF this assms(3)] show ?thesis
    using assms(1) by (auto simp: GetAnchorGaps_live select_anchors_def scanAnchor_def split: option.splits)
qed

lemma sample_anchors_ok:
  "anchor_rows_ok anchor_tables" "\<forall>r \<in> set (t_anchors anchor_tables). an_seq_to r < maxint"
  by (simp_all add: anchor_rows_ok_def anchor_tables_rows sample_anchor_def int64_range_def minint_def maxint_def)

theorem GetAnchorGaps_returns_iff_witness:
  "\<exists>gaps. GetAnchorGaps ''w'' 9 (handle_of ''sqlite3'' anchor_tables []) = (Ok gaps, handle_of ''sqlite3'' anchor_tables [])"
  using GetAnchorGaps_returns_iff [OF quiet_handle, of "''sqlite3''" anchor_tables 9 "''w''"] sample_anchors_ok
  by (auto simp: int64_range_def minint_def maxint_def)

theorem GetAnchorGaps_exact_witness:
  "\<exists>gaps d'. GetAnchorGaps ''w'' 9 (handle_of ''sqlite3'' anchor_tables []) = (Ok gaps, d') \<and>
     (\<Union>g \<in> set gaps. {fst g..snd g}) = {1, 4, 7, 8, 9}"
proof -
  let ?d = "handle_of ''sqlite3'' anchor_tables []"
  have p: "pool_tables ?d = anchor_tables" by (simp add: pool_tables_def handle_of_def)
  have "ranges_ok (anchors_of ''w'' ?d)" using sample_anchors_ok(1) by (intro ranges_ok_anchors_of) (simp add: p)
  from gaps_of_returns [OF this, of 9] obtain gaps where g: "GetAnchorGaps ''w'' 9 ?d = (Ok gaps, ?d)"
    using sample_anchors_ok(2) quiet_handle
    by (force simp: GetAnchorGaps_live select_anchors_def scanAnchor_def int64_range_def minint_def maxint_def
        split: option.splits)
  have "(\<Union>g \<in> set gaps. {fst g..snd g}) = {s. 1 \<le> s \<and> s \<le> 9 \<and>
       \<not> (\<exists>r \<in> set (t_anchors anchor_tables). an_workflow_id r = ''w'' \<and> an_seq_from r \<le> s \<and> s \<le> an_seq_to r)}"
    using GetAnchorGaps_exact [OF _ _ _ g] sample_anchors_ok by (simp add: p maxint_def)
  also have "\<dots> = {1, 4, 7, 8, 9}" by (auto simp: anchor_tables_rows sample_anchor_def)
  finally show ?thesis using g by blast
qed

definition latest_seq :: "string \<Rightarrow> tables \<Rightarrow> int" where
  "latest_seq w t = (case latest_snapshot_row (\<lambda>r. sn_workflow_id r = w) t of
     None \<Rightarrow> 0 | Some r \<Rightarrow> state_seq (sn_state_json r))"

lemma summary_fully_anchored:
  "\<exists>m. summary_json w as n gaps = JObj m \<and> map_of m ''fully_anchored'' = Some (JBool (gaps = [] \<and> 0 < n))"
  by (simp add: summary_json_def go_map_def map_of_map_put)

lemma int64_state_seq: "int64_range (state_seq s)"
  by (auto simp: state_seq_def int64_range_def minint_def maxint_def split: option.splits json.splits if_splits)

lemma int64_latest_seq: "int64_range (latest_seq w t)"
  using int64_state_seq by (auto simp: latest_seq_def int64_range_def minint_def maxint_def split: option.splits)


definition anchored_json :: string where
  "anchored_json = marshal (JObj [(''seq'', JInt 3)])"

definition anchored_tables :: "anchor_row list \<Rightarrow> tables" where
  "anchored_tables as = empty_tables\<lparr>t_anchors := as, t_snapshots := [\<lparr>sn_workflow_id = ''w'', sn_seq = 3,
     sn_state_json = anchored_json, sn_state_hash = ''h'', sn_created_at = 7\<rparr>]\<rparr>"

lemma anchored_latest: "latest_seq ''w'' (anchored_tables as) = 3"
proof -
  have "unmarshal_map anchored_json = Some [(''seq'', JInt 3)]"
    unfolding anchored_json_def by (rule unmarshal_map_marshal) simp
  then show ?thesis
    by (simp add: latest_seq_def anchored_tables_def latest_snapshot_row_def state_seq_def int64_range_def
        minint_def maxint_def)
qed


text \<open>
  The error of the gap query is dropped: when the engine fails that one read, the summary
  of a workflow with a positive sequence number claims full anchoring, whatever the anchors
  are, even if there is none.
\<close>
theorem AnchorSummary_failed_read_claims_full:
  assumes "0 < latest_seq w t"
  shows "\<exists>m d'. AnchorSummary w (handle_of drv t [False, False, True]) = (Ok (JObj m), d') \<and>
     map_of m ''fully_anchored'' = Some (JBool True) \<and> map_of m ''gap_count'' = Some (JInt 0)"
proof -
  have n: "(case latest_snapshot_row (\<lambda>r. sn_workflow_id r = w) t of None \<Rightarrow> 0 | Some r \<Rightarrow> state_seq (sn_state_json r)) =
      latest_seq w t" by (simp add: latest_seq_def)
  have "\<exists>as d'. AnchorSummary w (handle_of drv t [False, False, True]) = (Ok (summary_json w as (latest_seq w t) []), d')"
    using n by (auto simp: AnchorSummary_def ListAnchors_def GetLatestSnapshot_def GetAnchorGaps_def tryM_def query_def poll_def
        handle_of_def pool_tables_def scanSnapshot_def returnM_def Let_def bindM_def split: option.splits)
  then obtain as d' where a: "AnchorSummary w (handle_of drv t [False, False, True]) =
      (Ok (summary_json w as (latest_seq w t) []), d')" by blast
  show ?thesis using assms by (simp add: a summary_json_def go_map_def map_of_map_put)
qed

theorem AnchorSummary_failed_read_claims_full_witness:
  "\<exists>m d'. AnchorSummary ''w'' (handle_of ''pgx'' (anchored_tables []) [False, False, True]) = (Ok (JObj m), d') \<and>
     map_of m ''fully_anchored'' = Some (JBool True)"
  using AnchorSummary_failed_read_claims_full [of "''w''" "anchored_tables []" "''pgx''"]
  by (auto simp: anchored_latest)

end
