(* ===== verification/Chain.thy ===== *)
theory Chain
  imports Workflows
begin

section \<open>Receipts, deltas and artifacts: receipts.go, deltas.go, artifacts.go\<close>

text \<open>
  The append and read operations on the three append-only tables, and the hash chain they
  form. \<open>linked_from\<close> says that each row names the digest of the row before it in sequence
  order. The locale \<open>hash_chain\<close> is what the commit operations rely on: a row appended
  after all others that names the digest read by \<^verbatim>\<open>ORDER BY seq DESC LIMIT 1\<close> keeps the
  chain linked. It is interpreted on receipts and on deltas.
\<close>

record Receipt =
  R_WorkflowID :: string
  R_Seq :: int
  R_ReceiptDigest :: string
  R_ReceiptJSON :: string
  R_PrevReceiptDigest :: string
  R_CreatedAt :: "int option"

record Delta =
  D_WorkflowID :: string
  D_Seq :: int
  D_DeltaJSON :: string
  D_DeltaHash :: string
  D_PrevDeltaHash :: string
  D_CreatedAt :: "int option"

record Artifact =
  A_Digest :: string
  A_WorkflowID :: string
  A_ArtifactJSON :: string
  A_ContentRef :: string
  A_CreatedAt :: "int option"

subsection \<open>Receipts\<close>

definition AppendReceipt :: "Receipt \<Rightarrow> unit dbm" where
  "AppendReceipt r d =
     bindM (txExec (stmt_insert_receipt (fk_on d)
       \<lparr>rc_workflow_id = R_WorkflowID r, rc_seq = R_Seq r, rc_receipt_digest = R_ReceiptDigest r,
        rc_receipt_json = R_ReceiptJSON r, rc_prev_receipt_digest = nullString (R_PrevReceiptDigest r),
        rc_created_at = now d\<rparr>))
       (\<lambda>_. returnM ()) d"

definition scanReceipt :: "receipt_row \<Rightarrow> Receipt" where
  "scanReceipt r = \<lparr>R_WorkflowID = rc_workflow_id r, R_Seq = rc_seq r, R_ReceiptDigest = rc_receipt_digest r,
     R_ReceiptJSON = rc_receipt_json r, R_PrevReceiptDigest = null_str (rc_prev_receipt_digest r),
     R_CreatedAt = time_Parse RFC3339Nano (rc_created_at r)\<rparr>"

definition scanReceipts :: "receipt_row list \<Rightarrow> Receipt list" where
  "scanReceipts rows = map scanReceipt rows"

definition receipts_of :: "string \<Rightarrow> tables \<Rightarrow> receipt_row list" where
  "receipts_of w t = sort_key rc_seq (filter (\<lambda>r. rc_workflow_id r = w) (t_receipts t))"

definition GetReceipts :: "string \<Rightarrow> Receipt list dbm" where
  "GetReceipts w = query (\<lambda>t. scanReceipts (receipts_of w t))"

definition GetReceiptsSince :: "string \<Rightarrow> int \<Rightarrow> Receipt list dbm" where
  "GetReceiptsSince w fromSeq = query (\<lambda>t. scanReceipts
     (sort_key rc_seq (filter (\<lambda>r. rc_workflow_id r = w \<and> rc_seq r \<ge> fromSeq) (t_receipts t))))"

definition latest_receipt_digest :: "string \<Rightarrow> tables \<Rightarrow> string option" where
  "latest_receipt_digest w t =
     map_option rc_receipt_digest (min_by (\<lambda>r. - rc_seq r) (filter (\<lambda>r. rc_workflow_id r = w) (t_receipts t)))"

definition GetLatestReceiptDigest :: "string \<Rightarrow> string dbm" where
  "GetLatestReceiptDigest w =
     query (\<lambda>t. case latest_receipt_digest w t of None \<Rightarrow> [] | Some s \<Rightarrow> s)"

subsection \<open>Deltas\<close>

definition AppendDelta :: "Delta \<Rightarrow> unit dbm" where
  "AppendDelta r d =
     bindM (txExec (stmt_insert_delta (fk_on d)
       \<lparr>dl_workflow_id = D_WorkflowID r, dl_seq = D_Seq r, dl_delta_json = D_DeltaJSON r,
        dl_delta_hash = D_DeltaHash r, dl_prev_delta_hash = nullString (D_PrevDeltaHash r),
        dl_created_at = now d\<rparr>))
       (\<lambda>_. returnM ()) d"

definition scanDelta :: "delta_row \<Rightarrow> Delta" where
  "scanDelta r = \<lparr>D_WorkflowID = dl_workflow_id r, D_Seq = dl_seq r, D_DeltaJSON = dl_delta_json r,
     D_DeltaHash = dl_delta_hash r, D_PrevDeltaHash = null_str (dl_prev_delta_hash r),
     D_CreatedAt = time_Parse RFC3339Nano (dl_created_at r)\<rparr>"

definition deltas_of :: "string \<Rightarrow> tables \<Rightarrow> delta_row list" where
  "deltas_of w t = sort_key dl_seq (filter (\<lambda>r. dl_workflow_id r = w) (t_deltas t))"

definition GetDeltasSince :: "string \<Rightarrow> int \<Rightarrow> Delta list dbm" where
  "GetDeltasSince w fromSeq = query (\<lambda>t. map scanDelta
     (sort_key dl_seq (filter (\<lambda>r. dl_workflow_id r = w \<and> dl_seq r > fromSeq) (t_deltas t))))"

definition latest_delta_hash :: "string \<Rightarrow> tables \<Rightarrow> string option" where
  "latest_delta_hash w t =
     map_option dl_delta_hash (min_by (\<lambda>r. - dl_seq r) (filter (\<lambda>r. dl_workflow_id r = w) (t_deltas t)))"

definition GetLatestDeltaHash :: "string \<Rightarrow> string dbm" where
  "GetLatestDeltaHash w =
     query (\<lambda>t. case latest_delta_hash w t of None \<Rightarrow> [] | Some s \<Rightarrow> s)"

subsection \<open>Artifacts\<close>

definition SaveArtifact :: "Artifact \<Rightarrow> unit dbm" where
  "SaveArtifact a d =
     bindM (txExec (insertOrIgnoreArtifact (fk_on d)
       \<lparr>ar_digest = A_Digest a, ar_workflow_id = A_WorkflowID a, ar_artifact_json = A_ArtifactJSON a,
        ar_content_ref = nullString (A_ContentRef a), ar_created_at = now d\<rparr>))
       (\<lambda>_. returnM ()) d"

definition scanArtifact :: "artifact_row \<Rightarrow> Artifact" where
  "scanArtifact r = \<lparr>A_Digest = ar_digest r, A_WorkflowID = ar_workflow_id r,
     A_ArtifactJSON = ar_artifact_json r, A_ContentRef = null_str (ar_content_ref r),
     A_CreatedAt = time_Parse RFC3339Nano (ar_created_at r)\<rparr>"

definition GetArtifact :: "string \<Rightarrow> Artifact option dbm" where
  "GetArtifact digest = query (\<lambda>t. map_option scanArtifact (find_row ar_digest digest (t_artifacts t)))"

definition ListArtifacts :: "string \<Rightarrow> Artifact list dbm" where
  "ListArtifacts w = query (\<lambda>t. map scanArtifact
     (sort_key ar_created_at (filter (\<lambda>r. ar_workflow_id r = w) (t_artifacts t))))"

subsection \<open>Sorted rows\<close>

lemma insort_key_last:
  "f a \<le> f x \<Longrightarrow> insort_key f a (ys @ [x]) = insort_key f a ys @ [x]"
  by (induction ys) auto

lemma sort_key_append_max:
  "(\<And>y. y \<in> set xs \<Longrightarrow> f y \<le> f x) \<Longrightarrow> sort_key f (xs @ [x]) = sort_key f xs @ [x]"
  by (induction xs) (auto simp: insort_key_last)

lemma sorted_last_le:
  "sorted (map f ys) \<Longrightarrow> ys \<noteq> [] \<Longrightarrow> y \<in> set ys \<Longrightarrow> f y \<le> f (last ys)"
  by (induction ys) (auto split: if_splits)

lemma last_sort_key:
  "xs \<noteq> [] \<Longrightarrow> last (sort_key f xs) \<in> set xs \<and> (\<forall>y \<in> set xs. f y \<le> f (last (sort_key f xs)))"
proof -
  assume ne: "xs \<noteq> []"
  then have ne': "sort_key f xs \<noteq> []" by (metis length_0_conv length_sort)
  have "last (sort_key f xs) \<in> set (sort_key f xs)" using ne' by (rule last_in_set)
  moreover have "f y \<le> f (last (sort_key f xs))" if "y \<in> set xs" for y
    using sorted_last_le [OF sorted_sort_key ne'] that by simp
  ultimately show ?thesis by simp
qed

lemma min_by_last:
  fixes f :: "'a \<Rightarrow> int"
  assumes "distinct (map f xs)"
  shows "min_by (\<lambda>r. - f r) xs = (if xs = [] then None else Some (last (sort_key f xs)))"
proof (cases "xs = []")
  case False
  let ?l = "last (sort_key f xs)"
  have l: "?l \<in> set xs" "\<And>y. y \<in> set xs \<Longrightarrow> f y \<le> f ?l"
    using last_sort_key [OF False, of f] by auto
  have "min_by (\<lambda>r. - f r) xs = Some ?l"
  proof (rule min_by_unique [OF l(1)])
    fix y assume "y \<in> set xs" and "y \<noteq> ?l"
    then have "f y \<noteq> f ?l" using distinct_key_eq [OF assms] l(1) by blast
    with l(2) [OF \<open>y \<in> set xs\<close>] show "- f ?l < - f y" by simp
  qed
  with False show ?thesis by simp
qed simp

subsection \<open>Linked rows\<close>

fun linked_from :: "('r \<Rightarrow> string) \<Rightarrow> ('r \<Rightarrow> string option) \<Rightarrow> string option \<Rightarrow> 'r list \<Rightarrow> bool" where
  "linked_from dig prev p [] \<longleftrightarrow> True"
| "linked_from dig prev p (r # rs) \<longleftrightarrow> prev r = p \<and> linked_from dig prev (Some (dig r)) rs"

lemma linked_from_append:
  "linked_from dig prev p (rs @ [x]) \<longleftrightarrow>
     linked_from dig prev p rs \<and> prev x = (if rs = [] then p else Some (dig (last rs)))"
  by (induction rs arbitrary: p) auto

text \<open>Following the links back from the end of a linked list yields the list, newest first.\<close>

fun walk_back :: "('r \<Rightarrow> string) \<Rightarrow> ('r \<Rightarrow> string option) \<Rightarrow> nat \<Rightarrow> string option \<Rightarrow> 'r list \<Rightarrow> 'r list" where
  "walk_back dig prev 0 p rs = []"
| "walk_back dig prev (Suc n) None rs = []"
| "walk_back dig prev (Suc n) (Some h) rs =
     (case find_row dig h rs of None \<Rightarrow> [] | Some r \<Rightarrow> r # walk_back dig prev n (prev r) rs)"

lemma walk_back_linked:
  assumes "distinct (map dig all)" and "set rs \<subseteq> set all" and "linked_from dig prev None rs"
    and "length rs \<le> n"
  shows "walk_back dig prev n (if rs = [] then None else Some (dig (last rs))) all = rev rs"
  using assms(2-)
proof (induction rs arbitrary: n rule: rev_induct)
  case Nil
  then show ?case by (cases n) auto
next
  case (snoc x xs)
  then obtain m where n: "n = Suc m" by (cases n) auto
  have "find_row dig (dig x) all = Some x" using assms(1) snoc.prems(1) by (simp add: find_row_in)
  moreover have "prev x = (if xs = [] then None else Some (dig (last xs)))"
    and "linked_from dig prev None xs" using snoc.prems(2) by (simp_all add: linked_from_append)
  ultimately show ?case using snoc.IH [of m] snoc.prems n by simp
qed

locale hash_chain =
  fixes wid :: "'r \<Rightarrow> string" and seq :: "'r \<Rightarrow> int" and dig :: "'r \<Rightarrow> string"
    and prev :: "'r \<Rightarrow> string option"
    and rows_of :: "string \<Rightarrow> 'r list \<Rightarrow> 'r list"
    and latest :: "string \<Rightarrow> 'r list \<Rightarrow> string option"
  assumes rows_of: "rows_of w t = sort_key seq (filter (\<lambda>r. wid r = w) t)"
    and latest: "distinct (map (\<lambda>r. (wid r, seq r)) t) \<Longrightarrow>
       latest w t = (if rows_of w t = [] then None else Some (dig (last (rows_of w t))))"
begin

lemma append_linked:
  assumes "distinct (map (\<lambda>r. (wid r, seq r)) t)"
    and "\<And>w. linked_from dig prev None (rows_of w t)"
    and "\<And>r. r \<in> set t \<Longrightarrow> wid r = wid x \<Longrightarrow> seq r < seq x"
    and "prev x = latest (wid x) t"
  shows "linked_from dig prev None (rows_of w (t @ [x]))"
proof (cases "w = wid x")
  case True
  have "rows_of w (t @ [x]) = rows_of w t @ [x]"
    unfolding rows_of using True assms(3)
    by (simp, subst sort_key_append_max) (auto simp: less_imp_le)
  then show ?thesis
    using assms(1,2,4) True by (simp add: linked_from_append latest)
next
  case False
  then have "rows_of w (t @ [x]) = rows_of w t" by (simp add: rows_of)
  with assms(2) show ?thesis by simp
qed

lemma rows_of_append_max:
  assumes "\<And>r. r \<in> set t \<Longrightarrow> wid r = wid x \<Longrightarrow> seq r < seq x"
  shows "rows_of w (t @ [x]) = rows_of w t @ (if wid x = w then [x] else [])"
proof (cases "wid x = w")
  case True
  then show ?thesis
    unfolding rows_of using assms by (simp, subst sort_key_append_max) (auto simp: less_imp_le)
qed (simp add: rows_of)

lemma linked_all:
  "(\<forall>x \<in> set t. linked_from dig prev None (rows_of (wid x) t)) \<longleftrightarrow>
   (\<forall>w. linked_from dig prev None (rows_of w t))"
proof -
  have "linked_from dig prev None (rows_of w t)" if "w \<notin> wid ` set t" for w
  proof -
    have "filter (\<lambda>r. wid r = w) t = []" using that by (auto simp: filter_empty_conv)
    then show ?thesis by (simp add: rows_of)
  qed
  then show ?thesis by (metis imageE)
qed

lemma walk_all:
  assumes "distinct (map dig t)" and "distinct (map (\<lambda>r. (wid r, seq r)) t)"
    and "linked_from dig prev None (rows_of w t)"
  shows "walk_back dig prev (length t) (latest w t) t = rev (rows_of w t)"
proof -
  have "set (rows_of w t) \<subseteq> set t" and "length (rows_of w t) \<le> length t"
    by (auto simp: rows_of)
  from walk_back_linked [OF assms(1) this(1) assms(3) this(2)] show ?thesis
    by (simp only: latest [OF assms(2)])
qed

end

definition rows_of_receipts :: "string \<Rightarrow> receipt_row list \<Rightarrow> receipt_row list" where
  "rows_of_receipts w rs = sort_key rc_seq (filter (\<lambda>r. rc_workflow_id r = w) rs)"

definition rows_of_deltas :: "string \<Rightarrow> delta_row list \<Rightarrow> delta_row list" where
  "rows_of_deltas w rs = sort_key dl_seq (filter (\<lambda>r. dl_workflow_id r = w) rs)"

definition latest_of_receipts :: "string \<Rightarrow> receipt_row list \<Rightarrow> string option" where
  "latest_of_receipts w rs =
     map_option rc_receipt_digest (min_by (\<lambda>r. - rc_seq r) (filter (\<lambda>r. rc_workflow_id r = w) rs))"

definition latest_of_deltas :: "string \<Rightarrow> delta_row list \<Rightarrow> string option" where
  "latest_of_deltas w rs =
     map_option dl_delta_hash (min_by (\<lambda>r. - dl_seq r) (filter (\<lambda>r. dl_workflow_id r = w) rs))"

lemma distinct_key_filter:
  "distinct (map (\<lambda>r. (wid r, seq r)) t) \<Longrightarrow> distinct (map seq (filter (\<lambda>r. wid r = w) t))"
  by (induction t) (auto simp: image_iff)

interpretation rchain: hash_chain rc_workflow_id rc_seq rc_receipt_digest rc_prev_receipt_digest
    rows_of_receipts latest_of_receipts
proof
  fix w and t :: "receipt_row list"
  show "rows_of_receipts w t = sort_key rc_seq (filter (\<lambda>r. rc_workflow_id r = w) t)"
    by (simp add: rows_of_receipts_def)
  assume "distinct (map rc_key t)"
  from min_by_last [OF distinct_key_filter [OF this, of w]]
  show "latest_of_receipts w t =
      (if rows_of_receipts w t = [] then None else Some (rc_receipt_digest (last (rows_of_receipts w t))))"
    by (simp add: latest_of_receipts_def rows_of_receipts_def)
       (metis length_0_conv length_sort)
qed

interpretation dchain: hash_chain dl_workflow_id dl_seq dl_delta_hash dl_prev_delta_hash
    rows_of_deltas latest_of_deltas
proof
  fix w and t :: "delta_row list"
  show "rows_of_deltas w t = sort_key dl_seq (filter (\<lambda>r. dl_workflow_id r = w) t)"
    by (simp add: rows_of_deltas_def)
  assume "distinct (map dl_key t)"
  from min_by_last [OF distinct_key_filter [OF this, of w]]
  show "latest_of_deltas w t =
      (if rows_of_deltas w t = [] then None else Some (dl_delta_hash (last (rows_of_deltas w t))))"
    by (simp add: latest_of_deltas_def rows_of_deltas_def)
       (metis length_0_conv length_sort)
qed

lemma receipts_of_rows: "receipts_of w t = rows_of_receipts w (t_receipts t)"
  by (simp add: receipts_of_def rows_of_receipts_def)

lemma deltas_of_rows: "deltas_of w t = rows_of_deltas w (t_deltas t)"
  by (simp add: deltas_of_def rows_of_deltas_def)

lemma latest_receipt_rows: "latest_receipt_digest w t = latest_of_receipts w (t_receipts t)"
  by (simp add: latest_receipt_digest_def latest_of_receipts_def)

lemma latest_delta_rows: "latest_delta_hash w t = latest_of_deltas w (t_deltas t)"
  by (simp add: latest_delta_hash_def latest_of_deltas_def)

lemmas chain_rows = receipts_of_rows deltas_of_rows latest_receipt_rows latest_delta_rows

definition receipts_linked :: "tables \<Rightarrow> bool" where
  "receipts_linked t \<longleftrightarrow>
     list_all (\<lambda>r. linked_from rc_receipt_digest rc_prev_receipt_digest None (receipts_of (rc_workflow_id r) t))
       (t_receipts t)"

definition deltas_linked :: "tables \<Rightarrow> bool" where
  "deltas_linked t \<longleftrightarrow>
     list_all (\<lambda>r. linked_from dl_delta_hash dl_prev_delta_hash None (deltas_of (dl_workflow_id r) t))
       (t_deltas t)"

lemma receipts_linked_all:
  "receipts_linked t \<longleftrightarrow>
     (\<forall>w. linked_from rc_receipt_digest rc_prev_receipt_digest None (receipts_of w t))"
  unfolding receipts_linked_def chain_rows list_all_iff by (rule rchain.linked_all)

lemma deltas_linked_all:
  "deltas_linked t \<longleftrightarrow>
     (\<forall>w. linked_from dl_delta_hash dl_prev_delta_hash None (deltas_of w t))"
  unfolding deltas_linked_def chain_rows list_all_iff by (rule dchain.linked_all)

end
