(* ===== verification/Commit.thy ===== *)
theory Commit
  imports Chain
begin

section \<open>Atomic commits: internal/store/commit.go\<close>

text \<open>
  The three operations that move a workflow: \<open>CommitTransition\<close>, \<open>CommitArtifact\<close> and
  \<open>CommitGateResolution\<close>, each one transaction. Their specification is \<open>transition_tables\<close>,
  the pure effect of one transition on the tables, guarded by \<open>transition_ok\<close> (the
  constraints of the schema); the refinement lemmas say that a commit that returns
  \<^verbatim>\<open>nil\<close> had exactly this effect and that any other left the committed tables alone.
  \<^verbatim>\<open>telemetry.TraceCommit\<close> returns the error of the function it runs.
\<close>

record TransitionResult =
  TR_OK :: bool
  TR_StateJSON :: string
  TR_StateHash :: string
  TR_ReceiptJSON :: string
  TR_ReceiptDigest :: string
  TR_PolicyOK :: bool
  TR_Violations :: string
  TR_Seq :: int
  TR_Stage :: string

text \<open>\<open>CP_Patches\<close> is the slice of maps; \<^verbatim>\<open>None\<close> is the nil slice, which marshals to \<^verbatim>\<open>null\<close>.\<close>

record CommitParams =
  CP_WorkflowID :: string
  CP_Result :: TransitionResult
  CP_Patches :: "json list option"
  CP_Kind :: string
  CP_ActorID :: string
  CP_SnapshotEvery :: int

record ArtifactCommitParams =
  AP_WorkflowID :: string
  AP_ArtifactJSON :: string
  AP_ArtifactDigest :: string
  AP_Result :: TransitionResult
  AP_ActorID :: string
  AP_SnapshotEvery :: int

definition hashBytes :: "crypto \<Rightarrow> string \<Rightarrow> string" where
  "hashBytes C b = ''sha256:'' @ sha256_hex C b"

subsection \<open>The rows of one transition\<close>

definition patches_json :: "json list option \<Rightarrow> json" where
  "patches_json ps = (case ps of None \<Rightarrow> JNull | Some l \<Rightarrow> JArr l)"

text \<open>\<^verbatim>\<open>receiptRecord["state_before_hash"].(string)\<close> of the receipt, when it parses and has one.\<close>

definition before_hash :: "string \<Rightarrow> string option" where
  "before_hash receiptJSON =
     (case unmarshal_map receiptJSON of None \<Rightarrow> None | Some m \<Rightarrow> get_string m ''state_before_hash'')"

definition deltaBody ::
  "string \<Rightarrow> string \<Rightarrow> json \<Rightarrow> string list \<Rightarrow> TransitionResult \<Rightarrow> (string \<times> json) list" where
  "deltaBody kind actor patches digests res =
     (let body = go_map
        [(''delta_type'', JStr ''acp.delta.v1''), (''seq'', JInt (TR_Seq res)), (''kind'', JStr kind),
         (''actor'', JStr actor), (''patches'', patches), (''artifact_digests'', JArr (map JStr digests)),
         (''state_before_hash'', JStr []), (''state_after_hash'', JStr (TR_StateHash res)),
         (''receipt_digest'', JStr (TR_ReceiptDigest res))]
      in case before_hash (TR_ReceiptJSON res) of
           None \<Rightarrow> body
         | Some sbh \<Rightarrow> map_put ''state_before_hash'' (JStr sbh) body)"

definition gateDeltaBody :: "string \<Rightarrow> TransitionResult \<Rightarrow> (string \<times> json) list" where
  "gateDeltaBody resolvedBy res =
     go_map [(''delta_type'', JStr ''acp.delta.v1''), (''seq'', JInt (TR_Seq res)),
       (''kind'', JStr ''gate_resume''), (''actor'', JStr resolvedBy), (''patches'', JArr []),
       (''artifact_digests'', JArr []), (''state_after_hash'', JStr (TR_StateHash res)),
       (''receipt_digest'', JStr (TR_ReceiptDigest res))]"

definition deltaHash_of :: "crypto \<Rightarrow> (string \<times> json) list \<Rightarrow> string" where
  "deltaHash_of C body = hashBytes C (marshal (JObj body))"

definition deltaJSON_of :: "crypto \<Rightarrow> (string \<times> json) list \<Rightarrow> (string \<times> json) list \<Rightarrow> string" where
  "deltaJSON_of C body extra =
     marshal (JObj (go_map ([(''delta'', JObj body), (''delta_hash'', JStr (deltaHash_of C body))] @ extra)))"

definition stage_of :: "TransitionResult \<Rightarrow> string" where
  "stage_of res =
     (if TR_Stage res \<noteq> [] then TR_Stage res
      else case unmarshal_map (TR_StateJSON res) of
             None \<Rightarrow> []
           | Some m \<Rightarrow> (case get_string m ''stage'' of None \<Rightarrow> [] | Some s \<Rightarrow> s))"

definition new_receipt :: "string \<Rightarrow> TransitionResult \<Rightarrow> string option \<Rightarrow> int \<Rightarrow> receipt_row" where
  "new_receipt w res prev ts =
     \<lparr>rc_workflow_id = w, rc_seq = TR_Seq res, rc_receipt_digest = TR_ReceiptDigest res,
      rc_receipt_json = TR_ReceiptJSON res, rc_prev_receipt_digest = prev, rc_created_at = ts\<rparr>"

definition new_delta :: "string \<Rightarrow> int \<Rightarrow> string \<Rightarrow> string \<Rightarrow> string option \<Rightarrow> int \<Rightarrow> delta_row" where
  "new_delta w seq djson dhash prev ts =
     \<lparr>dl_workflow_id = w, dl_seq = seq, dl_delta_json = djson, dl_delta_hash = dhash,
      dl_prev_delta_hash = prev, dl_created_at = ts\<rparr>"

definition new_snapshot :: "string \<Rightarrow> TransitionResult \<Rightarrow> int \<Rightarrow> snapshot_row" where
  "new_snapshot w res ts =
     \<lparr>sn_workflow_id = w, sn_seq = TR_Seq res, sn_state_json = TR_StateJSON res,
      sn_state_hash = TR_StateHash res, sn_created_at = ts\<rparr>"

definition advance_workflow :: "TransitionResult \<Rightarrow> int \<Rightarrow> workflow_row \<Rightarrow> workflow_row" where
  "advance_workflow res ts r =
     r\<lparr>wf_stage := stage_of res, wf_state_hash := TR_StateHash res, wf_current_seq := TR_Seq res,
       wf_snapshot_seq := TR_Seq res, wf_updated_at := ts\<rparr>"

subsection \<open>The operations\<close>

text \<open>The function literals passed to \<^verbatim>\<open>d.Tx\<close>, closed over the handle's settings and the time.\<close>

definition commit_transition_body :: "crypto \<Rightarrow> CommitParams \<Rightarrow> bool \<Rightarrow> int \<Rightarrow> unit dbm" where
  "commit_transition_body C p fk ts =
     (let w = CP_WorkflowID p; res = CP_Result p in
      bindM (wrapM ''get workflow for commit'' (bindM
            (txQuery (\<lambda>t. map_option (\<lambda>r. (wf_current_seq r, wf_snapshot_seq r)) (find_row wf_id w (t_workflows t))))
            (\<lambda>r. case r of None \<Rightarrow> failM ErrNoRows | Some cs \<Rightarrow> returnM cs)))
          (\<lambda>(currentSeq, snapshotSeq).
           bindM (wrapM ''get prev receipt'' (txQuery (latest_receipt_digest w))) (\<lambda>prevReceiptDigest.
           bindM (wrapM ''get prev delta'' (txQuery (latest_delta_hash w))) (\<lambda>prevDeltaHash.
           bindM (wrapM ''insert receipt''
             (txExec (stmt_insert_receipt fk (new_receipt w res prevReceiptDigest ts)))) (\<lambda>_.
           let patches = patches_json (CP_Patches p);
               body = deltaBody (CP_Kind p) (CP_ActorID p) patches [] res;
               deltaJSON = deltaJSON_of C body [(''patches'', JStr (marshal patches))] in
           bindM (wrapM ''insert delta''
             (txExec (stmt_insert_delta fk (new_delta w (TR_Seq res) deltaJSON (deltaHash_of C body) prevDeltaHash ts)))) (\<lambda>_.
           bindM (wrapM ''insert snapshot'' (txExec (insertOrReplaceSnapshot fk (new_snapshot w res ts)))) (\<lambda>_.
           bindM (wrapM ''update workflow''
             (txExec (stmt_update_workflow (\<lambda>r. wf_id r = w) (advance_workflow res ts)))) (\<lambda>_.
           returnM ()))))))))"

definition commitTransitionInner :: "crypto \<Rightarrow> CommitParams \<Rightarrow> unit dbm" where
  "commitTransitionInner C p d = Tx (commit_transition_body C p (fk_on d) (now d)) d"

definition CommitTransition :: "crypto \<Rightarrow> CommitParams \<Rightarrow> unit dbm" where
  "CommitTransition C p = commitTransitionInner C p"

text \<open>\<^verbatim>\<open>_ = txQueryRow(...).Scan(&v)\<close>: the error is dropped and the variable keeps its zero value.\<close>

definition readIgnored :: "(tables \<Rightarrow> 'a) \<Rightarrow> 'a \<Rightarrow> 'a dbm" where
  "readIgnored f zero =
     bindM (tryM (txQuery f)) (\<lambda>r. case r of Inl e \<Rightarrow> returnM zero | Inr v \<Rightarrow> returnM v)"

definition workflow_seqs :: "string \<Rightarrow> tables \<Rightarrow> int \<times> int" where
  "workflow_seqs w t =
     (case find_row wf_id w (t_workflows t) of
        None \<Rightarrow> (0, 0) | Some r \<Rightarrow> (wf_current_seq r, wf_snapshot_seq r))"

definition commit_artifact_body :: "crypto \<Rightarrow> ArtifactCommitParams \<Rightarrow> bool \<Rightarrow> int \<Rightarrow> unit dbm" where
  "commit_artifact_body C p fk ts =
     (let w = AP_WorkflowID p; res = AP_Result p in
      bindM (wrapM ''insert artifact''
            (txExec (insertOrIgnoreArtifactNoRef fk (AP_ArtifactDigest p) w (AP_ArtifactJSON p) ts))) (\<lambda>_.
          bindM (readIgnored (workflow_seqs w) (0, 0)) (\<lambda>(currentSeq, snapshotSeq).
          bindM (readIgnored (latest_receipt_digest w) None) (\<lambda>prevReceiptDigest.
          bindM (readIgnored (latest_delta_hash w) None) (\<lambda>prevDeltaHash.
          bindM (wrapM ''insert artifact receipt''
            (txExec (stmt_insert_receipt fk (new_receipt w res prevReceiptDigest ts)))) (\<lambda>_.
          let body = deltaBody ''artifact_committed'' (AP_ActorID p) (JArr []) [AP_ArtifactDigest p] res in
          bindM (wrapM ''insert artifact delta''
            (txExec (stmt_insert_delta fk
               (new_delta w (TR_Seq res) (deltaJSON_of C body []) (deltaHash_of C body) prevDeltaHash ts)))) (\<lambda>_.
          bindM (wrapM ''insert artifact snapshot'' (txExec (insertOrReplaceSnapshot fk (new_snapshot w res ts)))) (\<lambda>_.
          bindM (wrapM ''update workflow after artifact''
            (txExec (stmt_update_workflow (\<lambda>r. wf_id r = w) (advance_workflow res ts)))) (\<lambda>_.
          returnM ())))))))))"

definition CommitArtifact :: "crypto \<Rightarrow> ArtifactCommitParams \<Rightarrow> unit dbm" where
  "CommitArtifact C p d = Tx (commit_artifact_body C p (fk_on d) (now d)) d"

definition resolve_gate_row :: "string \<Rightarrow> int \<Rightarrow> string \<Rightarrow> gate_row \<Rightarrow> gate_row" where
  "resolve_gate_row status ts who g =
     g\<lparr>gt_status := status, gt_resolved_at := Some ts, gt_resolved_by := Some who\<rparr>"

definition block_workflow :: "TransitionResult \<Rightarrow> int \<Rightarrow> workflow_row \<Rightarrow> workflow_row" where
  "block_workflow res ts r =
     r\<lparr>wf_stage := TR_Stage res, wf_state_hash := TR_StateHash res, wf_current_seq := TR_Seq res,
       wf_updated_at := ts\<rparr>"

definition commit_gate_body ::
  "crypto \<Rightarrow> string \<Rightarrow> string \<Rightarrow> string \<Rightarrow> string \<Rightarrow> TransitionResult \<Rightarrow> bool \<Rightarrow> int \<Rightarrow> unit dbm" where
  "commit_gate_body C w token resolution resolvedBy res fk ts =
      (bindM (wrapM ''resolve gate''
            (txExec (stmt_update_gate (\<lambda>g. gt_token g = token) (resolve_gate_row resolution ts resolvedBy)))) (\<lambda>_.
          if \<not> TR_OK res then
            bindM (txExec (stmt_update_workflow (\<lambda>r. wf_id r = w) (block_workflow res ts))) (\<lambda>_. returnM ())
          else
          bindM (readIgnored (\<lambda>t. snd (workflow_seqs w t)) 0) (\<lambda>snapshotSeq.
          bindM (readIgnored (latest_receipt_digest w) None) (\<lambda>prevReceiptDigest.
          bindM (readIgnored (latest_delta_hash w) None) (\<lambda>prevDeltaHash.
          bindM (wrapM ''gate receipt''
            (txExec (stmt_insert_receipt fk (new_receipt w res prevReceiptDigest ts)))) (\<lambda>_.
          let body = gateDeltaBody resolvedBy res in
          bindM (wrapM ''gate delta''
            (txExec (stmt_insert_delta fk
               (new_delta w (TR_Seq res) (deltaJSON_of C body []) (deltaHash_of C body) prevDeltaHash ts)))) (\<lambda>_.
          bindM (wrapM ''gate snapshot'' (txExec (insertOrReplaceSnapshot fk (new_snapshot w res ts)))) (\<lambda>_.
          bindM (txExec (stmt_update_workflow (\<lambda>r. wf_id r = w) (advance_workflow res ts))) (\<lambda>_.
          returnM ())))))))))"

definition CommitGateResolution ::
  "crypto \<Rightarrow> string \<Rightarrow> string \<Rightarrow> string \<Rightarrow> string \<Rightarrow> TransitionResult \<Rightarrow> int \<Rightarrow> unit dbm" where
  "CommitGateResolution C w token resolution resolvedBy res snapshotEvery d =
     Tx (commit_gate_body C w token resolution resolvedBy res (fk_on d) (now d)) d"

subsection \<open>Specification: the effect of one transition\<close>

definition transition_ok :: "bool \<Rightarrow> string \<Rightarrow> TransitionResult \<Rightarrow> tables \<Rightarrow> bool" where
  "transition_ok fk w res t \<longleftrightarrow>
     \<not> key_used rc_key (w, TR_Seq res) (t_receipts t) \<and>
     \<not> key_used rc_receipt_digest (TR_ReceiptDigest res) (t_receipts t) \<and>
     \<not> key_used dl_key (w, TR_Seq res) (t_deltas t) \<and> fk_workflow fk t w"

definition transition_tables ::
  "string \<Rightarrow> TransitionResult \<Rightarrow> string \<Rightarrow> string \<Rightarrow> string option \<Rightarrow> string option \<Rightarrow> int \<Rightarrow> tables \<Rightarrow> tables" where
  "transition_tables w res djson dhash prevR prevD ts t =
     t\<lparr>t_receipts := t_receipts t @ [new_receipt w res prevR ts],
       t_deltas := t_deltas t @ [new_delta w (TR_Seq res) djson dhash prevD ts],
       t_snapshots := replace_row sn_key (new_snapshot w res ts) (t_snapshots t),
       t_workflows := update_where (\<lambda>r. wf_id r = w) (advance_workflow res ts) (t_workflows t)\<rparr>"

text \<open>The four writes every commit ends with.\<close>

definition writes ::
  "bool \<Rightarrow> string \<Rightarrow> TransitionResult \<Rightarrow> string \<Rightarrow> string \<Rightarrow> string option \<Rightarrow> string option \<Rightarrow> int
   \<Rightarrow> dbs \<Rightarrow> dbs \<Rightarrow> bool" where
  "writes fk w res djson dhash prevR prevD ts d1 d5 \<longleftrightarrow>
     (\<exists>n1 n2 n3 n4 d2 d3 d4.
        txExec (stmt_insert_receipt fk (new_receipt w res prevR ts)) d1 = (Ok n1, d2) \<and>
        txExec (stmt_insert_delta fk (new_delta w (TR_Seq res) djson dhash prevD ts)) d2 = (Ok n2, d3) \<and>
        txExec (insertOrReplaceSnapshot fk (new_snapshot w res ts)) d3 = (Ok n3, d4) \<and>
        txExec (stmt_update_workflow (\<lambda>r. wf_id r = w) (advance_workflow res ts)) d4 = (Ok n4, d5))"

lemma writes_effect:
  assumes "writes fk w res djson dhash prevR prevD ts d1 d5"
  shows "transition_ok fk w res (tabs d1) \<and>
    tabs d5 = transition_tables w res djson dhash prevR prevD ts (tabs d1) \<and> \<not> tx_aborted d1"
proof -
  obtain n1 n2 n3 n4 d2 d3 d4 where
    1: "txExec (stmt_insert_receipt fk (new_receipt w res prevR ts)) d1 = (Ok n1, d2)" and
    2: "txExec (stmt_insert_delta fk (new_delta w (TR_Seq res) djson dhash prevD ts)) d2 = (Ok n2, d3)" and
    3: "txExec (insertOrReplaceSnapshot fk (new_snapshot w res ts)) d3 = (Ok n3, d4)" and
    4: "txExec (stmt_update_workflow (\<lambda>r. wf_id r = w) (advance_workflow res ts)) d4 = (Ok n4, d5)"
    using assms by (auto simp: writes_def)
  have r: "transition_ok fk w res (tabs d1) \<or> key_used dl_key (w, TR_Seq res) (t_deltas (tabs d1))"
    and t2: "tabs d2 = (tabs d1)\<lparr>t_receipts := t_receipts (tabs d1) @ [new_receipt w res prevR ts]\<rparr>"
    and na: "\<not> tx_aborted d1"
    using txExec_OkD [OF 1]
    by (auto simp: stmt_insert_receipt_def transition_ok_def new_receipt_def split: if_splits)
  have d: "\<not> key_used dl_key (w, TR_Seq res) (t_deltas (tabs d2))"
    and t3: "tabs d3 = (tabs d2)\<lparr>t_deltas := t_deltas (tabs d2) @ [new_delta w (TR_Seq res) djson dhash prevD ts]\<rparr>"
    using txExec_OkD [OF 2] by (auto simp: stmt_insert_delta_def new_delta_def split: if_splits)
  have t4: "tabs d4 = (tabs d3)\<lparr>t_snapshots := replace_row sn_key (new_snapshot w res ts) (t_snapshots (tabs d3))\<rparr>"
    using txExec_OkD [OF 3] by (auto simp: insertOrReplaceSnapshot_def split: if_splits)
  have "tabs d5 = (tabs d4)\<lparr>t_workflows :=
      update_where (\<lambda>r. wf_id r = w) (advance_workflow res ts) (t_workflows (tabs d4))\<rparr>"
    using txExec_OkD [OF 4] by (auto simp: stmt_update_workflow_def)
  with r d na show ?thesis by (simp add: t2 t3 t4 transition_tables_def)
qed

lemma writes_live:
  assumes "transition_ok fk w res (tabs d)" and "faults d = []" and "\<not> tx_aborted d"
  shows "writes fk w res djson dhash prevR prevD ts d
     (d\<lparr>tabs := transition_tables w res djson dhash prevR prevD ts (tabs d)\<rparr>)"
  using assms
  by (simp add: writes_def transition_ok_def stmt_insert_receipt_def new_receipt_def
      stmt_insert_delta_def new_delta_def insertOrReplaceSnapshot_def new_snapshot_def
      stmt_update_workflow_def fk_workflow_def transition_tables_def)

lemma readIgnored_Ok:
  "readIgnored f z d = (Ok v, d') \<Longrightarrow>
   tabs d' = tabs d \<and> (v = f (tabs d) \<and> tx_aborted d' = tx_aborted d \<or> v = z \<and> (IsPostgres d \<longrightarrow> tx_aborted d'))"
  by (auto simp: readIgnored_def step_Ok split: sum.splits
      dest: txQuery_OkD txQuery_ErrD txQuery_Err_aborts)

lemma readIgnored_live:
  "faults d = [] \<Longrightarrow> \<not> tx_aborted d \<Longrightarrow> readIgnored f z d = (Ok (f (tabs d)), d)"
  by (simp add: readIgnored_def tryM_def bindM_def returnM_def)

lemma framed_readIgnored: "framed (readIgnored f z)"
  unfolding readIgnored_def by (intro framed_rules)

lemma framed_let: "(\<And>x. framed (f x)) \<Longrightarrow> framed (let x = v in f x)"
  by simp

lemma framed_prod: "(\<And>x y. framed (f x y)) \<Longrightarrow> framed (case v of (x, y) \<Rightarrow> f x y)"
  by (simp split: prod.split)

lemmas commit_framed = framed_rules framed_readIgnored framed_let framed_prod

subsection \<open>CommitTransition implements the specification\<close>

definition ct_body :: "CommitParams \<Rightarrow> (string \<times> json) list" where
  "ct_body p = deltaBody (CP_Kind p) (CP_ActorID p) (patches_json (CP_Patches p)) [] (CP_Result p)"

definition commit_spec :: "crypto \<Rightarrow> CommitParams \<Rightarrow> int \<Rightarrow> tables \<Rightarrow> tables" where
  "commit_spec C p ts t =
     transition_tables (CP_WorkflowID p) (CP_Result p)
       (deltaJSON_of C (ct_body p) [(''patches'', JStr (marshal (patches_json (CP_Patches p))))])
       (deltaHash_of C (ct_body p))
       (latest_receipt_digest (CP_WorkflowID p) t) (latest_delta_hash (CP_WorkflowID p) t) ts t"

definition commit_guard :: "CommitParams \<Rightarrow> bool \<Rightarrow> tables \<Rightarrow> bool" where
  "commit_guard p fk t \<longleftrightarrow>
     key_used wf_id (CP_WorkflowID p) (t_workflows t) \<and> transition_ok fk (CP_WorkflowID p) (CP_Result p) t"

lemma framed_commit_transition: "framed (commit_transition_body C p fk ts)"
  unfolding commit_transition_body_def Let_def by (intro commit_framed)

lemma commit_transition_Ok:
  assumes "commit_transition_body C p fk ts d1 = (Ok u, d2)"
  shows "commit_guard p fk (tabs d1) \<and> tabs d2 = commit_spec C p ts (tabs d1)"
proof -
  let ?w = "CP_WorkflowID p" and ?r = "CP_Result p"
  let ?dj = "deltaJSON_of C (ct_body p) [(''patches'', JStr (marshal (patches_json (CP_Patches p))))]"
  obtain r e1 pr e2 pd e3 where
    q1: "txQuery (\<lambda>t. map_option (\<lambda>r. (wf_current_seq r, wf_snapshot_seq r)) (find_row wf_id ?w (t_workflows t))) d1
         = (Ok (Some r), e1)" and
    q2: "txQuery (latest_receipt_digest ?w) e1 = (Ok pr, e2)" and
    q3: "txQuery (latest_delta_hash ?w) e2 = (Ok pd, e3)" and
    ws: "writes fk ?w ?r ?dj (deltaHash_of C (ct_body p)) pr pd ts e3 d2"
    using assms
    by (auto simp: commit_transition_body_def step_Ok Let_def ct_body_def writes_def split: option.splits prod.splits)
  have t1: "tabs e1 = tabs d1" and fw: "find_row wf_id ?w (t_workflows (tabs d1)) \<noteq> None"
    using txQuery_OkD [OF q1] by (auto simp: map_option_case split: option.splits)
  have t2: "tabs e2 = tabs d1" and pr: "pr = latest_receipt_digest ?w (tabs d1)"
    using txQuery_OkD [OF q2] t1 by auto
  have t3: "tabs e3 = tabs d1" and pd: "pd = latest_delta_hash ?w (tabs d1)"
    using txQuery_OkD [OF q3] t2 by auto
  show ?thesis
    using writes_effect [OF ws] fw by (simp add: commit_guard_def commit_spec_def t3 pr pd find_row_None)
qed

lemma commit_transition_step:
  "CommitTransition C p d = (r, d') \<Longrightarrow>
   (case r of
      Ok u \<Rightarrow> commit_guard p (fk_on d) (pool_tables d) \<and> pool_tables d' = commit_spec C p (now d) (pool_tables d)
    | _ \<Rightarrow> pool_tables d' = pool_tables d)"
  unfolding CommitTransition_def commitTransitionInner_def
  by (rule tx.run_step [OF framed_commit_transition]) (blast dest: commit_transition_Ok)+

subsection \<open>Without engine failures a commit succeeds exactly when the constraints allow it\<close>

abbreviation (input) in_tx :: "dbs \<Rightarrow> dbs" where
  "in_tx d \<equiv> d\<lparr>saved := Some (tabs d), tx_aborted := False\<rparr>"

lemma writes_run:
  assumes "writes fk w res djson dhash prevR prevD ts d1 d5"
  shows "bindM (wrapM m1 (txExec (stmt_insert_receipt fk (new_receipt w res prevR ts)))) (\<lambda>_.
         bindM (wrapM m2 (txExec (stmt_insert_delta fk (new_delta w (TR_Seq res) djson dhash prevD ts)))) (\<lambda>_.
         bindM (wrapM m3 (txExec (insertOrReplaceSnapshot fk (new_snapshot w res ts)))) (\<lambda>_.
         bindM (wrapM m4 (txExec (stmt_update_workflow (\<lambda>r. wf_id r = w) (advance_workflow res ts)))) (\<lambda>_.
         returnM ())))) d1 = (Ok (), d5)"
  using assms by (auto simp: writes_def returnM_def)

lemma Tx_live_Ok:
  assumes "quiet d" and "fn (in_tx d) = (Ok a, (in_tx d)\<lparr>tabs := t\<rparr>)"
  shows "Tx fn d = (Ok a, d\<lparr>tabs := t\<rparr>)"
  using assms by (simp add: Tx_live quiet_def)

lemma commit_transition_live:
  assumes "quiet d" and "commit_guard p (fk_on d) (tabs d)"
  shows "CommitTransition C p d = (Ok (), d\<lparr>tabs := commit_spec C p (now d) (tabs d)\<rparr>)"
proof -
  let ?w = "CP_WorkflowID p" and ?r = "CP_Result p" and ?d = "in_tx d"
  let ?dj = "deltaJSON_of C (ct_body p) [(''patches'', JStr (marshal (patches_json (CP_Patches p))))]"
  have f: "faults ?d = []" "\<not> tx_aborted ?d" using assms(1) by (simp_all add: quiet_def)
  obtain row where row: "find_row wf_id ?w (t_workflows (tabs d)) = Some row"
    using assms(2) by (auto simp: commit_guard_def key_used_find)
  have ws: "writes (fk_on d) ?w ?r ?dj (deltaHash_of C (ct_body p)) (latest_receipt_digest ?w (tabs d))
      (latest_delta_hash ?w (tabs d)) (now d) ?d (?d\<lparr>tabs := commit_spec C p (now d) (tabs d)\<rparr>)"
    using writes_live [of "fk_on d" ?w ?r ?d] assms(2) f
    by (simp add: commit_guard_def commit_spec_def)
  have "commit_transition_body C p (fk_on d) (now d) ?d =
      (Ok (), ?d\<lparr>tabs := commit_spec C p (now d) (tabs d)\<rparr>)"
    unfolding commit_transition_body_def
    using f row writes_run [OF ws] by (simp add: ct_body_def returnM_def Let_def)
  with Tx_live_Ok [OF assms(1)] show ?thesis
    by (simp add: CommitTransition_def commitTransitionInner_def)
qed

subsection \<open>CommitArtifact and CommitGateResolution\<close>

definition add_artifact :: "ArtifactCommitParams \<Rightarrow> int \<Rightarrow> tables \<Rightarrow> tables" where
  "add_artifact p ts t = t\<lparr>t_artifacts := insert_or_ignore ar_digest
     \<lparr>ar_digest = AP_ArtifactDigest p, ar_workflow_id = AP_WorkflowID p, ar_artifact_json = AP_ArtifactJSON p,
      ar_content_ref = None, ar_created_at = ts\<rparr> (t_artifacts t)\<rparr>"

definition ca_body :: "ArtifactCommitParams \<Rightarrow> (string \<times> json) list" where
  "ca_body p = deltaBody ''artifact_committed'' (AP_ActorID p) (JArr []) [AP_ArtifactDigest p] (AP_Result p)"

definition artifact_spec ::
  "crypto \<Rightarrow> ArtifactCommitParams \<Rightarrow> int \<Rightarrow> string option \<Rightarrow> string option \<Rightarrow> tables \<Rightarrow> tables" where
  "artifact_spec C p ts pr pd t =
     transition_tables (AP_WorkflowID p) (AP_Result p) (deltaJSON_of C (ca_body p) [])
       (deltaHash_of C (ca_body p)) pr pd ts (add_artifact p ts t)"

definition resolve_gate :: "string \<Rightarrow> string \<Rightarrow> string \<Rightarrow> int \<Rightarrow> tables \<Rightarrow> tables" where
  "resolve_gate token resolution resolvedBy ts t =
     t\<lparr>t_gates := update_where (\<lambda>g. gt_token g = token) (resolve_gate_row resolution ts resolvedBy) (t_gates t)\<rparr>"

definition gate_spec ::
  "crypto \<Rightarrow> string \<Rightarrow> string \<Rightarrow> string \<Rightarrow> string \<Rightarrow> TransitionResult \<Rightarrow> int \<Rightarrow> string option \<Rightarrow> string option
   \<Rightarrow> tables \<Rightarrow> tables" where
  "gate_spec C w token resolution resolvedBy res ts pr pd t =
     (let t1 = resolve_gate token resolution resolvedBy ts t; body = gateDeltaBody resolvedBy res in
      if TR_OK res
      then transition_tables w res (deltaJSON_of C body []) (deltaHash_of C body) pr pd ts t1
      else t1\<lparr>t_workflows := update_where (\<lambda>r. wf_id r = w) (block_workflow res ts) (t_workflows t1)\<rparr>)"

lemma framed_commit_artifact: "framed (commit_artifact_body C p fk ts)"
  unfolding commit_artifact_body_def Let_def by (intro commit_framed)

lemma framed_commit_gate: "framed (commit_gate_body C w tok rs who res fk ts)"
  unfolding commit_gate_body_def Let_def by (intro commit_framed)

lemma add_artifact_simps [simp]:
  "t_receipts (add_artifact p ts t) = t_receipts t" "t_deltas (add_artifact p ts t) = t_deltas t"
  "t_workflows (add_artifact p ts t) = t_workflows t" "t_snapshots (add_artifact p ts t) = t_snapshots t"
  by (simp_all add: add_artifact_def)

lemma resolve_gate_simps [simp]:
  "t_receipts (resolve_gate k rs who ts t) = t_receipts t" "t_deltas (resolve_gate k rs who ts t) = t_deltas t"
  "t_workflows (resolve_gate k rs who ts t) = t_workflows t" "t_snapshots (resolve_gate k rs who ts t) = t_snapshots t"
  by (simp_all add: resolve_gate_def)

lemma latest_only_rows [simp]:
  "latest_receipt_digest w (add_artifact p ts t) = latest_receipt_digest w t"
  "latest_delta_hash w (add_artifact p ts t) = latest_delta_hash w t"
  "latest_receipt_digest w (resolve_gate k rs who ts t) = latest_receipt_digest w t"
  "latest_delta_hash w (resolve_gate k rs who ts t) = latest_delta_hash w t"
  by (simp_all add: chain_rows)

text \<open>Two reads whose errors are dropped: on Postgres, a later write that succeeds shows they did.\<close>

definition reads :: "bool \<Rightarrow> tables \<Rightarrow> string \<Rightarrow> string option \<Rightarrow> string option \<Rightarrow> bool" where
  "reads pg t w pr pd \<longleftrightarrow>
     (pr = latest_receipt_digest w t \<or> pr = None \<and> \<not> pg) \<and>
     (pd = latest_delta_hash w t \<or> pd = None \<and> \<not> pg)"

lemma driver_readIgnored: "readIgnored f z d = (r, d') \<Longrightarrow> IsPostgres d' = IsPostgres d"
  using framedD [OF framed_readIgnored] by (fastforce simp: frame_def IsPostgres_def)

lemma readIgnored_aborted: "tx_aborted d \<Longrightarrow> readIgnored g y d = (Ok x, d') \<Longrightarrow> tx_aborted d'"
  by (auto simp: readIgnored_def step_Ok txQuery_def split: sum.splits)

lemma reads_three:
  assumes "readIgnored f z d1 = (Ok v, d2)" and "readIgnored (latest_receipt_digest w) None d2 = (Ok pr, d3)"
    and "readIgnored (latest_delta_hash w) None d3 = (Ok pd, d4)" and "\<not> tx_aborted d4"
  shows "tabs d4 = tabs d1 \<and> reads (IsPostgres d1) (tabs d1) w pr pd"
proof -
  have pg: "IsPostgres d2 = IsPostgres d1" "IsPostgres d3 = IsPostgres d1"
    using assms(1,2) by (simp_all add: driver_readIgnored)
  have "\<not> tx_aborted d3" using assms(3,4) by (blast dest: readIgnored_aborted)
  then show ?thesis
    using readIgnored_Ok [OF assms(1)] readIgnored_Ok [OF assms(2)] readIgnored_Ok [OF assms(3)] pg assms(4)
    by (auto simp: reads_def)
qed

lemma driver_txExec: "txExec f d = (r, d') \<Longrightarrow> IsPostgres d' = IsPostgres d"
  using framedD [OF framed_txExec] by (fastforce simp: frame_def IsPostgres_def)

lemma transition_ok_frame [simp]:
  "transition_ok fk w res (add_artifact p ts t) = transition_ok fk w res t"
  "transition_ok fk w res (resolve_gate k rs who ts t) = transition_ok fk w res t"
  by (simp_all add: transition_ok_def fk_workflow_def)

lemma commit_artifact_Ok:
  assumes "commit_artifact_body C p fk ts d1 = (Ok u, d2)"
  shows "\<exists>pr pd. reads (IsPostgres d1) (tabs d1) (AP_WorkflowID p) pr pd \<and>
     transition_ok fk (AP_WorkflowID p) (AP_Result p) (tabs d1) \<and>
     tabs d2 = artifact_spec C p ts pr pd (tabs d1)"
proof -
  let ?w = "AP_WorkflowID p" and ?r = "AP_Result p"
  obtain n e1 v e2 pr e3 pd e4 where
    a: "txExec (insertOrIgnoreArtifactNoRef fk (AP_ArtifactDigest p) ?w (AP_ArtifactJSON p) ts) d1 = (Ok n, e1)" and
    r1: "readIgnored (workflow_seqs ?w) (0, 0) e1 = (Ok v, e2)" and
    r2: "readIgnored (latest_receipt_digest ?w) None e2 = (Ok pr, e3)" and
    r3: "readIgnored (latest_delta_hash ?w) None e3 = (Ok pd, e4)" and
    ws: "writes fk ?w ?r (deltaJSON_of C (ca_body p) []) (deltaHash_of C (ca_body p)) pr pd ts e4 d2"
    using assms
    by (auto simp: commit_artifact_body_def step_Ok Let_def ca_body_def writes_def split: prod.splits)
  have e1: "tabs e1 = add_artifact p ts (tabs d1)"
    using txExec_OkD [OF a]
    by (auto simp: insertOrIgnoreArtifactNoRef_def insertOrIgnoreArtifact_def add_artifact_def
        insert_or_ignore_def split: if_splits)
  have w: "transition_ok fk ?w ?r (tabs e4)" "\<not> tx_aborted e4"
      "tabs d2 = transition_tables ?w ?r (deltaJSON_of C (ca_body p) []) (deltaHash_of C (ca_body p)) pr pd ts (tabs e4)"
    using writes_effect [OF ws] by auto
  have rd: "tabs e4 = tabs e1" "reads (IsPostgres e1) (tabs e1) ?w pr pd" using reads_three [OF r1 r2 r3 w(2)] by auto
  have "reads (IsPostgres d1) (tabs d1) ?w pr pd" using rd(2) driver_txExec [OF a] by (simp add: reads_def e1)
  with w rd(1) e1 show ?thesis by (auto simp: artifact_spec_def)
qed

lemma commit_gate_Ok:
  assumes "commit_gate_body C w token resolution who res fk ts d1 = (Ok u, d2)"
  shows "\<exists>pr pd. (TR_OK res \<longrightarrow> reads (IsPostgres d1) (tabs d1) w pr pd \<and> transition_ok fk w res (tabs d1)) \<and>
     tabs d2 = gate_spec C w token resolution who res ts pr pd (tabs d1)"
proof -
  obtain n e1 where
    a: "txExec (stmt_update_gate (\<lambda>g. gt_token g = token) (resolve_gate_row resolution ts who)) d1 = (Ok n, e1)"
    using assms by (auto simp: commit_gate_body_def step_Ok)
  have e1: "tabs e1 = resolve_gate token resolution who ts (tabs d1)"
    using txExec_OkD [OF a] by (auto simp: stmt_update_gate_def resolve_gate_def)
  show ?thesis
  proof (cases "TR_OK res")
    case False
    then obtain n' where "txExec (stmt_update_workflow (\<lambda>r. wf_id r = w) (block_workflow res ts)) e1 = (Ok n', d2)"
      using assms a by (auto simp: commit_gate_body_def step_Ok)
    from txExec_OkD [OF this] e1 False show ?thesis
      by (auto simp: stmt_update_workflow_def gate_spec_def Let_def)
  next
    case True
    let ?b = "gateDeltaBody who res"
    obtain v e2 pr e3 pd e4 where
      r1: "readIgnored (\<lambda>t. snd (workflow_seqs w t)) 0 e1 = (Ok v, e2)" and
      r2: "readIgnored (latest_receipt_digest w) None e2 = (Ok pr, e3)" and
      r3: "readIgnored (latest_delta_hash w) None e3 = (Ok pd, e4)" and
      ws: "writes fk w res (deltaJSON_of C ?b []) (deltaHash_of C ?b) pr pd ts e4 d2"
      using assms a True by (auto simp: commit_gate_body_def step_Ok Let_def writes_def split: prod.splits)
    have wr: "transition_ok fk w res (tabs e4)" "\<not> tx_aborted e4"
        "tabs d2 = transition_tables w res (deltaJSON_of C ?b []) (deltaHash_of C ?b) pr pd ts (tabs e4)"
      using writes_effect [OF ws] by auto
    have rd: "tabs e4 = tabs e1" "reads (IsPostgres e1) (tabs e1) w pr pd" using reads_three [OF r1 r2 r3 wr(2)] by auto
    have "reads (IsPostgres d1) (tabs d1) w pr pd" using rd(2) driver_txExec [OF a] by (simp add: reads_def e1)
    with wr rd(1) e1 True show ?thesis by (auto simp: gate_spec_def Let_def)
  qed
qed

lemma commit_artifact_step:
  "CommitArtifact C p d = (r, d') \<Longrightarrow>
   (case r of
      Ok u \<Rightarrow> (\<exists>pr pd. reads (IsPostgres d) (pool_tables d) (AP_WorkflowID p) pr pd \<and>
         transition_ok (fk_on d) (AP_WorkflowID p) (AP_Result p) (pool_tables d) \<and>
         pool_tables d' = artifact_spec C p (now d) pr pd (pool_tables d))
    | _ \<Rightarrow> pool_tables d' = pool_tables d)"
  unfolding CommitArtifact_def
  by (rule tx.run_step [OF framed_commit_artifact]) (drule commit_artifact_Ok, simp only: IsPostgres_def)

lemma commit_gate_step:
  "CommitGateResolution C w token resolution who res every d = (r, d') \<Longrightarrow>
   (case r of
      Ok u \<Rightarrow> (\<exists>pr pd. (TR_OK res \<longrightarrow> reads (IsPostgres d) (pool_tables d) w pr pd
           \<and> transition_ok (fk_on d) w res (pool_tables d)) \<and>
         pool_tables d' = gate_spec C w token resolution who res (now d) pr pd (pool_tables d))
    | _ \<Rightarrow> pool_tables d' = pool_tables d)"
  unfolding CommitGateResolution_def
  by (rule tx.run_step [OF framed_commit_gate]) (drule commit_gate_Ok, simp only: IsPostgres_def)

subsection \<open>The history stays a chain\<close>

definition history_ok :: "tables \<Rightarrow> bool" where
  "history_ok t \<longleftrightarrow> keys_ok t \<and> receipts_linked t \<and> deltas_linked t"

definition fresh_seq :: "string \<Rightarrow> int \<Rightarrow> tables \<Rightarrow> bool" where
  "fresh_seq w n t \<longleftrightarrow>
     list_all (\<lambda>r. rc_workflow_id r = w \<longrightarrow> rc_seq r < n) (t_receipts t) \<and>
     list_all (\<lambda>r. dl_workflow_id r = w \<longrightarrow> dl_seq r < n) (t_deltas t) \<and>
     list_all (\<lambda>r. sn_workflow_id r = w \<longrightarrow> sn_seq r \<le> n) (t_snapshots t)"

lemma advance_id [simp]: "wf_id (advance_workflow res ts r) = wf_id r"
  by (simp add: advance_workflow_def)

lemma transition_keys:
  assumes "keys_ok t" and "transition_ok fk w res t"
  shows "keys_ok (transition_tables w res djson dhash pr pd ts t)"
  using assms
  by (simp add: keys_ok_def transition_tables_def transition_ok_def new_receipt_def new_delta_def
      key_used_def distinct_replace_row map_update_where)

lemma transition_history_above:
  assumes h: "history_ok t" and ok: "transition_ok fk w res t"
    and f: "\<And>x. x \<in> set (t_receipts t) \<Longrightarrow> rc_workflow_id x = w \<Longrightarrow> rc_seq x < TR_Seq res"
      "\<And>x. x \<in> set (t_deltas t) \<Longrightarrow> dl_workflow_id x = w \<Longrightarrow> dl_seq x < TR_Seq res"
    and pr: "pr = latest_receipt_digest w t" and pd: "pd = latest_delta_hash w t"
  shows "history_ok (transition_tables w res djson dhash pr pd ts t)"
proof -
  have k: "keys_ok t" using h by (simp add: history_ok_def)
  have "linked_from rc_receipt_digest rc_prev_receipt_digest None
      (rows_of_receipts v (t_receipts t @ [new_receipt w res pr ts]))" for v
    by (rule rchain.append_linked)
      (use h k f pr in \<open>auto simp: history_ok_def keys_ok_def receipts_linked_all chain_rows new_receipt_def\<close>)
  moreover have "linked_from dl_delta_hash dl_prev_delta_hash None
      (rows_of_deltas v (t_deltas t @ [new_delta w (TR_Seq res) djson dhash pd ts]))" for v
    by (rule dchain.append_linked)
      (use h k f pd in \<open>auto simp: history_ok_def keys_ok_def deltas_linked_all chain_rows new_delta_def\<close>)
  ultimately show ?thesis
    using transition_keys [OF k ok]
    by (simp add: history_ok_def receipts_linked_all deltas_linked_all chain_rows transition_tables_def)
qed

lemma transition_history:
  assumes "history_ok t" and "transition_ok fk w res t" and "fresh_seq w (TR_Seq res) t"
    and "pr = latest_receipt_digest w t" and "pd = latest_delta_hash w t"
  shows "history_ok (transition_tables w res djson dhash pr pd ts t)"
  using assms(3) by (intro transition_history_above [OF assms(1,2) _ _ assms(4,5)]) (auto simp: fresh_seq_def list_all_iff)

lemma history_frame:
  assumes "t_receipts t' = t_receipts t" and "t_deltas t' = t_deltas t" and "keys_ok t'" and "history_ok t"
  shows "history_ok t'"
  using assms by (simp add: history_ok_def receipts_linked_all deltas_linked_all chain_rows)

lemma keys_add_artifact: "keys_ok t \<Longrightarrow> keys_ok (add_artifact p ts t)"
  by (auto simp: keys_ok_def add_artifact_def insert_or_ignore_def key_used_def)

lemma keys_resolve_gate: "keys_ok t \<Longrightarrow> keys_ok (resolve_gate k rs who ts t)"
  by (simp add: keys_ok_def resolve_gate_def map_update_where resolve_gate_row_def)

lemma history_add_artifact: "history_ok t \<Longrightarrow> history_ok (add_artifact p ts t)"
  by (rule history_frame) (auto simp: history_ok_def keys_add_artifact)

lemma history_resolve_gate: "history_ok t \<Longrightarrow> history_ok (resolve_gate k rs who ts t)"
  by (rule history_frame) (auto simp: history_ok_def keys_resolve_gate)

lemma fresh_frame [simp]:
  "fresh_seq w n (add_artifact p ts t) = fresh_seq w n t"
  "fresh_seq w n (resolve_gate k rs who ts t) = fresh_seq w n t"
  by (simp_all add: fresh_seq_def)

lemma transition_latest_snapshot:
  assumes "keys_ok t" and "fresh_seq w (TR_Seq res) t"
  shows "latest_snapshot_row (\<lambda>x. sn_workflow_id x = w) (transition_tables w res djson dhash pr pd ts t)
     = Some (new_snapshot w res ts)"
proof -
  have "latest_snapshot_row (\<lambda>x. sn_workflow_id x = w)
      (t\<lparr>t_snapshots := replace_row sn_key (new_snapshot w res ts) (t_snapshots t)\<rparr>) = Some (new_snapshot w res ts)"
    by (rule latest_snapshot_upsert [OF assms(1), where fk = False])
      (use assms(2) in \<open>auto simp: fresh_seq_def list_all_iff new_snapshot_def insertOrReplaceSnapshot_def fk_workflow_def\<close>)
  then show ?thesis by (simp add: latest_snapshot_row_def transition_tables_def)
qed

lemma transition_latest_receipt:
  assumes "fresh_seq w (TR_Seq res) t" and "keys_ok t" and "transition_ok fk w res t"
  shows "latest_receipt_digest w (transition_tables w res djson dhash pr pd ts t) = Some (TR_ReceiptDigest res)"
proof -
  let ?t = "transition_tables w res djson dhash pr pd ts t" and ?x = "new_receipt w res pr ts"
  have d: "distinct (map rc_key (t_receipts ?t))"
    using transition_keys [OF assms(2,3)] by (simp add: keys_ok_def)
  have "rows_of_receipts w (t_receipts ?t) = rows_of_receipts w (t_receipts t) @ [?x]"
    using rchain.rows_of_append_max [of "t_receipts t" ?x w] assms(1)
    by (simp add: transition_tables_def fresh_seq_def list_all_iff new_receipt_def)
  then show ?thesis
    unfolding latest_receipt_rows rchain.latest [OF d] by (simp add: new_receipt_def)
qed

lemma transition_workflow:
  "find_row wf_id v (t_workflows (transition_tables w res djson dhash pr pd ts t)) =
     map_option (\<lambda>r. if wf_id r = w then advance_workflow res ts r else r) (find_row wf_id v (t_workflows t))"
  by (simp add: transition_tables_def find_row_update_where)

lemma transition_used:
  "\<not> transition_ok fk w res (transition_tables w res' djson dhash pr pd ts t)" if "TR_Seq res' = TR_Seq res"
  using that by (simp add: transition_ok_def transition_tables_def key_used_def new_receipt_def)

subsection \<open>Concrete inputs\<close>

definition sample_workflow :: workflow_row where
  "sample_workflow = \<lparr>wf_id = ''w'', wf_goal = ''g'', wf_owner = ''o'', wf_stage = ''created'',
     wf_state_hash = ''h0'', wf_current_seq = 1, wf_snapshot_seq = 1, wf_created_at = 1, wf_updated_at = 1\<rparr>"

definition sample_result :: "int \<Rightarrow> string \<Rightarrow> bool \<Rightarrow> TransitionResult" where
  "sample_result n dg ok = \<lparr>TR_OK = ok, TR_StateJSON = ''{}'', TR_StateHash = ''h'', TR_ReceiptJSON = ''{}'',
     TR_ReceiptDigest = dg, TR_PolicyOK = True, TR_Violations = [], TR_Seq = n, TR_Stage = ''execution''\<rparr>"

definition sample_tables :: tables where
  "sample_tables = empty_tables\<lparr>t_workflows := [sample_workflow],
     t_receipts := [new_receipt ''w'' (sample_result 1 ''r1'' True) None 1],
     t_deltas := [new_delta ''w'' 1 ''{}'' ''x1'' None 1],
     t_snapshots := [new_snapshot ''w'' (sample_result 1 ''r1'' True) 1]\<rparr>"

definition sample_commit :: CommitParams where
  "sample_commit = \<lparr>CP_WorkflowID = ''w'', CP_Result = sample_result 2 ''r2'' True, CP_Patches = None,
     CP_Kind = ''k'', CP_ActorID = ''a'', CP_SnapshotEvery = 10\<rparr>"

definition sample_artifact :: ArtifactCommitParams where
  "sample_artifact = \<lparr>AP_WorkflowID = ''w'', AP_ArtifactJSON = ''{}'', AP_ArtifactDigest = ''ad'',
     AP_Result = sample_result 2 ''r2'' True, AP_ActorID = ''a'', AP_SnapshotEvery = 10\<rparr>"

lemma pool_handle [simp]: "pool_tables (handle_of drv t bs) = t"
  by (simp add: pool_tables_def handle_of_def)

subsection \<open>Properties\<close>

text \<open>
  C1: \<open>CommitTransition\<close> is all or nothing and does exactly what it announces. Whatever
  statements the engine fails, a call that returns nil found the workflow and free keys and
  published one receipt and one delta linked to the latest ones, the snapshot and the
  advanced workflow row, and nothing else; a call that fails or never returns published
  nothing.
\<close>
theorem CommitTransition_refines:
  "case CommitTransition C p d of
     (Ok u, d') \<Rightarrow> commit_guard p (fk_on d) (pool_tables d) \<and>
        pool_tables d' = commit_spec C p (now d) (pool_tables d)
   | (Err e, d') \<Rightarrow> pool_tables d' = pool_tables d
   | (Blocked, d') \<Rightarrow> pool_tables d' = pool_tables d"
  using commit_transition_step [of C p d] by (auto split: prod.splits outcome.splits)

text \<open>
  C14: when the engine does not fail, \<open>CommitTransition\<close> succeeds exactly when the
  workflow exists and neither its sequence number nor the receipt digest is taken.
\<close>
theorem CommitTransition_succeeds_iff:
  assumes "quiet d"
  shows "(\<exists>d'. CommitTransition C p d = (Ok (), d')) \<longleftrightarrow> commit_guard p (fk_on d) (tabs d)"
proof
  assume "\<exists>d'. CommitTransition C p d = (Ok (), d')"
  then obtain d' where "CommitTransition C p d = (Ok (), d')" by blast
  from commit_transition_step [OF this] assms show "commit_guard p (fk_on d) (tabs d)"
    by (simp add: pool_tables_def quiet_def)
next
  assume "commit_guard p (fk_on d) (tabs d)"
  with commit_transition_live [OF assms] show "\<exists>d'. CommitTransition C p d = (Ok (), d')" by blast
qed

theorem CommitTransition_succeeds_iff_witness:
  "\<exists>d'. CommitTransition plain_crypto sample_commit (handle_of ''sqlite3'' sample_tables []) = (Ok (), d')"
  using CommitTransition_succeeds_iff [OF quiet_handle, of plain_crypto sample_commit "''sqlite3''" sample_tables]
  by (simp add: handle_of_def commit_guard_def transition_ok_def fk_workflow_def sample_commit_def
      sample_result_def sample_tables_def sample_workflow_def new_receipt_def new_delta_def key_used_def empty_tables_def)

text \<open>
  C2: the receipts and the deltas of every workflow stay two linked hash chains and the
  keys stay unique under \<open>CommitTransition\<close> at a new sequence number, whatever statements
  the engine fails.
\<close>
theorem CommitTransition_history:
  assumes "history_ok (pool_tables d)" and "fresh_seq (CP_WorkflowID p) (TR_Seq (CP_Result p)) (pool_tables d)"
  shows "history_ok (pool_tables (snd (CommitTransition C p d)))"
proof -
  obtain r d' where c: "CommitTransition C p d = (r, d')" by (cases "CommitTransition C p d")
  from commit_transition_step [OF c] assms show ?thesis
    by (auto simp: c commit_guard_def commit_spec_def transition_history split: outcome.splits)
qed

theorem CommitTransition_history_witness:
  "history_ok (pool_tables (snd (CommitTransition plain_crypto sample_commit (handle_of ''pgx'' sample_tables [False, False, True]))))"
proof (rule CommitTransition_history)
  show "history_ok (pool_tables (handle_of ''pgx'' sample_tables [False, False, True]))" by code_simp
  show "fresh_seq (CP_WorkflowID sample_commit) (TR_Seq (CP_Result sample_commit))
      (pool_tables (handle_of ''pgx'' sample_tables [False, False, True]))" by code_simp
qed


lemma sample_guard: "commit_guard sample_commit True sample_tables"
  by code_simp

lemma sample_commit_runs:
  "CommitTransition plain_crypto sample_commit (handle_of drv sample_tables []) =
     (Ok (), (handle_of drv sample_tables [])\<lparr>tabs := commit_spec plain_crypto sample_commit 100 sample_tables\<rparr>)"
  using commit_transition_live [OF quiet_handle, of sample_commit drv sample_tables] sample_guard
  by (simp add: handle_of_def now_def)


text \<open>
  A sequence number is committed once. After a successful commit, a second commit for
  the same workflow and sequence number, on any handle that sees the same tables, fails
  and publishes nothing, whatever its result and whatever the engine does.
\<close>
theorem CommitTransition_once_per_seq:
  assumes "CommitTransition C p d = (Ok u, d1)" and "pool_tables d2 = pool_tables d1"
    and "CP_WorkflowID q = CP_WorkflowID p" and "TR_Seq (CP_Result q) = TR_Seq (CP_Result p)"
  shows "case CommitTransition C q d2 of
     (Ok v, d3) \<Rightarrow> False
   | (Err e, d3) \<Rightarrow> pool_tables d3 = pool_tables d1
   | (Blocked, d3) \<Rightarrow> pool_tables d3 = pool_tables d1"
proof -
  have t1: "pool_tables d1 = commit_spec C p (now d) (pool_tables d)"
    using commit_transition_step [OF assms(1)] by simp
  have "\<not> commit_guard q (fk_on d2) (pool_tables d2)"
    using transition_used [of "CP_Result p" "CP_Result q"] assms(3,4)
    by (simp add: assms(2) t1 commit_guard_def commit_spec_def)
  then show ?thesis
    using commit_transition_step [of C q d2] assms(2) by (auto split: prod.splits outcome.splits)
qed

theorem CommitTransition_once_per_seq_witness:
  "case CommitTransition plain_crypto sample_commit
      (handle_of ''sqlite3'' (commit_spec plain_crypto sample_commit 100 sample_tables) []) of
     (Ok v, d3) \<Rightarrow> False | (Err e, d3) \<Rightarrow> True | (Blocked, d3) \<Rightarrow> True"
  using CommitTransition_once_per_seq [OF sample_commit_runs,
      of "handle_of ''sqlite3'' (commit_spec plain_crypto sample_commit 100 sample_tables) []" "''sqlite3''" sample_commit]
  by (simp add: pool_tables_def handle_of_def split: prod.splits outcome.splits)

lemma commit_artifact_live:
  assumes "quiet d" and "transition_ok (fk_on d) (AP_WorkflowID p) (AP_Result p) (tabs d)"
  shows "CommitArtifact C p d = (Ok (), d\<lparr>tabs := artifact_spec C p (now d)
     (latest_receipt_digest (AP_WorkflowID p) (tabs d)) (latest_delta_hash (AP_WorkflowID p) (tabs d)) (tabs d)\<rparr>)"
proof -
  let ?w = "AP_WorkflowID p" and ?r = "AP_Result p" and ?d = "in_tx d" and ?t = "add_artifact p (now d) (tabs d)"
  have f: "faults ?d = []" "\<not> tx_aborted ?d" using assms(1) by (simp_all add: quiet_def)
  let ?n = "if key_used ar_digest (AP_ArtifactDigest p) (t_artifacts (tabs d)) then 0 else 1"
  have a: "txExec (insertOrIgnoreArtifactNoRef (fk_on d) (AP_ArtifactDigest p) ?w (AP_ArtifactJSON p) (now d)) ?d
      = (Ok ?n, ?d\<lparr>tabs := ?t\<rparr>)"
    using f assms(2)
    by (simp add: insertOrIgnoreArtifactNoRef_def insertOrIgnoreArtifact_def add_artifact_def
        insert_or_ignore_def transition_ok_def)
  have ws: "writes (fk_on d) ?w ?r (deltaJSON_of C (ca_body p) []) (deltaHash_of C (ca_body p))
      (latest_receipt_digest ?w (tabs d)) (latest_delta_hash ?w (tabs d)) (now d) (?d\<lparr>tabs := ?t\<rparr>)
      (?d\<lparr>tabs := artifact_spec C p (now d) (latest_receipt_digest ?w (tabs d)) (latest_delta_hash ?w (tabs d)) (tabs d)\<rparr>)"
    using writes_live [of "fk_on d" ?w ?r "?d\<lparr>tabs := ?t\<rparr>"] assms(2) f by (simp add: artifact_spec_def)
  have "commit_artifact_body C p (fk_on d) (now d) ?d = (Ok (), ?d\<lparr>tabs := artifact_spec C p (now d)
      (latest_receipt_digest ?w (tabs d)) (latest_delta_hash ?w (tabs d)) (tabs d)\<rparr>)"
    unfolding commit_artifact_body_def
    using f a writes_run [OF ws] by (simp add: ca_body_def Let_def readIgnored_live split_beta)
  with Tx_live_Ok [OF assms(1)] show ?thesis by (simp add: CommitArtifact_def)
qed



text \<open>
  C22: on SQLite the same operation can break the chain. It drops the error of the read of
  the previous receipt digest; SQLite keeps the transaction usable, so the commit succeeds
  with a receipt whose link is NULL although an earlier receipt exists.
\<close>
theorem CommitArtifact_breaks_chain_on_sqlite:
  "\<exists>d p d'. IsSQLite d \<and> history_ok (pool_tables d) \<and>
     fresh_seq (AP_WorkflowID p) (TR_Seq (AP_Result p)) (pool_tables d) \<and>
     CommitArtifact plain_crypto p d = (Ok (), d') \<and> \<not> receipts_linked (pool_tables d')"
proof -
  let ?d = "handle_of ''sqlite3'' sample_tables [False, False, False, True]"
  have "case CommitArtifact plain_crypto sample_artifact ?d of
     (Ok u, d') \<Rightarrow> \<not> receipts_linked (pool_tables d') | (Err e, d') \<Rightarrow> False | (Blocked, d') \<Rightarrow> False"
    by code_simp
  then obtain d' where "CommitArtifact plain_crypto sample_artifact ?d = (Ok (), d')"
    "\<not> receipts_linked (pool_tables d')" by (auto split: prod.splits outcome.splits)
  moreover have "IsSQLite ?d" by (simp add: IsSQLite_def handle_of_def)
  moreover have "history_ok (pool_tables ?d)" by code_simp
  moreover have "fresh_seq (AP_WorkflowID sample_artifact) (TR_Seq (AP_Result sample_artifact)) (pool_tables ?d)"
    by code_simp
  ultimately show ?thesis by blast
qed

end
