(* ===== verification/Gates.thy ===== *)
theory Gates
  imports Commit
begin

section \<open>Human gates: internal/store/gates.go\<close>

text \<open>
  The signing of gate tokens by the handle's key provider, the operations on the gates
  table, and what \<open>CommitGateResolution\<close> does to a gate and its workflow. A resolved-at
  pointer is \<^verbatim>\<open>Some None\<close> when it points to the zero time.
\<close>

record Gate =
  G_Token :: string
  G_WorkflowID :: string
  G_Seq :: int
  G_Status :: string
  G_GateJSON :: string
  G_ResolvedAt :: "int option option"
  G_ResolvedBy :: string
  G_CreatedAt :: "int option"

definition SignGateToken :: "crypto \<Rightarrow> dbs \<Rightarrow> string \<Rightarrow> string outcome" where
  "SignGateToken C d fardDigest =
     (case db_keys d of Some kp \<Rightarrow> SignToken C kp fardDigest | None \<Rightarrow> Ok fardDigest)"

definition VerifyGateToken :: "crypto \<Rightarrow> dbs \<Rightarrow> string \<Rightarrow> string \<Rightarrow> bool" where
  "VerifyGateToken C d presented stored =
     (case db_keys d of Some kp \<Rightarrow> VerifyToken C kp presented stored | None \<Rightarrow> presented = stored)"

definition CreateGate :: "Gate \<Rightarrow> unit dbm" where
  "CreateGate g d =
     bindM (txExec (stmt_insert_gate (fk_on d)
       \<lparr>gt_token = G_Token g, gt_workflow_id = G_WorkflowID g, gt_seq = G_Seq g, gt_status = G_Status g,
        gt_gate_json = G_GateJSON g, gt_resolved_at = None, gt_resolved_by = None, gt_created_at = now d\<rparr>))
       (\<lambda>_. returnM ()) d"

definition scanGate :: "gate_row \<Rightarrow> Gate" where
  "scanGate r = \<lparr>G_Token = gt_token r, G_WorkflowID = gt_workflow_id r, G_Seq = gt_seq r,
     G_Status = gt_status r, G_GateJSON = gt_gate_json r,
     G_ResolvedAt = map_option (time_Parse RFC3339Nano) (gt_resolved_at r),
     G_ResolvedBy = null_str (gt_resolved_by r), G_CreatedAt = time_Parse RFC3339Nano (gt_created_at r)\<rparr>"

definition GetGate :: "string \<Rightarrow> Gate option dbm" where
  "GetGate token = query (\<lambda>t. map_option scanGate (find_row gt_token token (t_gates t)))"

definition GetPendingGate :: "string \<Rightarrow> Gate option dbm" where
  "GetPendingGate w = query (\<lambda>t. map_option scanGate
     (min_by (\<lambda>g. - gt_created_at g)
        (filter (\<lambda>g. gt_workflow_id g = w \<and> gt_status g = ''pending'') (t_gates t))))"

definition ListPendingGates :: "Gate list dbm" where
  "ListPendingGates = query (\<lambda>t. map scanGate
     (sort_key gt_created_at (filter (\<lambda>g. gt_status g = ''pending'') (t_gates t))))"

definition ResolveGate :: "string \<Rightarrow> string \<Rightarrow> string \<Rightarrow> unit dbm" where
  "ResolveGate token status resolvedBy d =
     bindM (txExec (stmt_update_gate (\<lambda>g. gt_token g = token) (resolve_gate_row status (now d) resolvedBy)))
       (\<lambda>_. returnM ()) d"

subsection \<open>What a resolution leaves behind\<close>

lemma gate_spec_gate:
  "find_row gt_token k (t_gates (gate_spec C w token rs who res ts pr pd t)) =
     map_option (\<lambda>g. if gt_token g = token then resolve_gate_row rs ts who g else g) (find_row gt_token k (t_gates t))"
  by (simp add: gate_spec_def Let_def transition_tables_def resolve_gate_def find_row_update_where resolve_gate_row_def)

lemma gate_spec_blocked:
  "\<not> TR_OK res \<Longrightarrow>
   find_row wf_id v (t_workflows (gate_spec C w token rs who res ts pr pd t)) =
     map_option (\<lambda>r. if wf_id r = w then block_workflow res ts r else r) (find_row wf_id v (t_workflows t)) \<and>
   t_receipts (gate_spec C w token rs who res ts pr pd t) = t_receipts t \<and>
   t_snapshots (gate_spec C w token rs who res ts pr pd t) = t_snapshots t"
  by (simp add: gate_spec_def Let_def find_row_update_where block_workflow_def)

lemma gate_spec_history:
  assumes "history_ok t" and "TR_OK res \<Longrightarrow> transition_ok fk w res t \<and> fresh_seq w (TR_Seq res) t \<and>
      pr = latest_receipt_digest w t \<and> pd = latest_delta_hash w t"
  shows "history_ok (gate_spec C w token rs who res ts pr pd t)"
proof (cases "TR_OK res")
  case True
  have "history_ok (transition_tables w res dj dh pr pd ts (resolve_gate token rs who ts t))" for dj dh
    by (rule transition_history [where fk = fk]) (use assms True in \<open>auto simp: history_resolve_gate\<close>)
  with True show ?thesis by (simp add: gate_spec_def Let_def)
next
  case False
  have "keys_ok (resolve_gate token rs who ts t)" using assms(1) by (simp add: history_ok_def keys_resolve_gate)
  then have "keys_ok (gate_spec C w token rs who res ts pr pd t)"
    using False by (simp add: gate_spec_def Let_def keys_ok_def map_update_where block_workflow_def)
  from history_frame [OF _ _ this assms(1)] False show ?thesis by (simp add: gate_spec_def Let_def)
qed

subsection \<open>Properties\<close>

text \<open>
  A gate token verifies against exactly what signing it on the same handle yields,
  with a local key, with the unimplemented KMS provider (which neither signs nor verifies)
  and without a provider.
\<close>
theorem gate_token_verifies_iff_signed:
  "VerifyGateToken C d presented stored \<longleftrightarrow> SignGateToken C d presented = Ok stored"
proof (cases "db_keys d")
  case (Some k)
  with Some show ?thesis by (simp add: VerifyGateToken_def SignGateToken_def VerifyToken_iff)
qed (simp add: VerifyGateToken_def SignGateToken_def)



text \<open>
  C21: when the resumed transition is refused (\<^verbatim>\<open>ok: false\<close>) and carries no stage, as the
  handler builds it, a successful resolution still records the requested resolution on the
  gate and sets the workflow's stage to the empty string, its hash and sequence number to
  those of the result, without a receipt or a snapshot for that number.
\<close>
theorem gate_refusal_blanks_stage:
  assumes "\<not> TR_OK res" and "TR_Stage res = []"
    and "CommitGateResolution C w token rs who res every d = (Ok u, d')"
    and "find_row wf_id w (t_workflows (pool_tables d)) = Some r"
    and "find_row gt_token token (t_gates (pool_tables d)) = Some g"
  shows "find_row wf_id w (t_workflows (pool_tables d')) =
      Some (r\<lparr>wf_stage := [], wf_state_hash := TR_StateHash res, wf_current_seq := TR_Seq res,
              wf_updated_at := now d\<rparr>) \<and>
    find_row gt_token token (t_gates (pool_tables d')) =
      Some (g\<lparr>gt_status := rs, gt_resolved_at := Some (now d), gt_resolved_by := Some who\<rparr>) \<and>
    t_receipts (pool_tables d') = t_receipts (pool_tables d) \<and>
    t_snapshots (pool_tables d') = t_snapshots (pool_tables d)"
proof -
  obtain pr pd where t: "pool_tables d' = gate_spec C w token rs who res (now d) pr pd (pool_tables d)"
    using commit_gate_step [OF assms(3)] by auto
  show ?thesis
    using gate_spec_blocked [OF assms(1), of w C w token rs who "now d" pr pd "pool_tables d"]
      gate_spec_gate [of token C w token rs who res "now d" pr pd "pool_tables d"]
      find_row_Some [OF assms(4)] find_row_Some [OF assms(5)] assms(2,4,5)
    by (simp add: t block_workflow_def resolve_gate_row_def)
qed

definition sample_gate :: gate_row where
  "sample_gate = \<lparr>gt_token = ''g'', gt_workflow_id = ''w'', gt_seq = 1, gt_status = ''pending'',
     gt_gate_json = ''{}'', gt_resolved_at = None, gt_resolved_by = None, gt_created_at = 1\<rparr>"

definition refused_result :: TransitionResult where
  "refused_result = (sample_result 1 [] False)\<lparr>TR_Stage := []\<rparr>"

lemma refused_runs:
  "CommitGateResolution plain_crypto ''w'' ''g'' ''approved'' ''a'' refused_result 10
     (handle_of ''sqlite3'' (sample_tables\<lparr>t_gates := [sample_gate]\<rparr>) []) =
   (Ok (), snd (CommitGateResolution plain_crypto ''w'' ''g'' ''approved'' ''a'' refused_result 10
     (handle_of ''sqlite3'' (sample_tables\<lparr>t_gates := [sample_gate]\<rparr>) [])))"
proof -
  have "fst (CommitGateResolution plain_crypto ''w'' ''g'' ''approved'' ''a'' refused_result 10
     (handle_of ''sqlite3'' (sample_tables\<lparr>t_gates := [sample_gate]\<rparr>) [])) = Ok ()"
    by code_simp
  then show ?thesis by (metis prod.collapse)
qed

theorem gate_refusal_blanks_stage_witness:
  "\<exists>d'. CommitGateResolution plain_crypto ''w'' ''g'' ''approved'' ''a'' refused_result 10
     (handle_of ''sqlite3'' (sample_tables\<lparr>t_gates := [sample_gate]\<rparr>) []) = (Ok (), d') \<and>
     map_option wf_stage (find_row wf_id ''w'' (t_workflows (pool_tables d'))) = Some []"
proof -
  let ?d = "handle_of ''sqlite3'' (sample_tables\<lparr>t_gates := [sample_gate]\<rparr>) []"
  have "\<not> TR_OK refused_result" "TR_Stage refused_result = []"
    by (simp_all add: refused_result_def sample_result_def)
  moreover have "find_row wf_id ''w'' (t_workflows (pool_tables ?d)) = Some sample_workflow"
    "find_row gt_token ''g'' (t_gates (pool_tables ?d)) = Some sample_gate"
    by (simp_all add: sample_tables_def sample_workflow_def sample_gate_def)
  ultimately show ?thesis
    using gate_refusal_blanks_stage [OF _ _ refused_runs] refused_runs by fastforce
qed

end
