(* ===== verification/Actors.thy ===== *)
theory Actors
  imports Schema
begin

section \<open>Actors and authentication: internal/store/actors.go, internal/auth\<close>

text \<open>
  The actors table (a Go slice is \<^verbatim>\<open>None\<close> when nil), the lookup of an API key, and the
  middleware that puts the actor of a request into its context. A handler consumes a
  request and yields the list of its writes to the response, a status and a JSON body each;
  the body of a request is the text of the first JSON value in it, empty when there is none.
\<close>

record Actor =
  AC_ActorID :: string
  AC_APIKeyHash :: string
  AC_Roles :: "string list option"
  AC_AllowedAgents :: "string list option"
  AC_AllowedWorkflows :: "string list option"
  AC_CreatedAt :: "int option"
  AC_UpdatedAt :: "int option"

definition HashAPIKey :: "crypto \<Rightarrow> string \<Rightarrow> string" where
  "HashAPIKey C key = ''sha256:'' @ sha256_hex C key"

definition hashAPIKey :: "crypto \<Rightarrow> dbs \<Rightarrow> string \<Rightarrow> string" where
  "hashAPIKey C d key =
     (case db_keys d of Some kp \<Rightarrow> kp_HashAPIKey C kp key | None \<Rightarrow> HashAPIKey C key)"

definition marshal_strings :: "string list option \<Rightarrow> string" where
  "marshal_strings v = marshal (case v of None \<Rightarrow> JNull | Some l \<Rightarrow> JArr (map JStr l))"

text \<open>
  \<^verbatim>\<open>_ = json.Unmarshal(b, &slice)\<close> on a nil slice: an element that is not a string leaves
  the zero value in its place, a text that is not an array leaves the slice nil.
\<close>

definition unmarshal_strings :: "string \<Rightarrow> string list option" where
  "unmarshal_strings s =
     (case unmarshal s of
        Some (JArr vs) \<Rightarrow> Some (map (\<lambda>v. case v of JStr x \<Rightarrow> x | _ \<Rightarrow> []) vs)
      | _ \<Rightarrow> None)"

definition nullBytes :: "string \<Rightarrow> string option" where
  "nullBytes b = (if b = ''null'' then None else Some b)"

definition actor_row_of :: "crypto \<Rightarrow> dbs \<Rightarrow> Actor \<Rightarrow> string \<Rightarrow> actor_row" where
  "actor_row_of C d a apiKey =
     \<lparr>ac_actor_id = AC_ActorID a, ac_api_key_hash = hashAPIKey C d apiKey,
      ac_roles_json = marshal_strings (AC_Roles a),
      ac_allowed_agents_json = nullBytes (marshal_strings (AC_AllowedAgents a)),
      ac_allowed_workflows_json = nullBytes (marshal_strings (AC_AllowedWorkflows a)),
      ac_created_at = now d, ac_updated_at = now d\<rparr>"

definition CreateActor :: "crypto \<Rightarrow> Actor \<Rightarrow> string \<Rightarrow> unit dbm" where
  "CreateActor C a apiKey d =
     bindM (exec (stmt_insert_actor (actor_row_of C d a apiKey))) (\<lambda>_. returnM ()) d"

definition scanActor :: "actor_row \<Rightarrow> Actor" where
  "scanActor r = \<lparr>AC_ActorID = ac_actor_id r, AC_APIKeyHash = ac_api_key_hash r,
     AC_Roles = unmarshal_strings (ac_roles_json r),
     AC_AllowedAgents = (case ac_allowed_agents_json r of None \<Rightarrow> None | Some s \<Rightarrow> unmarshal_strings s),
     AC_AllowedWorkflows = (case ac_allowed_workflows_json r of None \<Rightarrow> None | Some s \<Rightarrow> unmarshal_strings s),
     AC_CreatedAt = time_Parse RFC3339Nano (ac_created_at r),
     AC_UpdatedAt = time_Parse RFC3339Nano (ac_updated_at r)\<rparr>"

definition ResolveAPIKey :: "crypto \<Rightarrow> string \<Rightarrow> Actor option dbm" where
  "ResolveAPIKey C apiKey d =
     query (\<lambda>t. map_option scanActor (find_row ac_api_key_hash (hashAPIKey C d apiKey) (t_actors t))) d"

subsection \<open>Requests and responses\<close>

record ActorRecord =
  ar_ActorID :: string
  ar_Roles :: "string list option"
  ar_AllowedAgents :: "string list option"
  ar_AllowedWorkflows :: "string list option"

record request =
  rq_method :: string
  rq_path :: string
  rq_query :: "string \<Rightarrow> string"
  rq_authorization :: string
  rq_body :: string
  rq_actor :: "ActorRecord option"

type_synonym response = "(int \<times> json) list"
type_synonym handler = "request \<Rightarrow> response dbm"

definition ActorFromContext :: "request \<Rightarrow> ActorRecord option" where
  "ActorFromContext r = rq_actor r"

definition contextWithActor :: "request \<Rightarrow> ActorRecord \<Rightarrow> request" where
  "contextWithActor r a = r\<lparr>rq_actor := Some a\<rparr>"

definition writeErr :: "int \<Rightarrow> string \<Rightarrow> int \<times> json" where
  "writeErr code msg = (code, JObj (go_map [(''ok'', JBool False), (''error'', JStr msg)]))"

definition extractKey :: "request \<Rightarrow> string" where
  "extractKey r =
     (let h = rq_authorization r in
      if HasPrefix h ''Bearer '' then TrimPrefix h ''Bearer '' else [])"

definition Middleware :: "crypto \<Rightarrow> handler \<Rightarrow> handler" where
  "Middleware C nxt r =
     (if rq_path r = ''/health'' then nxt r
      else let key = extractKey r in
      if key = [] then returnM [writeErr 401 ''missing Authorization header'']
      else bindM (tryM (ResolveAPIKey C key)) (\<lambda>res. case res of
             Inl e \<Rightarrow> returnM [writeErr 500 ''auth lookup failed'']
           | Inr None \<Rightarrow> returnM [writeErr 401 ''invalid API key'']
           | Inr (Some actor) \<Rightarrow>
               nxt (contextWithActor r \<lparr>ar_ActorID = AC_ActorID actor, ar_Roles = AC_Roles actor,
                 ar_AllowedAgents = AC_AllowedAgents actor, ar_AllowedWorkflows = AC_AllowedWorkflows actor\<rparr>)))"

subsection \<open>Slices survive the table\<close>

lemma marshal_strings_wf: "wf_json (case v of None \<Rightarrow> JNull | Some l \<Rightarrow> JArr (map JStr l))"
  by (auto simp: wf_elems_iff split: option.splits)

lemma unmarshal_marshal_strings [simp]: "unmarshal_strings (marshal_strings v) = v"
  using unmarshal_marshal [OF marshal_strings_wf, of v]
  by (auto simp: unmarshal_strings_def marshal_strings_def comp_def split: option.splits)

lemma null_strings:
  "(case nullBytes (marshal_strings v) of None \<Rightarrow> None | Some s \<Rightarrow> unmarshal_strings s) = v"
proof (cases v)
  case (Some l)
  have "marshal_strings (Some l) \<noteq> ''null''" by (simp add: marshal_strings_def)
  then show ?thesis using unmarshal_marshal_strings [of v] Some by (simp add: nullBytes_def)
qed (simp add: nullBytes_def marshal_strings_def)

lemma hashAPIKey_frame [simp]: "hashAPIKey C (d\<lparr>tabs := t\<rparr>) = hashAPIKey C d"
  by (simp add: hashAPIKey_def fun_eq_iff)

lemma ResolveAPIKey_OkD:
  "ResolveAPIKey C key d = (Ok v, d') \<Longrightarrow>
   v = map_option scanActor (find_row ac_api_key_hash (hashAPIKey C d key) (t_actors (pool_tables d)))"
  unfolding ResolveAPIKey_def by (drule query_OkD) simp

lemma ResolveAPIKey_pool: "pool_tables (snd (ResolveAPIKey C key d)) = pool_tables d"
proof -
  have "saved (snd (ResolveAPIKey C key d)) = saved d"
    unfolding ResolveAPIKey_def
    using saved_framed [OF framed_query] by (metis prod.collapse)
  then show ?thesis by (simp add: pool_tables_def ResolveAPIKey_def query_tabs split: option.split)
qed

lemma Middleware_refuses:
  assumes "rq_path r \<noteq> ''/health''"
    and "extractKey r = [] \<or>
      find_row ac_api_key_hash (hashAPIKey C d (extractKey r)) (t_actors (pool_tables d)) = None"
    and "Middleware C nxt r d = (x, d')"
  shows "(x = Blocked \<or> (\<exists>m. x = Ok [writeErr 401 m] \<or> x = Ok [writeErr 500 m])) \<and>
    pool_tables d' = pool_tables d"
proof (cases "extractKey r = []")
  case True
  with assms(1,3) show ?thesis by (auto simp: Middleware_def returnM_def)
next
  case False
  obtain y d1 where y: "ResolveAPIKey C (extractKey r) d = (y, d1)"
    by (cases "ResolveAPIKey C (extractKey r) d")
  have p: "pool_tables d1 = pool_tables d" using ResolveAPIKey_pool [of C "extractKey r" d] y by simp
  have n: "v = None" if "y = Ok v" for v
    using ResolveAPIKey_OkD [of C "extractKey r" d v d1] y that assms(2) False by simp
  from assms(1,3) False y p n show ?thesis
    by (cases y) (auto simp: Middleware_def Let_def bindM_def tryM_def returnM_def)
qed

lemma CreateActor_stored:
  assumes "quiet d" and "CreateActor C a key d = (Ok u, d')"
  shows "d' = d\<lparr>tabs := (tabs d)\<lparr>t_actors := t_actors (tabs d) @ [actor_row_of C d a key]\<rparr>\<rparr> \<and>
    find_row ac_api_key_hash (hashAPIKey C d key) (t_actors (tabs d')) = Some (actor_row_of C d a key)"
proof -
  have k: "ac_api_key_hash (actor_row_of C d a key) = hashAPIKey C d key" by (simp add: actor_row_of_def)
  have "\<not> key_used ac_api_key_hash (hashAPIKey C d key) (t_actors (tabs d)) \<and>
     d' = d\<lparr>tabs := (tabs d)\<lparr>t_actors := t_actors (tabs d) @ [actor_row_of C d a key]\<rparr>\<rparr>"
    using assms by (auto simp: CreateActor_def step_Ok stmt_insert_actor_def k split: if_splits)
  then show ?thesis by (simp add: find_row_append k find_row_None [symmetric])
qed

subsection \<open>Properties\<close>

text \<open>
  C19: an actor that was created is the actor its API key resolves to, with its id, roles
  and restrictions as given, a nil slice (no restriction) staying nil and an empty one
  empty; only its time stamps come back as the zero time.
\<close>
theorem CreateActor_ResolveAPIKey:
  assumes "quiet d" and "CreateActor C a key d = (Ok u, d')"
  shows "ResolveAPIKey C key d' =
    (Ok (Some (a\<lparr>AC_APIKeyHash := hashAPIKey C d key, AC_CreatedAt := None, AC_UpdatedAt := None\<rparr>)), d')"
  using CreateActor_stored [OF assms] assms(1)
  by (auto simp: ResolveAPIKey_def scanActor_def actor_row_of_def null_strings)

definition sample_actor :: Actor where
  "sample_actor = \<lparr>AC_ActorID = ''ann'', AC_APIKeyHash = [], AC_Roles = Some [''operator''],
     AC_AllowedAgents = None, AC_AllowedWorkflows = Some [], AC_CreatedAt = None, AC_UpdatedAt = None\<rparr>"

theorem CreateActor_ResolveAPIKey_witness:
  "\<exists>d'. CreateActor plain_crypto sample_actor ''k'' (handle_of ''sqlite3'' empty_tables []) = (Ok (), d') \<and>
     map_outcome_val (map_option AC_AllowedAgents) (fst (ResolveAPIKey plain_crypto ''k'' d')) = Ok (Some None)"
proof -
  let ?d = "handle_of ''sqlite3'' empty_tables []"
  have q: "quiet ?d" by (simp add: quiet_def handle_of_def)
  obtain d' where c: "CreateActor plain_crypto sample_actor ''k'' ?d = (Ok (), d')"
    using q by (simp add: CreateActor_def exec_live stmt_insert_actor_def handle_of_def empty_tables_def
        key_used_def returnM_def actor_row_of_def)
  from CreateActor_ResolveAPIKey [OF q c] c show ?thesis by (auto simp: sample_actor_def)
qed



text \<open>
  With the KMS provider configured every API key hashes to the same constant, so once
  one actor has been created any non-empty bearer token authenticates as that actor.
\<close>
theorem kms_accepts_any_key:
  assumes "quiet d" and "db_keys d = Some (KMSKeyProvider i)" and "CreateActor C a key d = (Ok u, d')"
  shows "map_outcome_val (map_option AC_ActorID) (fst (ResolveAPIKey C other d')) = Ok (Some (AC_ActorID a))"
proof -
  have h: "hashAPIKey C d x = ''kms:not-implemented''" for x by (simp add: hashAPIKey_def assms(2))
  show ?thesis
    using CreateActor_stored [OF assms(1,3)] assms(1)
    by (auto simp: ResolveAPIKey_def h scanActor_def actor_row_of_def)
qed

theorem kms_accepts_any_key_witness:
  "\<exists>d'. CreateActor plain_crypto sample_actor ''k''
      (SetKeyProvider (Some (KMSKeyProvider ''arn'')) (handle_of ''sqlite3'' empty_tables [])) = (Ok (), d') \<and>
     map_outcome_val (map_option AC_ActorID) (fst (ResolveAPIKey plain_crypto ''forged'' d')) = Ok (Some ''ann'')"
proof -
  let ?d = "SetKeyProvider (Some (KMSKeyProvider ''arn'')) (handle_of ''sqlite3'' empty_tables [])"
  have q: "quiet ?d" and k: "db_keys ?d = Some (KMSKeyProvider ''arn'')"
    by (simp_all add: quiet_def handle_of_def SetKeyProvider_def)
  obtain d' where c: "CreateActor plain_crypto sample_actor ''k'' ?d = (Ok (), d')"
    using q by (simp add: CreateActor_def exec_live stmt_insert_actor_def handle_of_def empty_tables_def
        key_used_def returnM_def SetKeyProvider_def actor_row_of_def)
  from kms_accepts_any_key [OF q k c, of "''forged''"] c show ?thesis by (auto simp: sample_actor_def)
qed

end
