(* ===== verification/Tasks.thy ===== *)
theory Tasks
  imports Schema
begin

section \<open>The task queue: internal/store/tasks.go and internal/queue/queue.go\<close>

text \<open>
  The tasks table as a pull queue: enqueue, claim, heartbeat, complete, fail, dead-letter
  and the requeue of expired claims. Pointers to times are \<^verbatim>\<open>Some None\<close> when they point
  to the zero time.

  \<open>expired\<close> is the WHERE clause of the requeue statements. It is SQLite's: the modifier
  \<^verbatim>\<open>'+' || timeout_sec || ' seconds'\<close> is NULL for a negative timeout, and Postgres has no
  function \<^verbatim>\<open>datetime\<close>, so there both statements are refused (\<open>EDialect\<close>).
\<close>

record Task =
  T_TaskID :: string
  T_WorkflowID :: string
  T_NodeID :: string
  T_Agent :: string
  T_Status :: string
  T_Priority :: int
  T_PriorityLane :: string
  T_InputJSON :: string
  T_OutputJSON :: string
  T_PolicyResultJSON :: string
  T_ClaimedBy :: string
  T_ClaimedAt :: "int option option"
  T_LastHeartbeat :: "int option option"
  T_TimeoutSec :: int
  T_AttemptCount :: int
  T_MaxAttempts :: int
  T_DeadLettered :: bool
  T_CompletedAt :: "int option option"
  T_FailedReason :: string
  T_CreatedAt :: "int option"
  T_UpdatedAt :: "int option"

definition PriorityLaneCritical :: string where "PriorityLaneCritical = ''critical''"
definition PriorityLaneNormal :: string where "PriorityLaneNormal = ''normal''"
definition PriorityLaneBackground :: string where "PriorityLaneBackground = ''background''"

definition task_row_of :: "Task \<Rightarrow> int \<Rightarrow> task_row" where
  "task_row_of t ts =
     \<lparr>tk_task_id = T_TaskID t, tk_workflow_id = T_WorkflowID t, tk_node_id = T_NodeID t, tk_agent = T_Agent t,
      tk_status = ''pending'', tk_priority = T_Priority t,
      tk_priority_lane = (if T_PriorityLane t = [] then PriorityLaneNormal else T_PriorityLane t),
      tk_input_json = T_InputJSON t, tk_output_json = None, tk_policy_result_json = None,
      tk_claimed_by = None, tk_claimed_at = None, tk_last_heartbeat = None,
      tk_timeout_sec = T_TimeoutSec t, tk_attempt_count = 0,
      tk_max_attempts = (if T_MaxAttempts t = 0 then 3 else T_MaxAttempts t),
      tk_dead_lettered = 0, tk_completed_at = None, tk_failed_reason = None,
      tk_created_at = ts, tk_updated_at = ts\<rparr>"

definition EnqueueTask :: "Task \<Rightarrow> unit dbm" where
  "EnqueueTask t d = bindM (txExec (stmt_insert_task (fk_on d) (task_row_of t (now d)))) (\<lambda>_. returnM ()) d"

definition scanTask :: "task_row \<Rightarrow> Task" where
  "scanTask r =
     \<lparr>T_TaskID = tk_task_id r, T_WorkflowID = tk_workflow_id r, T_NodeID = tk_node_id r, T_Agent = tk_agent r,
      T_Status = tk_status r, T_Priority = tk_priority r, T_PriorityLane = tk_priority_lane r,
      T_InputJSON = tk_input_json r, T_OutputJSON = null_str (tk_output_json r),
      T_PolicyResultJSON = null_str (tk_policy_result_json r), T_ClaimedBy = null_str (tk_claimed_by r),
      T_ClaimedAt = map_option (time_Parse RFC3339Nano) (tk_claimed_at r),
      T_LastHeartbeat = map_option (time_Parse RFC3339Nano) (tk_last_heartbeat r),
      T_TimeoutSec = tk_timeout_sec r, T_AttemptCount = tk_attempt_count r,
      T_MaxAttempts = tk_max_attempts r, T_DeadLettered = (tk_dead_lettered r = 1),
      T_CompletedAt = map_option (time_Parse RFC3339Nano) (tk_completed_at r),
      T_FailedReason = null_str (tk_failed_reason r),
      T_CreatedAt = time_Parse RFC3339Nano (tk_created_at r),
      T_UpdatedAt = time_Parse RFC3339Nano (tk_updated_at r)\<rparr>"

subsection \<open>Claiming\<close>

definition lane_rank :: "string \<Rightarrow> int" where
  "lane_rank lane =
     (if lane = ''critical'' then 0 else if lane = ''normal'' then 1
      else if lane = ''background'' then 2 else 1)"

definition claimable :: "string \<Rightarrow> task_row \<Rightarrow> bool" where
  "claimable agent r \<longleftrightarrow> tk_agent r = agent \<and> tk_status r = ''pending'' \<and> tk_dead_lettered r = 0 \<and>
     tk_attempt_count r < tk_max_attempts r"

definition claim_order :: "task_row \<Rightarrow> int \<times> int \<times> int" where
  "claim_order r = (lane_rank (tk_priority_lane r), - tk_priority r, tk_created_at r)"

definition claim_candidate :: "string \<Rightarrow> tables \<Rightarrow> string option" where
  "claim_candidate agent t = map_option tk_task_id (min_by claim_order (filter (claimable agent) (t_tasks t)))"

definition claim_where :: "string \<Rightarrow> task_row \<Rightarrow> bool" where
  "claim_where i r \<longleftrightarrow> tk_task_id r = i \<and> tk_status r = ''pending'' \<and> tk_dead_lettered r = 0"

definition claim_set :: "string \<Rightarrow> int \<Rightarrow> task_row \<Rightarrow> task_row" where
  "claim_set agent ts r =
     r\<lparr>tk_status := ''claimed'', tk_claimed_by := Some agent, tk_claimed_at := Some ts,
       tk_last_heartbeat := Some ts, tk_attempt_count := tk_attempt_count r + 1, tk_updated_at := ts\<rparr>"

definition getTaskTx :: "string \<Rightarrow> Task option dbm" where
  "getTaskTx i = txQuery (\<lambda>t. map_option scanTask (find_row tk_task_id i (t_tasks t)))"

definition claim_body :: "string \<Rightarrow> int \<Rightarrow> Task option dbm" where
  "claim_body agent ts =
     bindM (wrapM ''scan candidate'' (txQuery (claim_candidate agent))) (\<lambda>cand.
       case cand of
         None \<Rightarrow> returnM None
       | Some taskID \<Rightarrow>
           bindM (wrapM ''claim update'' (txExec (stmt_update_task (claim_where taskID) (claim_set agent ts)))) (\<lambda>n.
           if n = 0 then returnM None
           else wrapM ''read claimed task'' (getTaskTx taskID)))"

definition ClaimNextTask :: "string \<Rightarrow> Task option dbm" where
  "ClaimNextTask agent d = Tx (claim_body agent (now d)) d"

subsection \<open>Heartbeat, completion, failure\<close>

definition HeartbeatTask :: "string \<Rightarrow> string \<Rightarrow> unit dbm" where
  "HeartbeatTask taskID workerID d =
     bindM (exec (stmt_update_task
        (\<lambda>r. tk_task_id r = taskID \<and> tk_status r = ''claimed'' \<and> tk_claimed_by r = Some workerID)
        (\<lambda>r. r\<lparr>tk_last_heartbeat := Some (now d), tk_updated_at := now d\<rparr>)))
       (\<lambda>_. returnM ()) d"

definition CompleteTask :: "string \<Rightarrow> string \<Rightarrow> string \<Rightarrow> unit dbm" where
  "CompleteTask taskID outputJSON policyResultJSON d =
     bindM (txExec (stmt_update_task (\<lambda>r. tk_task_id r = taskID)
        (\<lambda>r. r\<lparr>tk_status := ''completed'', tk_output_json := Some outputJSON,
               tk_policy_result_json := Some policyResultJSON, tk_completed_at := Some (now d),
               tk_updated_at := now d\<rparr>)))
       (\<lambda>_. returnM ()) d"

definition dead_letter_of :: "task_row \<Rightarrow> string \<Rightarrow> int \<Rightarrow> dead_letter_row" where
  "dead_letter_of r reason ts =
     \<lparr>dd_task_id = tk_task_id r, dd_workflow_id = tk_workflow_id r, dd_node_id = tk_node_id r,
      dd_agent = tk_agent r, dd_input_json = tk_input_json r, dd_failed_reason = reason,
      dd_attempt_count = tk_attempt_count r, dd_original_created = tk_created_at r, dd_dead_lettered_at = ts\<rparr>"

definition stmt_insert_dead_letter :: "dead_letter_row \<Rightarrow> tables \<Rightarrow> go_error + nat \<times> tables" where
  "stmt_insert_dead_letter r t =
     (case insert_row dd_task_id r (t_dead_letters t) of
        None \<Rightarrow> Inl (EUnique ''dead_letter_tasks'')
      | Some ds \<Rightarrow> Inr (1, t\<lparr>t_dead_letters := ds\<rparr>))"

definition dead_letter_set :: "string \<Rightarrow> int \<Rightarrow> task_row \<Rightarrow> task_row" where
  "dead_letter_set reason ts r =
     r\<lparr>tk_status := ''failed'', tk_failed_reason := Some reason, tk_dead_lettered := 1, tk_updated_at := ts\<rparr>"

definition deadLetterTask :: "string \<Rightarrow> string \<Rightarrow> unit dbm" where
  "deadLetterTask taskID reason d =
     (let ts = now d in
      bindM (wrapM ''read task for dead letter'' (bindM
          (txQuery (\<lambda>t. find_row tk_task_id taskID (t_tasks t)))
          (\<lambda>r. case r of None \<Rightarrow> failM ErrNoRows | Some x \<Rightarrow> returnM x))) (\<lambda>row.
      bindM (wrapM ''insert dead letter'' (txExec (stmt_insert_dead_letter (dead_letter_of row reason ts)))) (\<lambda>_.
      bindM (txExec (stmt_update_task (\<lambda>r. tk_task_id r = taskID) (dead_letter_set reason ts))) (\<lambda>_.
      returnM ()))) d)"

text \<open>\<open>FailTask\<close> runs in a caller's transaction, but reads the attempt counters through the pool.\<close>

definition FailTask :: "string \<Rightarrow> string \<Rightarrow> unit dbm" where
  "FailTask taskID reason d =
     (let ts = now d in
      bindM (tryM (query (\<lambda>t. map_option (\<lambda>r. (tk_attempt_count r, tk_max_attempts r))
                               (find_row tk_task_id taskID (t_tasks t))))) (\<lambda>res.
      let (attemptCount, maxAttempts) = (case res of Inr (Some c) \<Rightarrow> c | _ \<Rightarrow> (0, 0)) in
      if attemptCount \<ge> maxAttempts then deadLetterTask taskID reason
      else bindM (txExec (stmt_update_task (\<lambda>r. tk_task_id r = taskID)
              (\<lambda>r. r\<lparr>tk_status := ''failed'', tk_failed_reason := Some reason, tk_updated_at := ts\<rparr>)))
             (\<lambda>_. returnM ())) d)"

subsection \<open>Expired claims\<close>

definition due :: "int option \<Rightarrow> int \<Rightarrow> int \<Rightarrow> bool" where
  "due since timeout ts \<longleftrightarrow> (case since of None \<Rightarrow> False | Some s \<Rightarrow> 0 \<le> timeout \<and> s + timeout \<le> ts)"

definition expired :: "int \<Rightarrow> task_row \<Rightarrow> bool" where
  "expired ts r \<longleftrightarrow> tk_status r = ''claimed'' \<and> tk_dead_lettered r = 0 \<and>
     (tk_last_heartbeat r \<noteq> None \<and> due (tk_last_heartbeat r) (tk_timeout_sec r) ts \<or>
      tk_last_heartbeat r = None \<and> due (tk_claimed_at r) (tk_timeout_sec r) ts)"

definition requeue_set :: "int \<Rightarrow> task_row \<Rightarrow> task_row" where
  "requeue_set ts r =
     r\<lparr>tk_status := ''pending'', tk_claimed_by := None, tk_claimed_at := None, tk_last_heartbeat := None,
       tk_updated_at := ts\<rparr>"

definition RequeueExpiredTasks :: "nat dbm" where
  "RequeueExpiredTasks d =
     exec (\<lambda>t. if IsPostgres d then Inl EDialect
               else stmt_update_task (\<lambda>r. expired (now d) r \<and> tk_attempt_count r < tk_max_attempts r)
                      (requeue_set (now d)) t) d"

definition stmt_ignore_dead_letter :: "bool \<Rightarrow> dead_letter_row \<Rightarrow> tables \<Rightarrow> go_error + nat \<times> tables" where
  "stmt_ignore_dead_letter pg r t =
     (if pg then Inl EDialect
      else Inr (if key_used dd_task_id (dd_task_id r) (t_dead_letters t) then 0 else 1,
                t\<lparr>t_dead_letters := insert_or_ignore dd_task_id r (t_dead_letters t)\<rparr>))"

definition dead_letter_body :: "bool \<Rightarrow> int \<Rightarrow> task_row \<Rightarrow> unit dbm" where
  "dead_letter_body pg ts r =
     bindM (txExec (stmt_ignore_dead_letter pg (dead_letter_of r ''max_attempts_exceeded'' ts))) (\<lambda>_.
     bindM (txExec (stmt_update_task (\<lambda>x. tk_task_id x = tk_task_id r)
        (dead_letter_set ''max_attempts_exceeded'' ts))) (\<lambda>_.
     returnM ()))"

definition requeue_one :: "bool \<Rightarrow> int \<Rightarrow> task_row \<Rightarrow> unit dbm" where
  "requeue_one pg ts r =
     (if tk_attempt_count r \<ge> tk_max_attempts r then Tx (dead_letter_body pg ts r)
      else bindM (exec (stmt_update_task (\<lambda>x. tk_task_id x = tk_task_id r \<and> tk_status x = ''claimed'')
             (requeue_set ts))) (\<lambda>_. returnM ()))"

fun requeue_loop :: "bool \<Rightarrow> int \<Rightarrow> task_row list \<Rightarrow> int \<Rightarrow> int \<Rightarrow> (int \<times> int) dbm" where
  "requeue_loop pg ts [] requeued deadLettered = returnM (requeued, deadLettered)"
| "requeue_loop pg ts (r # rs) requeued deadLettered =
     bindM (tryM (requeue_one pg ts r)) (\<lambda>res.
       let ok = (case res of Inl e \<Rightarrow> 0 | Inr u \<Rightarrow> 1) in
       if tk_attempt_count r \<ge> tk_max_attempts r
       then requeue_loop pg ts rs requeued (wrap64 (deadLettered + ok))
       else requeue_loop pg ts rs (wrap64 (requeued + ok)) deadLettered)"

definition RequeueExpiredTasksWithDeadLetter :: "(int \<times> int) dbm" where
  "RequeueExpiredTasksWithDeadLetter d =
     bindM (query (\<lambda>t. filter (expired (now d)) (t_tasks t))) (\<lambda>rows.
       if IsPostgres d then failM EDialect
       else requeue_loop (IsPostgres d) (now d) rows 0 0) d"

text \<open>One tick of \<^verbatim>\<open>RequeueLoop\<close>: the counts and the error only go to the log.\<close>

definition RequeueLoop_tick :: "unit dbm" where
  "RequeueLoop_tick = bindM (tryM RequeueExpiredTasksWithDeadLetter) (\<lambda>_. returnM ())"

subsection \<open>Reading\<close>

definition GetTask :: "string \<Rightarrow> Task option dbm" where
  "GetTask i = query (\<lambda>t. map_option scanTask (find_row tk_task_id i (t_tasks t)))"

definition ListTasks :: "string \<Rightarrow> string \<Rightarrow> Task list dbm" where
  "ListTasks w status = query (\<lambda>t. map scanTask (sort_key tk_created_at
     (filter (\<lambda>r. tk_workflow_id r = w \<and> (status \<noteq> [] \<longrightarrow> tk_status r = status)) (t_tasks t))))"

definition dead_letter_task :: "dead_letter_row \<Rightarrow> Task" where
  "dead_letter_task r = scanTask
     \<lparr>tk_task_id = dd_task_id r, tk_workflow_id = dd_workflow_id r, tk_node_id = dd_node_id r,
      tk_agent = dd_agent r, tk_status = [], tk_priority = 0, tk_priority_lane = ''normal'',
      tk_input_json = dd_input_json r, tk_output_json = Some [], tk_policy_result_json = Some [],
      tk_claimed_by = Some [], tk_claimed_at = None, tk_last_heartbeat = None, tk_timeout_sec = 0,
      tk_attempt_count = dd_attempt_count r, tk_max_attempts = 0, tk_dead_lettered = 1,
      tk_completed_at = None, tk_failed_reason = Some (dd_failed_reason r),
      tk_created_at = dd_original_created r, tk_updated_at = dd_dead_lettered_at r\<rparr>"

definition ListDeadLetterTasks :: "string \<Rightarrow> Task list dbm" where
  "ListDeadLetterTasks w = query (\<lambda>t. map dead_letter_task
     (filter (\<lambda>r. w \<noteq> [] \<longrightarrow> dd_workflow_id r = w) (t_dead_letters t)))"

subsection \<open>What a claim does\<close>

definition claim_effect :: "string \<Rightarrow> int \<Rightarrow> tables \<Rightarrow> Task option \<Rightarrow> tables \<Rightarrow> bool" where
  "claim_effect agent ts t res t' \<longleftrightarrow>
     (case res of
        None \<Rightarrow> t' = t \<and> (\<forall>r \<in> set (t_tasks t). \<not> claimable agent r)
      | Some task \<Rightarrow> (\<exists>r \<in> set (t_tasks t). claimable agent r \<and>
           (\<forall>x \<in> set (t_tasks t). claimable agent x \<longrightarrow> claim_order r \<le> claim_order x) \<and>
           task = scanTask (claim_set agent ts r) \<and>
           t' = t\<lparr>t_tasks := map (\<lambda>x. if x = r then claim_set agent ts r else x) (t_tasks t)\<rparr>))"

lemma task_key_eq:
  "keys_ok t \<Longrightarrow> x \<in> set (t_tasks t) \<Longrightarrow> y \<in> set (t_tasks t) \<Longrightarrow> tk_task_id x = tk_task_id y \<Longrightarrow> x = y"
  by (rule distinct_key_eq [of tk_task_id "t_tasks t"]) (simp_all add: keys_ok_def)

lemma claim_set_id [simp]: "tk_task_id (claim_set agent ts r) = tk_task_id r"
  by (simp add: claim_set_def)

lemma update_task_row:
  assumes "keys_ok t" and "r \<in> set (t_tasks t)" and "P r" and "\<And>x. P x \<Longrightarrow> tk_task_id x = tk_task_id r"
  shows "update_where P f (t_tasks t) = map (\<lambda>x. if x = r then f r else x) (t_tasks t)"
  unfolding update_where_def
proof (rule map_cong [OF refl])
  fix x assume x: "x \<in> set (t_tasks t)"
  have "P x \<longleftrightarrow> x = r" using task_key_eq [OF assms(1) x assms(2)] assms(3) assms(4) [of x] by blast
  then show "(if P x then f x else x) = (if x = r then f r else x)" by simp
qed

lemma claim_body_Ok:
  assumes k: "keys_ok (tabs d1)" and b: "claim_body agent ts d1 = (Ok res, d2)"
  shows "claim_effect agent ts (tabs d1) res (tabs d2)"
proof -
  obtain cand e1 where q: "txQuery (claim_candidate agent) d1 = (Ok cand, e1)"
    using b by (auto simp: claim_body_def step_Ok)
  have cand: "cand = claim_candidate agent (tabs d1)" and t1: "tabs e1 = tabs d1"
    using txQuery_OkD [OF q] by auto
  show ?thesis
  proof (cases cand)
    case None
    then have "\<forall>r \<in> set (t_tasks (tabs d1)). \<not> claimable agent r"
      using cand by (auto simp: claim_candidate_def filter_empty_conv)
    moreover have "res = None" "d2 = e1" using b q None by (auto simp: claim_body_def step_Ok)
    ultimately show ?thesis using t1 by (simp add: claim_effect_def)
  next
    case (Some i)
    then obtain r where m: "min_by claim_order (filter (claimable agent) (t_tasks (tabs d1))) = Some r"
      and i: "i = tk_task_id r" using cand by (auto simp: claim_candidate_def)
    have r: "r \<in> set (t_tasks (tabs d1))" "claimable agent r" using min_by_in [OF m] by auto
    have best: "\<forall>x \<in> set (t_tasks (tabs d1)). claimable agent x \<longrightarrow> claim_order r \<le> claim_order x"
      using min_by_le [OF m] by simp
    have w: "claim_where i r" using r(2) by (simp add: claim_where_def claimable_def i)
    obtain n e2 where u: "txExec (stmt_update_task (claim_where i) (claim_set agent ts)) e1 = (Ok n, e2)"
      and k2: "(if n = 0 then returnM None else wrapM ''read claimed task'' (getTaskTx i)) e2 = (Ok res, d2)"
      using b q Some by (auto simp: claim_body_def step_Ok)
    have "update_where (claim_where i) (claim_set agent ts) (t_tasks (tabs d1)) =
        map (\<lambda>x. if x = r then claim_set agent ts r else x) (t_tasks (tabs d1))"
      by (rule update_task_row [OF k r(1)]) (use w in \<open>simp_all add: claim_where_def i\<close>)
    then have t2: "tabs e2 = (tabs d1)\<lparr>t_tasks := map (\<lambda>x. if x = r then claim_set agent ts r else x) (t_tasks (tabs d1))\<rparr>"
      using txExec_OkD [OF u] by (simp add: stmt_update_task_def t1)
    have n: "n \<noteq> 0" using txExec_OkD [OF u] r(1) w by (auto simp: stmt_update_task_def t1)
    have g: "txQuery (\<lambda>t. map_option scanTask (find_row tk_task_id i (t_tasks t))) e2 = (Ok res, d2)"
      using k2 n by (simp add: getTaskTx_def wrapM_Ok)
    have "claim_set agent ts r \<in> set (t_tasks (tabs e2))" using r(1) by (force simp: t2)
    moreover have "distinct (map tk_task_id (t_tasks (tabs e2)))"
    proof -
      have "map tk_task_id (t_tasks (tabs e2)) = map tk_task_id (t_tasks (tabs d1))" by (simp add: t2)
      then show ?thesis using k by (simp add: keys_ok_def)
    qed
    ultimately have "find_row tk_task_id i (t_tasks (tabs e2)) = Some (claim_set agent ts r)"
      using find_row_in [of tk_task_id "t_tasks (tabs e2)" "claim_set agent ts r"] by (simp add: i)
    then have "res = Some (scanTask (claim_set agent ts r))" "tabs d2 = tabs e2"
      using txQuery_OkD [OF g] by auto
    with r best t2 show ?thesis by (auto simp: claim_effect_def)
  qed
qed

lemma framed_claim: "framed (claim_body agent ts)"
  unfolding claim_body_def getTaskTx_def by (intro framed_rules)

lemma ClaimNextTask_step:
  assumes "keys_ok (pool_tables d)" and "ClaimNextTask agent d = (r, d')"
  shows "case r of Ok res \<Rightarrow> claim_effect agent (now d) (pool_tables d) res (pool_tables d')
    | _ \<Rightarrow> pool_tables d' = pool_tables d"
proof -
  have "case r of Ok res \<Rightarrow> (keys_ok (pool_tables d) \<longrightarrow> claim_effect agent (now d) (pool_tables d) res (pool_tables d'))
    | _ \<Rightarrow> pool_tables d' = pool_tables d"
    using assms(2) unfolding ClaimNextTask_def
    by (rule tx.run_step [OF framed_claim, rotated]) (blast dest: claim_body_Ok)
  with assms(1) show ?thesis by (simp split: outcome.splits)
qed

subsection \<open>A well-formed queue\<close>

text \<open>
  \<open>task_ok\<close>: a task was handed out at most \<open>tk_max_attempts\<close> times; a claimed task has an
  owner, a claim time and a heartbeat, and has been handed out; a pending one has none of
  these. \<open>queue_ok\<close> adds that every dead-lettered task has its dead letter.
\<close>

definition task_ok :: "task_row \<Rightarrow> bool" where
  "task_ok r \<longleftrightarrow>
     tk_status r \<in> {''pending'', ''claimed'', ''completed'', ''failed''} \<and>
     tk_dead_lettered r \<in> {0, 1} \<and>
     0 \<le> tk_attempt_count r \<and> tk_attempt_count r \<le> max 0 (tk_max_attempts r) \<and>
     (tk_status r = ''claimed'' \<longrightarrow> tk_claimed_by r = Some (tk_agent r) \<and> tk_claimed_at r \<noteq> None \<and>
        tk_last_heartbeat r \<noteq> None \<and> 1 \<le> tk_attempt_count r) \<and>
     (tk_status r = ''pending'' \<longrightarrow> tk_claimed_by r = None \<and> tk_claimed_at r = None \<and> tk_last_heartbeat r = None)"

definition queue_ok :: "tables \<Rightarrow> bool" where
  "queue_ok t \<longleftrightarrow> keys_ok t \<and> list_all task_ok (t_tasks t) \<and>
     list_all (\<lambda>r. tk_dead_lettered r = 1 \<longrightarrow> key_used dd_task_id (tk_task_id r) (t_dead_letters t)) (t_tasks t)"

lemma queue_ok_update:
  assumes "queue_ok t" and "stmt_update_task P f t = Inr (n, t')"
    and "\<And>r. r \<in> set (t_tasks t) \<Longrightarrow> P r \<Longrightarrow> task_ok r \<Longrightarrow>
       task_ok (f r) \<and> (tk_dead_lettered (f r) = 1 \<longrightarrow> tk_dead_lettered r = 1 \<or> key_used dd_task_id (tk_task_id r) (t_dead_letters t))"
    and "\<And>r. tk_task_id (f r) = tk_task_id r"
  shows "queue_ok t'"
proof -
  have "keys_ok t'" using assms by (blast intro: keys_update_task dest: queue_ok_def [THEN iffD1])
  with assms show ?thesis
    by (auto simp: queue_ok_def stmt_update_task_def list_all_iff set_update_where) blast
qed

lemma queue_ok_insert:
  assumes "queue_ok t" and "stmt_insert_task fk (task_row_of x ts) t = Inr (n, t')"
  shows "queue_ok t'"
proof -
  have "task_ok (task_row_of x ts)" "tk_dead_lettered (task_row_of x ts) = 0"
    by (simp_all add: task_ok_def task_row_of_def)
  then show ?thesis
    using assms keys_insert_task [OF assms(2)]
    by (auto simp: queue_ok_def stmt_insert_task_def split: if_splits)
qed

lemma key_used_append: "key_used key k xs \<Longrightarrow> key_used key k (xs @ ys)"
  by (auto simp: key_used_def)

lemma queue_ok_dead_letter:
  assumes "queue_ok t" and "keys_ok (t\<lparr>t_dead_letters := t_dead_letters t @ ds\<rparr>)"
  shows "queue_ok (t\<lparr>t_dead_letters := t_dead_letters t @ ds\<rparr>)"
  using assms by (auto simp: queue_ok_def list_all_iff key_used_append)

lemma task_ok_sets:
  "task_ok r \<Longrightarrow> claim_where i r \<Longrightarrow> tk_agent r = agent \<Longrightarrow> tk_attempt_count r < tk_max_attempts r \<Longrightarrow>
     task_ok (claim_set agent ts r)"
  "task_ok r \<Longrightarrow> task_ok (requeue_set ts r)"
  "task_ok r \<Longrightarrow> task_ok (dead_letter_set reason ts r)"
  by (auto simp: task_ok_def claim_set_def claim_where_def requeue_set_def dead_letter_set_def)

subsection \<open>Every operation keeps the queue well-formed\<close>

lemma keys_ok_tasks:
  "keys_ok t \<Longrightarrow> map tk_task_id ts = map tk_task_id (t_tasks t) \<Longrightarrow> keys_ok (t\<lparr>t_tasks := ts\<rparr>)"
  by (simp add: keys_ok_def)

lemma claim_effect_ok:
  assumes "queue_ok t" and "claim_effect agent ts t res t'"
  shows "queue_ok t'"
proof (cases res)
  case None
  with assms show ?thesis by (simp add: claim_effect_def)
next
  case (Some task)
  then obtain r where r: "r \<in> set (t_tasks t)" "claimable agent r"
    and t': "t' = t\<lparr>t_tasks := map (\<lambda>x. if x = r then claim_set agent ts r else x) (t_tasks t)\<rparr>"
    using assms(2) by (auto simp: claim_effect_def)
  have "task_ok (claim_set agent ts r)"
    using r assms(1) by (auto simp: queue_ok_def list_all_iff claim_where_def claimable_def intro!: task_ok_sets(1) [of _ "tk_task_id r"])
  moreover have "tk_dead_lettered (claim_set agent ts r) = 0"
    using r(2) by (simp add: claim_set_def claimable_def)
  moreover have "keys_ok t'"
    unfolding t' using assms(1) by (intro keys_ok_tasks) (simp_all add: queue_ok_def)
  ultimately show ?thesis using assms(1) by (auto simp: queue_ok_def list_all_iff t')
qed

lemma keeps_claim: "keeps queue_ok (ClaimNextTask agent)"
proof (rule keeps_env [where h = now and g = "\<lambda>ts. Tx (claim_body agent ts)"])
  fix ts
  have "queue_ok (tabs d')" if "queue_ok (tabs d)" "claim_body agent ts d = (Ok a, d')" for d a d'
    using claim_effect_ok [OF that(1)] claim_body_Ok [OF _ that(2)] that(1) by (simp add: queue_ok_def)
  then show "keeps queue_ok (Tx (claim_body agent ts))"
    by (intro keeps_Tx) (auto simp: body_keeps_def framed_claim)
qed (simp add: ClaimNextTask_def)

lemma keeps_enqueue: "keeps queue_ok (Tx (EnqueueTask t))"
proof (rule keeps_Tx, rule body_env [where h = "\<lambda>d. (fk_on d, now d)" and
      g = "\<lambda>(fk, ts). bindM (txExec (stmt_insert_task fk (task_row_of t ts))) (\<lambda>_. returnM ())"])
  fix e :: "bool \<times> int"
  show "body_keeps queue_ok (case e of (fk, ts) \<Rightarrow>
      bindM (txExec (stmt_insert_task fk (task_row_of t ts))) (\<lambda>_. returnM ()))"
    by (cases e) (auto intro!: body_rules body_txExec intro: queue_ok_insert)
qed (simp add: EnqueueTask_def)

lemma keeps_heartbeat: "keeps queue_ok (HeartbeatTask i who)"
proof (rule keeps_env [where h = now and g = "\<lambda>ts. bindM (exec (stmt_update_task
        (\<lambda>r. tk_task_id r = i \<and> tk_status r = ''claimed'' \<and> tk_claimed_by r = Some who)
        (\<lambda>r. r\<lparr>tk_last_heartbeat := Some ts, tk_updated_at := ts\<rparr>))) (\<lambda>_. returnM ())"])
qed (auto simp: HeartbeatTask_def task_ok_def intro!: keeps_rules keeps_exec elim!: queue_ok_update)

lemma keeps_complete: "keeps queue_ok (Tx (CompleteTask i out pol))"
proof (rule keeps_Tx, rule body_env [where h = now and g = "\<lambda>ts. bindM (txExec (stmt_update_task (\<lambda>r. tk_task_id r = i)
        (\<lambda>r. r\<lparr>tk_status := ''completed'', tk_output_json := Some out, tk_policy_result_json := Some pol,
               tk_completed_at := Some ts, tk_updated_at := ts\<rparr>))) (\<lambda>_. returnM ())"])
qed (auto simp: CompleteTask_def task_ok_def intro!: body_rules body_txExec elim!: queue_ok_update)

lemma queue_ok_dead_pair:
  assumes "queue_ok t" and "keys_ok t1" and "t1 = t\<lparr>t_dead_letters := t_dead_letters t @ ds\<rparr>"
    and "key_used dd_task_id i (t_dead_letters t1)"
    and "stmt_update_task (\<lambda>r. tk_task_id r = i) (dead_letter_set reason ts) t1 = Inr (n, t2)"
  shows "queue_ok t2"
proof (rule queue_ok_update [OF _ assms(5)])
  show "queue_ok t1" using queue_ok_dead_letter [OF assms(1)] assms(2,3) by simp
qed (use assms(4) task_ok_sets(3) in \<open>auto simp: dead_letter_set_def\<close>)

lemma framed_deadLetter: "framed (deadLetterTask i reason)"
proof -
  have "framed (\<lambda>d. bindM (wrapM ''read task for dead letter'' (bindM
          (txQuery (\<lambda>t. find_row tk_task_id i (t_tasks t)))
          (\<lambda>r. case r of None \<Rightarrow> failM ErrNoRows | Some x \<Rightarrow> returnM x))) (\<lambda>row.
      bindM (wrapM ''insert dead letter'' (txExec (stmt_insert_dead_letter (dead_letter_of row reason ts)))) (\<lambda>_.
      bindM (txExec (stmt_update_task (\<lambda>r. tk_task_id r = i) (dead_letter_set reason ts))) (\<lambda>_.
      returnM ()))) d)" for ts
    by (intro framed_rules)
  then show ?thesis by (simp add: framed_def deadLetterTask_def Let_def)
qed

lemma body_deadLetter: "body_keeps queue_ok (deadLetterTask i reason)"
  unfolding body_keeps_def
proof (intro conjI allI impI)
  fix d u d'
  assume q: "queue_ok (tabs d)" and b: "deadLetterTask i reason d = (Ok u, d')"
  obtain row e1 n1 e2 n2 where
    r: "txQuery (\<lambda>t. find_row tk_task_id i (t_tasks t)) d = (Ok (Some row), e1)" and
    i: "txExec (stmt_insert_dead_letter (dead_letter_of row reason (now d))) e1 = (Ok n1, e2)" and
    m: "txExec (stmt_update_task (\<lambda>r. tk_task_id r = i) (dead_letter_set reason (now d))) e2 = (Ok n2, d')"
    using b by (auto simp: deadLetterTask_def Let_def step_Ok split: option.splits)
  have row: "tk_task_id row = i" "tabs e1 = tabs d"
    using txQuery_OkD [OF r] find_row_Some [of tk_task_id i _ row] by auto
  obtain ds where ins: "insert_row dd_task_id (dead_letter_of row reason (now d)) (t_dead_letters (tabs d)) = Some ds"
    and t2: "tabs e2 = (tabs d)\<lparr>t_dead_letters := ds\<rparr>"
    using txExec_OkD [OF i] row(2) by (auto simp: stmt_insert_dead_letter_def split: option.splits)
  have ds: "ds = t_dead_letters (tabs d) @ [dead_letter_of row reason (now d)]"
    using ins by (simp add: insert_row_Some)
  have "keys_ok (tabs e2)" using q insert_row_distinct [OF ins] by (simp add: queue_ok_def keys_ok_def t2)
  moreover have "key_used dd_task_id i (t_dead_letters (tabs e2))"
    by (simp add: t2 ds key_used_def dead_letter_of_def row(1))
  moreover have "stmt_update_task (\<lambda>r. tk_task_id r = i) (dead_letter_set reason (now d)) (tabs e2) = Inr (n2, tabs d')"
    using txExec_OkD [OF m] by simp
  ultimately show "queue_ok (tabs d')"
    using queue_ok_dead_pair [OF q _ t2 [unfolded ds]] by blast
qed (rule framed_deadLetter)

lemma body_pair: "(\<And>x y. body_keeps I (f x y)) \<Longrightarrow> body_keeps I (let (x, y) = v in f x y)"
  by (simp split: prod.split)

lemma keeps_fail_task: "keeps queue_ok (Tx (FailTask i reason))"
proof (rule keeps_Tx, rule body_env [where h = now and g = "\<lambda>ts. bindM (tryM (query
         (\<lambda>t. map_option (\<lambda>r. (tk_attempt_count r, tk_max_attempts r)) (find_row tk_task_id i (t_tasks t))))) (\<lambda>res.
      let (attemptCount, maxAttempts) = (case res of Inr (Some c) \<Rightarrow> c | _ \<Rightarrow> (0, 0)) in
      if attemptCount \<ge> maxAttempts then deadLetterTask i reason
      else bindM (txExec (stmt_update_task (\<lambda>r. tk_task_id r = i)
              (\<lambda>r. r\<lparr>tk_status := ''failed'', tk_failed_reason := Some reason, tk_updated_at := ts\<rparr>)))
             (\<lambda>_. returnM ()))"])
qed (auto simp: FailTask_def Let_def task_ok_def intro!: body_rules body_pair [unfolded Let_def] body_deadLetter body_txExec
      elim!: queue_ok_update)

lemma keeps_requeue: "keeps queue_ok RequeueExpiredTasks"
proof (rule keeps_env [where h = "\<lambda>d. (IsPostgres d, now d)" and g = "\<lambda>(pg, ts). exec (\<lambda>t. if pg then Inl EDialect
    else stmt_update_task (\<lambda>r. expired ts r \<and> tk_attempt_count r < tk_max_attempts r) (requeue_set ts) t)"])
  fix e :: "bool \<times> int"
  show "keeps queue_ok (case e of (pg, ts) \<Rightarrow> exec (\<lambda>t. if pg then Inl EDialect
    else stmt_update_task (\<lambda>r. expired ts r \<and> tk_attempt_count r < tk_max_attempts r) (requeue_set ts) t))"
    by (cases e) (auto intro!: keeps_exec task_ok_sets elim!: queue_ok_update split: if_splits simp: requeue_set_def [of _ r for r])
qed (simp add: RequeueExpiredTasks_def)

lemma framed_dead_letter_body: "framed (dead_letter_body pg ts r)"
  unfolding dead_letter_body_def by (intro framed_rules)

lemma stmt_ignore_Inr:
  "stmt_ignore_dead_letter pg x t = Inr (n, t') \<Longrightarrow>
   \<exists>ds. t' = t\<lparr>t_dead_letters := t_dead_letters t @ ds\<rparr> \<and> key_used dd_task_id (dd_task_id x) (t_dead_letters t')
     \<and> (keys_ok t \<longrightarrow> keys_ok t')"
  by (cases "key_used dd_task_id (dd_task_id x) (t_dead_letters t)")
    (auto simp: stmt_ignore_dead_letter_def insert_or_ignore_def key_used_def keys_ok_def
      intro: exI [of _ "[]"] exI [of _ "[x]"] split: if_splits)

lemma body_dead_letter_body: "body_keeps queue_ok (dead_letter_body pg ts r)"
  unfolding body_keeps_def
proof (intro conjI allI impI)
  fix d u d'
  assume q: "queue_ok (tabs d)" and b: "dead_letter_body pg ts r d = (Ok u, d')"
  let ?dl = "dead_letter_of r ''max_attempts_exceeded'' ts"
  obtain n1 e1 n2 where
    i: "txExec (stmt_ignore_dead_letter pg ?dl) d = (Ok n1, e1)" and
    m: "txExec (stmt_update_task (\<lambda>x. tk_task_id x = tk_task_id r) (dead_letter_set ''max_attempts_exceeded'' ts)) e1 = (Ok n2, d')"
    using b by (auto simp: dead_letter_body_def step_Ok)
  obtain ds where "tabs e1 = (tabs d)\<lparr>t_dead_letters := t_dead_letters (tabs d) @ ds\<rparr>"
    and "key_used dd_task_id (tk_task_id r) (t_dead_letters (tabs e1))" and "keys_ok (tabs e1)"
    using stmt_ignore_Inr [of pg ?dl "tabs d" n1 "tabs e1"] txExec_OkD [OF i] q
    by (auto simp: dead_letter_of_def queue_ok_def)
  then show "queue_ok (tabs d')"
    using queue_ok_dead_pair [OF q] txExec_OkD [OF m] by blast
qed (rule framed_dead_letter_body)

lemma keeps_requeue_one: "keeps queue_ok (requeue_one pg ts r)"
  unfolding requeue_one_def
  by (auto intro!: keeps_rules keeps_exec body_dead_letter_body task_ok_sets(2) elim!: queue_ok_update
      simp: requeue_set_def [of _ r for r])

lemma keeps_requeue_loop: "keeps queue_ok (requeue_loop pg ts rs a b)"
  by (induction rs arbitrary: a b) (auto simp: Let_def intro!: keeps_rules keeps_requeue_one)

lemma keeps_requeue_dead: "keeps queue_ok RequeueExpiredTasksWithDeadLetter"
proof (rule keeps_env [where h = "\<lambda>d. (IsPostgres d, now d)" and g = "\<lambda>(pg, ts).
    bindM (query (\<lambda>t. filter (expired ts) (t_tasks t))) (\<lambda>rows.
       if pg then failM EDialect else requeue_loop pg ts rows 0 0)"])
  fix e :: "bool \<times> int"
  show "keeps queue_ok (case e of (pg, ts) \<Rightarrow> bindM (query (\<lambda>t. filter (expired ts) (t_tasks t))) (\<lambda>rows.
       if pg then failM EDialect else requeue_loop pg ts rows 0 0))"
    by (cases e) (auto intro!: keeps_rules keeps_requeue_loop)
qed (simp add: RequeueExpiredTasksWithDeadLetter_def)

subsection \<open>The queue as a state machine\<close>

text \<open>
  The operations clients and the background loop perform, in any order, on a handle whose
  clock and fault script the environment sets between them.
\<close>

datatype queue_op =
    OEnqueue Task
  | OClaim string
  | OHeartbeat string string
  | OComplete string string string
  | OFail string string
  | ORequeue
  | OTick

fun run_op :: "queue_op \<Rightarrow> unit dbm" where
  "run_op (OEnqueue t) = Tx (EnqueueTask t)"
| "run_op (OClaim agent) = bindM (ClaimNextTask agent) (\<lambda>_. returnM ())"
| "run_op (OHeartbeat i who) = HeartbeatTask i who"
| "run_op (OComplete i out pol) = Tx (CompleteTask i out pol)"
| "run_op (OFail i reason) = Tx (FailTask i reason)"
| "run_op ORequeue = bindM RequeueExpiredTasks (\<lambda>_. returnM ())"
| "run_op OTick = RequeueLoop_tick"

inductive queue_move :: "dbs \<Rightarrow> dbs \<Rightarrow> bool" where
  qm_op: "queue_move d (snd (run_op q d))"
| qm_env: "queue_move d (d\<lparr>clock := c, faults := bs\<rparr>)"

inductive_cases queue_moveE: "queue_move d d'"

definition queue_start :: "dbs \<Rightarrow> bool" where
  "queue_start d \<longleftrightarrow> t_tasks (pool_tables d) = [] \<and> keys_ok (pool_tables d)"

lemma keeps_run_op: "keeps queue_ok (run_op q)"
proof (cases q)
  case OTick
  then show ?thesis
    by (auto simp: RequeueLoop_tick_def intro!: keeps_rules keeps_requeue_dead)
qed (auto intro!: keeps_return keeps_bind keeps_enqueue keeps_claim keeps_heartbeat keeps_complete
      keeps_fail_task keeps_requeue)

interpretation task_queue: stepping_system queue_start queue_move "\<lambda>d. queue_ok (pool_tables d)"
proof
  fix d d'
  show "queue_ok (pool_tables d)" if "queue_start d" using that by (simp add: queue_start_def queue_ok_def)
  assume ok: "queue_ok (pool_tables d)" and "queue_move d d'"
  from this(2) show "queue_ok (pool_tables d')"
  proof (rule queue_moveE)
    fix q assume "d' = snd (run_op q d)"
    with ok keeps_run_op show ?thesis by (simp add: keeps_def)
  next
    fix c bs assume "d' = d\<lparr>clock := c, faults := bs\<rparr>"
    with ok show ?thesis by (simp add: pool_tables_def split: option.splits)
  qed
qed

subsection \<open>The requeue pass, row by row\<close>

definition requeue_row :: "int \<Rightarrow> task_row \<Rightarrow> task_row" where
  "requeue_row ts r =
     (if tk_attempt_count r \<ge> tk_max_attempts r then dead_letter_set ''max_attempts_exceeded'' ts r
      else requeue_set ts r)"

definition exhausted :: "task_row \<Rightarrow> bool" where
  "exhausted r \<longleftrightarrow> tk_attempt_count r \<ge> tk_max_attempts r"

lemma requeue_row_id [simp]: "tk_task_id (requeue_row ts r) = tk_task_id r"
  by (simp add: requeue_row_def dead_letter_set_def requeue_set_def)

lemma keeps_other_task:
  assumes "tk_task_id r \<noteq> tk_task_id x"
  shows "keeps (\<lambda>t. x \<in> set (t_tasks t)) (requeue_one pg ts r)"
proof -
  have up: "x \<in> set (update_where P f ts)" if "x \<in> set ts" "\<not> P x" for P and f :: "task_row \<Rightarrow> task_row" and ts
    using that by (force simp: set_update_where)
  have "body_keeps (\<lambda>t. x \<in> set (t_tasks t)) (dead_letter_body pg ts r)"
    unfolding dead_letter_body_def using assms
    by (auto intro!: body_rules body_txExec up simp: stmt_update_task_def stmt_ignore_dead_letter_def split: if_splits)
  moreover have "keeps (\<lambda>t. x \<in> set (t_tasks t)) (exec (stmt_update_task
      (\<lambda>y. tk_task_id y = tk_task_id r \<and> tk_status y = ''claimed'') (requeue_set ts)))"
    using assms by (auto intro!: keeps_exec up simp: stmt_update_task_def)
  ultimately show ?thesis unfolding requeue_one_def by (intro keeps_rules)
qed

lemma keeps_other_tasks:
  "(\<And>r. r \<in> set rs \<Longrightarrow> tk_task_id r \<noteq> tk_task_id x) \<Longrightarrow>
   keeps (\<lambda>t. x \<in> set (t_tasks t)) (requeue_loop pg ts rs a b)"
proof (induction rs arbitrary: a b)
  case (Cons r rs)
  then have "keeps (\<lambda>t. x \<in> set (t_tasks t)) (requeue_one pg ts r)"
    and "keeps (\<lambda>t. x \<in> set (t_tasks t)) (requeue_loop pg ts rs a' b')" for a' b'
    by (auto intro: keeps_other_task)
  then show ?case by (auto simp: Let_def intro!: keeps_bind keeps_try)
qed (simp add: keeps_return)

lemma requeue_one_live:
  assumes q: "quiet d" and k: "keys_ok (tabs d)" and r: "r \<in> set (t_tasks (tabs d))" and c: "tk_status r = ''claimed''"
  shows "\<exists>t'. requeue_one False ts r d = (Ok (), d\<lparr>tabs := t'\<rparr>) \<and> keys_ok t' \<and>
     t_tasks t' = map (\<lambda>x. if x = r then requeue_row ts r else x) (t_tasks (tabs d))"
proof (cases "tk_attempt_count r \<ge> tk_max_attempts r")
  case False
  have "update_where (\<lambda>x. tk_task_id x = tk_task_id r \<and> tk_status x = ''claimed'') (requeue_set ts) (t_tasks (tabs d)) =
      map (\<lambda>x. if x = r then requeue_set ts r else x) (t_tasks (tabs d))"
    by (rule update_task_row [OF k r]) (use c in auto)
  moreover from this have "keys_ok ((tabs d)\<lparr>t_tasks := map (\<lambda>x. if x = r then requeue_set ts r else x) (t_tasks (tabs d))\<rparr>)"
    by (intro keys_ok_tasks [OF k]) (simp add: requeue_set_def)
  ultimately show ?thesis
    using False q
    by (intro exI [of _ "(tabs d)\<lparr>t_tasks := map (\<lambda>x. if x = r then requeue_set ts r else x) (t_tasks (tabs d))\<rparr>"])
      (simp add: requeue_one_def stmt_update_task_def returnM_def requeue_row_def)
next
  case True
  let ?dl = "dead_letter_of r ''max_attempts_exceeded'' ts"
  let ?t1 = "(tabs d)\<lparr>t_dead_letters := insert_or_ignore dd_task_id ?dl (t_dead_letters (tabs d))\<rparr>"
  let ?f = "dead_letter_set ''max_attempts_exceeded'' ts"
  let ?t2 = "?t1\<lparr>t_tasks := map (\<lambda>x. if x = r then ?f r else x) (t_tasks (tabs d))\<rparr>"
  have k1: "keys_ok ?t1" using k by (auto simp: keys_ok_def insert_or_ignore_def key_used_def)
  have "update_where (\<lambda>x. tk_task_id x = tk_task_id r) ?f (t_tasks (tabs d)) =
      map (\<lambda>x. if x = r then ?f r else x) (t_tasks (tabs d))"
    by (rule update_task_row [OF k r]) auto
  then have b: "dead_letter_body False ts r (d\<lparr>saved := Some (tabs d), tx_aborted := False\<rparr>) =
      (Ok (), d\<lparr>saved := Some (tabs d), tx_aborted := False, tabs := ?t2\<rparr>)"
    using q by (simp add: dead_letter_body_def quiet_def stmt_ignore_dead_letter_def stmt_update_task_def returnM_def)
  have "keys_ok ?t2" by (rule keys_ok_tasks [OF k1]) (simp add: dead_letter_set_def)
  moreover have "Tx (dead_letter_body False ts r) d = (Ok (), d\<lparr>tabs := ?t2\<rparr>)"
    using q b by (simp add: Tx_live quiet_def)
  ultimately show ?thesis using True by (intro exI [of _ ?t2]) (simp add: requeue_one_def requeue_row_def)
qed

lemma requeue_loop_live:
  assumes "quiet d" and "keys_ok (tabs d)" and "set rs \<subseteq> set (t_tasks (tabs d))" and "distinct rs"
    and "\<And>r. r \<in> set rs \<Longrightarrow> tk_status r = ''claimed''"
    and "0 \<le> a" and "0 \<le> b" and "a + b + int (length rs) \<le> maxint"
  shows "\<exists>t'. requeue_loop False ts rs a b d =
       (Ok (a + int (length (filter (\<lambda>r. \<not> exhausted r) rs)), b + int (length (filter exhausted rs))), d\<lparr>tabs := t'\<rparr>) \<and>
     t_tasks t' = map (\<lambda>x. if x \<in> set rs then requeue_row ts x else x) (t_tasks (tabs d))"
  using assms
proof (induction rs arbitrary: a b d)
  case Nil
  then show ?case by (intro exI [of _ "tabs d"]) (simp add: returnM_def)
next
  case (Cons r rs)
  obtain t1 where one: "requeue_one False ts r d = (Ok (), d\<lparr>tabs := t1\<rparr>)" and k1: "keys_ok t1"
    and t1: "t_tasks t1 = map (\<lambda>x. if x = r then requeue_row ts r else x) (t_tasks (tabs d))"
    using requeue_one_live [OF Cons.prems(1,2), of r ts] Cons.prems(3,5) by auto
  have sub: "set rs \<subseteq> set (t_tasks t1)" using Cons.prems(3,4) by (auto simp: t1)
  have notin: "requeue_row ts r \<notin> set rs"
  proof
    assume h: "requeue_row ts r \<in> set rs"
    then have "requeue_row ts r = r"
      using task_key_eq [OF Cons.prems(2), of "requeue_row ts r" r] Cons.prems(3) by auto
    with h Cons.prems(4) show False by simp
  qed
  have w: "wrap64 (a + 1) = a + 1" "wrap64 (b + 1) = b + 1" "wrap64 a = a" "wrap64 b = b"
    using Cons.prems(6-8) by (intro wrap64_id; simp add: int64_range_def minint_def maxint_def)+
  define a' b' where "a' = (if exhausted r then a else a + 1)" and "b' = (if exhausted r then b + 1 else b)"
  have "\<exists>t'. requeue_loop False ts rs a' b' (d\<lparr>tabs := t1\<rparr>) =
       (Ok (a' + int (length (filter (\<lambda>r. \<not> exhausted r) rs)), b' + int (length (filter exhausted rs))),
        d\<lparr>tabs := t1, tabs := t'\<rparr>) \<and>
     t_tasks t' = map (\<lambda>x. if x \<in> set rs then requeue_row ts x else x) (t_tasks t1)"
    using Cons.IH [of "d\<lparr>tabs := t1\<rparr>" a' b'] Cons.prems k1 sub by (auto simp: a'_def b'_def split: if_splits)
  then obtain t' where l: "requeue_loop False ts rs a' b' (d\<lparr>tabs := t1\<rparr>) =
       (Ok (a' + int (length (filter (\<lambda>r. \<not> exhausted r) rs)), b' + int (length (filter exhausted rs))), d\<lparr>tabs := t'\<rparr>)"
    and t': "t_tasks t' = map (\<lambda>x. if x \<in> set rs then requeue_row ts x else x) (t_tasks t1)" by auto
  have "requeue_loop False ts (r # rs) a b d = requeue_loop False ts rs a' b' (d\<lparr>tabs := t1\<rparr>)"
    using one w by (simp add: tryM_def bindM_def Let_def a'_def b'_def exhausted_def)
  moreover have "t_tasks t' = map (\<lambda>x. if x \<in> set (r # rs) then requeue_row ts x else x) (t_tasks (tabs d))"
    using Cons.prems(4) notin by (auto simp: t' t1)
  ultimately show ?case using l by (intro exI [of _ t']) (auto simp: a'_def b'_def)
qed

subsection \<open>Concrete inputs\<close>

definition sample_task :: "string \<Rightarrow> string \<Rightarrow> int \<Rightarrow> Task" where
  "sample_task i lane prio =
     \<lparr>T_TaskID = i, T_WorkflowID = ''w'', T_NodeID = ''n'', T_Agent = ''a'', T_Status = [], T_Priority = prio,
      T_PriorityLane = lane, T_InputJSON = ''{}'', T_OutputJSON = [], T_PolicyResultJSON = [], T_ClaimedBy = [],
      T_ClaimedAt = None, T_LastHeartbeat = None, T_TimeoutSec = 30, T_AttemptCount = 0, T_MaxAttempts = 1,
      T_DeadLettered = False, T_CompletedAt = None, T_FailedReason = [], T_CreatedAt = None, T_UpdatedAt = None\<rparr>"

definition sample_queue :: tables where
  "sample_queue = empty_tables\<lparr>t_tasks := [task_row_of (sample_task ''t1'' ''background'' 9) 1,
     task_row_of (sample_task ''t2'' ''critical'' 0) 2,
     claim_set ''a'' 10 (task_row_of (sample_task ''t3'' ''normal'' 0) 3),
     claim_set ''a'' 90 (task_row_of (sample_task ''t4'' ''normal'' 0) 4)]\<rparr>"

subsection \<open>Properties\<close>

text \<open>
  C6: \<open>ClaimNextTask\<close> hands out the best eligible task and changes nothing else. When it
  returns a task, that task was pending, not dead-lettered, for the asking agent and below
  its attempt limit, no eligible task precedes it in lane, priority and age, and only its
  row changed; when it returns none, none was eligible; when it fails, nothing changed.
\<close>
theorem ClaimNextTask_best:
  assumes "keys_ok (pool_tables d)"
  shows "case ClaimNextTask agent d of
     (Ok res, d') \<Rightarrow> claim_effect agent (now d) (pool_tables d) res (pool_tables d')
   | (Err e, d') \<Rightarrow> pool_tables d' = pool_tables d
   | (Blocked, d') \<Rightarrow> pool_tables d' = pool_tables d"
  using ClaimNextTask_step [OF assms, of agent] by (auto split: prod.splits outcome.splits)

theorem ClaimNextTask_best_witness:
  "\<exists>task d'. ClaimNextTask ''a'' (handle_of ''sqlite3'' sample_queue []) = (Ok (Some task), d') \<and>
     claim_effect ''a'' 100 sample_queue (Some task) (pool_tables d') \<and> T_TaskID task = ''t2''"
proof -
  let ?d = "handle_of ''sqlite3'' sample_queue []"
  have p: "pool_tables ?d = sample_queue" "now ?d = 100" by (simp_all add: handle_of_def pool_tables_def now_def)
  have k: "keys_ok (pool_tables ?d)" unfolding p by code_simp
  have "map_outcome_val (map_option T_TaskID) (fst (ClaimNextTask ''a'' ?d)) = Ok (Some ''t2'')" by code_simp
  then obtain task d' where "ClaimNextTask ''a'' ?d = (Ok (Some task), d')" "T_TaskID task = ''t2''"
    by (cases "ClaimNextTask ''a'' ?d"; cases "fst (ClaimNextTask ''a'' ?d)") auto
  with ClaimNextTask_best [OF k, of "''a''"] show ?thesis by (auto simp: p)
qed





text \<open>
  A live claim is never taken away. Whatever the engine fails during it, one tick of
  the requeue loop leaves every task alone that is not expired when it starts; in
  particular a claimed task whose last heartbeat is younger than its timeout.
\<close>
theorem requeue_spares_live_claims:
  assumes "keys_ok (pool_tables d)" and "x \<in> set (t_tasks (pool_tables d))" and "\<not> expired (now d) x"
  shows "x \<in> set (t_tasks (pool_tables (snd (RequeueLoop_tick d))))"
proof -
  let ?I = "\<lambda>t. x \<in> set (t_tasks t)" and ?q = "query (\<lambda>t. filter (expired (now d)) (t_tasks t))"
  obtain r d1 where q: "?q d = (r, d1)" by (cases "?q d")
  have i1: "?I (pool_tables d1)" using keepsD [OF keeps_query, of ?I d] q assms(2) by blast
  have k: "?I (pool_tables (snd (RequeueExpiredTasksWithDeadLetter d)))"
  proof (cases r)
    case (Ok rows)
    have "rows = filter (expired (now d)) (t_tasks (pool_tables d))"
      using query_OkD [OF q [unfolded Ok]] by simp
    then have "tk_task_id y \<noteq> tk_task_id x" if "y \<in> set rows" for y
      using that task_key_eq [OF assms(1) _ assms(2)] assms(3) by auto
    then have "keeps ?I (requeue_loop (IsPostgres d) (now d) rows 0 0)" by (rule keeps_other_tasks)
    with i1 q Ok show ?thesis
      by (auto simp: RequeueExpiredTasksWithDeadLetter_def failM_def keeps_def)
  qed (use i1 q in \<open>simp_all add: RequeueExpiredTasksWithDeadLetter_def\<close>)
  obtain r' d' where "RequeueExpiredTasksWithDeadLetter d = (r', d')"
    by (cases "RequeueExpiredTasksWithDeadLetter d")
  with k show ?thesis by (cases r') (simp_all add: RequeueLoop_tick_def bindM_def tryM_def returnM_def)
qed

theorem requeue_spares_live_claims_witness:
  "claim_set ''a'' 90 (task_row_of (sample_task ''t4'' ''normal'' 0) 4)
     \<in> set (t_tasks (pool_tables (snd (RequeueLoop_tick (handle_of ''sqlite3'' sample_queue [False, False, True])))))"
proof (rule requeue_spares_live_claims)
  let ?d = "handle_of ''sqlite3'' sample_queue [False, False, True]"
  show "keys_ok (pool_tables ?d)" by code_simp
  show "claim_set ''a'' 90 (task_row_of (sample_task ''t4'' ''normal'' 0) 4) \<in> set (t_tasks (pool_tables ?d))"
    by (simp add: pool_tables_def handle_of_def sample_queue_def)
  show "\<not> expired (now ?d) (claim_set ''a'' 90 (task_row_of (sample_task ''t4'' ''normal'' 0) 4))" by code_simp
qed

text \<open>
  On Postgres the requeue loop does nothing: its statement is refused, so a tick leaves
  every task as it was, and a claim whose worker died stays claimed for ever.
\<close>
theorem requeue_inert_on_postgres:
  assumes "IsPostgres d"
  shows "pool_tables (snd (RequeueLoop_tick d)) = pool_tables d"
proof -
  let ?q = "query (\<lambda>t. filter (expired (now d)) (t_tasks t))"
  obtain r d1 where q: "?q d = (r, d1)" by (cases "?q d")
  then have "pool_tables d1 = pool_tables d"
    by (rule query_same)
  with q assms show ?thesis
    by (cases r) (simp_all add: RequeueLoop_tick_def RequeueExpiredTasksWithDeadLetter_def bindM_def tryM_def
        returnM_def failM_def)
qed

theorem requeue_inert_on_postgres_witness:
  "pool_tables (snd (RequeueLoop_tick (handle_of ''pgx'' sample_queue []))) = sample_queue"
  using requeue_inert_on_postgres [of "handle_of ''pgx'' sample_queue []"]
  by (simp add: IsPostgres_def handle_of_def pool_tables_def)

text \<open>
  C23: on SQLite \<open>FailTask\<close> never returns. It reads the attempt counters through the pool
  while its caller's transaction holds the only connection, so every transaction that calls
  it waits for ever (unless it could not even begin).
\<close>
theorem FailTask_deadlocks_on_sqlite:
  assumes "IsSQLite d" and "saved d = None" and "fst (poll d) = False"
  shows "fst (Tx (FailTask i reason) d) = Blocked"
proof -
  obtain d1 where p: "poll d = (False, d1)" using assms(3) by (cases "poll d") simp
  have "\<not> IsPostgres d1" using driver_poll [OF p] assms(1) by (simp add: IsSQLite_def IsPostgres_def)
  then have "query f (d1\<lparr>saved := Some (tabs d1), tx_aborted := False\<rparr>) =
      (Blocked, d1\<lparr>saved := Some (tabs d1), tx_aborted := False\<rparr>)" for f :: "tables \<Rightarrow> (int \<times> int) option"
    by (simp add: query_def IsPostgres_def)
  then show ?thesis using p assms(2) by (simp add: Tx_def FailTask_def Let_def tryM_def bindM_def)
qed

theorem FailTask_deadlocks_on_sqlite_witness:
  "fst (Tx (FailTask ''t3'' ''boom'') (handle_of ''sqlite3'' sample_queue [])) = Blocked"
  by (rule FailTask_deadlocks_on_sqlite) (simp_all add: IsSQLite_def handle_of_def)

end
