(* ===== verification/Plan.thy ===== *)
theory Plan
  imports Commit Tasks
begin

section \<open>The plan graph: internal/store/plan.go\<close>

text \<open>
  Plans decoded from the workflow state, the nodes that are ready (pending, every blocker
  done), the tasks enqueued for them, and the marking of a node as done, which writes a new
  snapshot. Decoding follows \<^verbatim>\<open>encoding/json\<close> into the Go structs: a missing or null
  field is the zero value, a value of another kind is an error; keys are matched as written.
\<close>

record PlanNode =
  PN_ID :: string
  PN_Title :: string
  PN_Agent :: string
  PN_Status :: string
  PN_Risk :: string
  PN_OutputSchema :: string

record PlanEdge =
  PE_From :: string
  PE_To :: string
  PE_Reason :: string

record Plan =
  PL_Nodes :: "PlanNode list"
  PL_Edges :: "PlanEdge list"

record ModelRoute =
  MR_NodeAgent :: string
  MR_AgentID :: string
  MR_Model :: string

subsection \<open>Decoding\<close>

definition dec_string :: "(string \<times> json) list \<Rightarrow> string \<Rightarrow> string option" where
  "dec_string m k = (case map_of m k of
      None \<Rightarrow> Some [] | Some JNull \<Rightarrow> Some [] | Some (JStr s) \<Rightarrow> Some s | _ \<Rightarrow> None)"

definition obj_of :: "json \<Rightarrow> (string \<times> json) list option" where
  "obj_of j = (case j of JObj m \<Rightarrow> Some m | JNull \<Rightarrow> Some [] | _ \<Rightarrow> None)"

definition dec_node :: "json \<Rightarrow> PlanNode option" where
  "dec_node j = (case obj_of j of None \<Rightarrow> None | Some m \<Rightarrow>
     (case (dec_string m ''id'', dec_string m ''title'', dec_string m ''agent'', dec_string m ''status'',
            dec_string m ''risk'', dec_string m ''output_schema'') of
        (Some i, Some ti, Some ag, Some st, Some ri, Some os) \<Rightarrow>
          Some \<lparr>PN_ID = i, PN_Title = ti, PN_Agent = ag, PN_Status = st, PN_Risk = ri, PN_OutputSchema = os\<rparr>
      | _ \<Rightarrow> None))"

definition dec_edge :: "json \<Rightarrow> PlanEdge option" where
  "dec_edge j = (case obj_of j of None \<Rightarrow> None | Some m \<Rightarrow>
     (case (dec_string m ''from'', dec_string m ''to'', dec_string m ''reason'') of
        (Some f, Some t, Some r) \<Rightarrow> Some \<lparr>PE_From = f, PE_To = t, PE_Reason = r\<rparr>
      | _ \<Rightarrow> None))"

fun dec_all :: "('j \<Rightarrow> 'a option) \<Rightarrow> 'j list \<Rightarrow> 'a list option" where
  "dec_all f [] = Some []"
| "dec_all f (v # vs) = (case (f v, dec_all f vs) of (Some x, Some xs) \<Rightarrow> Some (x # xs) | _ \<Rightarrow> None)"

definition dec_list :: "(json \<Rightarrow> 'a option) \<Rightarrow> json option \<Rightarrow> 'a list option" where
  "dec_list f j = (case j of None \<Rightarrow> Some [] | Some JNull \<Rightarrow> Some [] | Some (JArr vs) \<Rightarrow> dec_all f vs | _ \<Rightarrow> None)"

definition dec_plan :: "json option \<Rightarrow> Plan option" where
  "dec_plan j = (case (case j of None \<Rightarrow> Some [] | Some v \<Rightarrow> obj_of v) of
      None \<Rightarrow> None
    | Some m \<Rightarrow> (case (dec_list dec_node (map_of m ''nodes''), dec_list dec_edge (map_of m ''edges'')) of
          (Some ns, Some es) \<Rightarrow> Some \<lparr>PL_Nodes = ns, PL_Edges = es\<rparr>
        | _ \<Rightarrow> None))"

definition dec_state :: "string \<Rightarrow> Plan option" where
  "dec_state s = (case unmarshal_map s of None \<Rightarrow> None | Some m \<Rightarrow> dec_plan (map_of m ''plan''))"

subsection \<open>Ready nodes\<close>

text \<open>The two Go maps are functions: a missing key of \<^verbatim>\<open>done\<close> is false, of \<^verbatim>\<open>blockers\<close> the nil slice.\<close>

definition done_map :: "PlanNode list \<Rightarrow> string \<Rightarrow> bool" where
  "done_map ns = fold (\<lambda>n m. if PN_Status n = ''done'' then m(PN_ID n := True) else m) ns (\<lambda>_. False)"

definition blockers_map :: "PlanEdge list \<Rightarrow> string \<Rightarrow> string list" where
  "blockers_map es = fold (\<lambda>e m. m(PE_To e := m (PE_To e) @ [PE_From e])) es (\<lambda>_. [])"

definition readyNodes :: "Plan \<Rightarrow> PlanNode list" where
  "readyNodes p =
     (let dn = done_map (PL_Nodes p); bl = blockers_map (PL_Edges p) in
      filter (\<lambda>n. PN_Status n = ''pending'' \<and> list_all dn (bl (PN_ID n))) (PL_Nodes p))"

definition riskToLane :: "string \<Rightarrow> string" where
  "riskToLane risk =
     (if risk = ''critical'' then PriorityLaneCritical
      else if risk = ''high'' \<or> risk = ''medium'' then PriorityLaneNormal
      else PriorityLaneBackground)"

subsection \<open>Enqueueing\<close>

definition active_for_node :: "string \<Rightarrow> string \<Rightarrow> task_row \<Rightarrow> bool" where
  "active_for_node w n r \<longleftrightarrow> tk_workflow_id r = w \<and> tk_node_id r = n \<and>
     tk_status r \<in> {''pending'', ''claimed''} \<and> tk_dead_lettered r = 0"

definition getActiveTaskForNode :: "string \<Rightarrow> string \<Rightarrow> Task option dbm" where
  "getActiveTaskForNode w n = query (\<lambda>t. map_option scanTask (find (active_for_node w n) (t_tasks t)))"

definition plan_task_id :: "string \<Rightarrow> string \<Rightarrow> string" where
  "plan_task_id w n = ''task_'' @ w @ ''_'' @ n"

definition plan_task :: "string \<Rightarrow> ModelRoute list \<Rightarrow> int \<Rightarrow> PlanNode \<Rightarrow> Task" where
  "plan_task w routes seq node =
     (let route = map_of (rev (map (\<lambda>r. (MR_NodeAgent r, r)) routes)) (PN_Agent node);
          agentID = (case route of None \<Rightarrow> PN_Agent node | Some r \<Rightarrow> MR_AgentID r);
          model = (case route of None \<Rightarrow> [] | Some r \<Rightarrow> MR_Model r) in
      \<lparr>T_TaskID = plan_task_id w (PN_ID node), T_WorkflowID = w, T_NodeID = PN_ID node, T_Agent = agentID,
       T_Status = [], T_Priority = 0, T_PriorityLane = riskToLane (PN_Risk node),
       T_InputJSON = marshal (JObj (go_map [(''workflow_id'', JStr w), (''node_id'', JStr (PN_ID node)),
          (''node_title'', JStr (PN_Title node)), (''output_schema'', JStr (PN_OutputSchema node)),
          (''model'', JStr model), (''state_seq'', JInt seq)])),
       T_OutputJSON = [], T_PolicyResultJSON = [], T_ClaimedBy = [], T_ClaimedAt = None, T_LastHeartbeat = None,
       T_TimeoutSec = 300, T_AttemptCount = 0, T_MaxAttempts = 3, T_DeadLettered = False, T_CompletedAt = None,
       T_FailedReason = [], T_CreatedAt = None, T_UpdatedAt = None\<rparr>)"

fun enqueue_loop :: "string \<Rightarrow> ModelRoute list \<Rightarrow> int \<Rightarrow> PlanNode list \<Rightarrow> string list \<Rightarrow> string list dbm" where
  "enqueue_loop w routes seq [] enqueued = returnM enqueued"
| "enqueue_loop w routes seq (node # nodes) enqueued =
     bindM (getActiveTaskForNode w (PN_ID node)) (\<lambda>existing.
       if existing \<noteq> None then enqueue_loop w routes seq nodes enqueued
       else bindM (tryM (Tx (EnqueueTask (plan_task w routes seq node)))) (\<lambda>res.
              case res of
                Inl e \<Rightarrow> enqueue_loop w routes seq nodes enqueued
              | Inr u \<Rightarrow> enqueue_loop w routes seq nodes (enqueued @ [plan_task_id w (PN_ID node)])))"

text \<open>A nil error under \<^verbatim>\<open>%w\<close> (no snapshot) still makes an error.\<close>

definition EnqueuePlanTasks :: "string \<Rightarrow> ModelRoute list \<Rightarrow> string list dbm" where
  "EnqueuePlanTasks w routes =
     bindM (wrapM ''get snapshot'' (GetLatestSnapshot w)) (\<lambda>snap.
       case snap of
         None \<Rightarrow> failM (EMsg ''get snapshot: %!w(<nil>)'')
       | Some s \<Rightarrow>
           (case dec_state (S_StateJSON s) of
              None \<Rightarrow> failM (EMsg ''parse state'')
            | Some p \<Rightarrow>
                if PL_Nodes p = [] then returnM []
                else let ready = readyNodes p in
                if ready = [] then returnM [] else enqueue_loop w routes (S_Seq s) ready []))"

subsection \<open>Marking a node done\<close>

fun mark_nodes :: "string \<Rightarrow> json list \<Rightarrow> json list" where
  "mark_nodes i [] = []"
| "mark_nodes i (JObj m # vs) =
     (if map_of m ''id'' = Some (JStr i) then JObj (map_put ''status'' (JStr ''done'') m) # vs
      else JObj m # mark_nodes i vs)"
| "mark_nodes i (v # vs) = v # mark_nodes i vs"

definition mark_plan :: "string \<Rightarrow> (string \<times> json) list \<Rightarrow> (string \<times> json) list" where
  "mark_plan i plan =
     map_put ''nodes'' (case map_of plan ''nodes'' of Some (JArr vs) \<Rightarrow> JArr (mark_nodes i vs) | _ \<Rightarrow> JNull) plan"

text \<open>Without a plan object the assignment to the nil map \<^verbatim>\<open>planRaw\<close> panics.\<close>

definition mark_and_save :: "string \<Rightarrow> string \<Rightarrow> WorkflowSnapshot \<Rightarrow> unit dbm" where
  "mark_and_save w nodeID snap =
     (case unmarshal_map (S_StateJSON snap) of
        None \<Rightarrow> failM (EMsg ''parse state'')
      | Some state \<Rightarrow>
          (case map_of state ''plan'' of
             Some (JObj plan) \<Rightarrow>
               Tx (SaveSnapshot \<lparr>S_WorkflowID = w, S_Seq = wrap64 (S_Seq snap + 1),
                 S_StateJSON = marshal (JObj (map_put ''plan'' (JObj (mark_plan nodeID plan)) state)),
                 S_StateHash = ''sha256:plan-node-'' @ nodeID @ ''-done'', S_CreatedAt = None\<rparr>)
           | _ \<Rightarrow> failM (EPanic ''assignment to entry in nil map'')))"

definition MarkPlanNodeDone :: "string \<Rightarrow> string \<Rightarrow> unit dbm" where
  "MarkPlanNodeDone w nodeID =
     bindM (wrapM ''get snapshot'' (GetLatestSnapshot w)) (\<lambda>snap.
       case snap of
         None \<Rightarrow> failM (EMsg ''get snapshot: %!w(<nil>)'')
       | Some s \<Rightarrow> mark_and_save w nodeID s)"

subsection \<open>Readiness, declaratively\<close>

lemma done_map_iff: "done_map ns i \<longleftrightarrow> (\<exists>n \<in> set ns. PN_ID n = i \<and> PN_Status n = ''done'')"
proof -
  have "fold (\<lambda>n m. if PN_Status n = ''done'' then m(PN_ID n := True) else m) ns m i \<longleftrightarrow>
      m i \<or> (\<exists>n \<in> set ns. PN_ID n = i \<and> PN_Status n = ''done'')" for m
    by (induction ns arbitrary: m) auto
  then show ?thesis by (simp add: done_map_def)
qed

lemma blockers_map_eq: "blockers_map es i = map PE_From (filter (\<lambda>e. PE_To e = i) es)"
proof -
  have "fold (\<lambda>e m. m(PE_To e := m (PE_To e) @ [PE_From e])) es m i =
      m i @ map PE_From (filter (\<lambda>e. PE_To e = i) es)" for m
    by (induction es arbitrary: m) auto
  then show ?thesis by (simp add: blockers_map_def)
qed

definition is_done :: "Plan \<Rightarrow> string \<Rightarrow> bool" where
  "is_done p i \<longleftrightarrow> list_ex (\<lambda>n. PN_ID n = i \<and> PN_Status n = ''done'') (PL_Nodes p)"

definition unblocked :: "Plan \<Rightarrow> PlanNode \<Rightarrow> bool" where
  "unblocked p n \<longleftrightarrow> list_all (\<lambda>e. PE_To e = PN_ID n \<longrightarrow> is_done p (PE_From e)) (PL_Edges p)"

lemma readyNodes_filter:
  "readyNodes p = filter (\<lambda>n. PN_Status n = ''pending'' \<and> unblocked p n) (PL_Nodes p)"
  by (auto simp: readyNodes_def unblocked_def is_done_def done_map_iff blockers_map_eq list_all_iff list_ex_iff
      intro!: filter_cong)

subsection \<open>A valid plan never stalls\<close>

definition plan_edges :: "Plan \<Rightarrow> (string \<times> string) set" where
  "plan_edges p = set (map (\<lambda>e. (PE_From e, PE_To e)) (PL_Edges p))"

definition plan_closed :: "Plan \<Rightarrow> bool" where
  "plan_closed p \<longleftrightarrow>
     list_all (\<lambda>e. PE_From e \<in> PN_ID ` set (PL_Nodes p)) (PL_Edges p) \<and>
     list_all (\<lambda>n. PN_Status n \<in> {''pending'', ''done''}) (PL_Nodes p)"

lemma ready_exists:
  assumes "acyclic (plan_edges p)" and "plan_closed p"
    and "n \<in> set (PL_Nodes p)" and "PN_Status n = ''pending''"
  shows "readyNodes p \<noteq> []"
proof -
  let ?Q = "PN_ID ` {n \<in> set (PL_Nodes p). PN_Status n = ''pending''}"
  have "wf (plan_edges p)" using assms(1) by (intro finite_acyclic_wf) (simp_all add: plan_edges_def)
  moreover have "PN_ID n \<in> ?Q" using assms(3,4) by blast
  ultimately obtain z where z: "z \<in> ?Q" and least: "\<And>y. (y, z) \<in> plan_edges p \<Longrightarrow> y \<notin> ?Q"
    by (rule wfE_min) blast
  obtain m where m: "m \<in> set (PL_Nodes p)" "PN_Status m = ''pending''" "PN_ID m = z" using z by blast
  have "is_done p (PE_From e)" if "e \<in> set (PL_Edges p)" "PE_To e = z" for e
  proof -
    have nq: "PE_From e \<notin> ?Q" using that by (intro least) (auto simp: plan_edges_def)
    have "PE_From e \<in> PN_ID ` set (PL_Nodes p)"
      using assms(2) that(1) by (simp add: plan_closed_def list_all_iff)
    then obtain k where k: "PE_From e = PN_ID k" "k \<in> set (PL_Nodes p)" by (rule imageE)
    have "PN_Status k \<noteq> ''pending''" using nq k by blast
    with k(2) assms(2) have "PN_Status k = ''done''" by (auto simp: plan_closed_def list_all_iff)
    with k show ?thesis unfolding is_done_def list_ex_iff by metis
  qed
  then have "unblocked p m" using m(3) by (simp add: unblocked_def list_all_iff)
  with m have "m \<in> set (readyNodes p)" by (simp add: readyNodes_filter)
  then show ?thesis by auto
qed

subsection \<open>Marking commutes with decoding\<close>

fun finish_first :: "string \<Rightarrow> PlanNode list \<Rightarrow> PlanNode list" where
  "finish_first i [] = []"
| "finish_first i (n # ns) = (if PN_ID n = i then n\<lparr>PN_Status := ''done''\<rparr> # ns else n # finish_first i ns)"

lemma dec_string_put: "dec_string (map_put k v m) k' = (if k' = k then dec_string [(k, v)] k else dec_string m k')"
  by (simp add: dec_string_def map_of_map_put)

lemma dec_node_put:
  "dec_node (JObj m) = Some n \<Longrightarrow> dec_node (JObj (map_put ''status'' (JStr ''done'') m)) = Some (n\<lparr>PN_Status := ''done''\<rparr>)"
  by (auto simp: dec_node_def obj_of_def dec_string_put dec_string_def [of "[_]"] split: option.splits)

lemma dec_string_nonempty:
  "i \<noteq> [] \<Longrightarrow> dec_string m k = Some i \<longleftrightarrow> map_of m k = Some (JStr i)"
  by (auto simp: dec_string_def split: option.splits json.splits)

lemma dec_node_id:
  assumes "dec_node (JObj m) = Some n" and "i \<noteq> []"
  shows "map_of m ''id'' = Some (JStr i) \<longleftrightarrow> PN_ID n = i"
proof -
  have "dec_string m ''id'' = Some (PN_ID n)"
    using assms(1) by (auto simp: dec_node_def obj_of_def split: option.splits)
  then show ?thesis using dec_string_nonempty [OF assms(2), of m "''id''"] by auto
qed

lemma dec_node_other:
  "dec_node v = Some n \<Longrightarrow> (\<And>m. v \<noteq> JObj m) \<Longrightarrow> PN_ID n = []"
  by (cases v) (auto simp: dec_node_def obj_of_def dec_string_def)

lemma dec_all_mark:
  assumes "i \<noteq> []" and "dec_all dec_node vs = Some ns"
  shows "dec_all dec_node (mark_nodes i vs) = Some (finish_first i ns)"
  using assms(2)
proof (induction vs arbitrary: ns)
  case (Cons v vs)
  then obtain x xs where x: "dec_node v = Some x" and xs: "dec_all dec_node vs = Some xs" and ns: "ns = x # xs"
    by (auto split: option.splits)
  show ?case
  proof (cases "\<exists>m. v = JObj m")
    case True
    then obtain m where v: "v = JObj m" by blast
    show ?thesis
      using Cons.IH [OF xs] dec_node_id [OF x [unfolded v] assms(1)] dec_node_put [OF x [unfolded v]] x xs
      by (simp add: v ns)
  next
    case False
    then have "PN_ID x = []" using dec_node_other [OF x] by blast
    moreover have "mark_nodes i (v # vs) = v # mark_nodes i vs" using False by (cases v) auto
    ultimately show ?thesis using Cons.IH [OF xs] x assms(1) by (simp add: ns)
  qed
qed simp

lemma dec_plan_mark:
  assumes "i \<noteq> []" and "dec_plan (Some (JObj plan)) = Some p"
  shows "dec_plan (Some (JObj (mark_plan i plan))) = Some (p\<lparr>PL_Nodes := finish_first i (PL_Nodes p)\<rparr>)"
  using assms
  by (auto simp: dec_plan_def obj_of_def mark_plan_def map_of_map_put dec_list_def dec_all_mark
      split: option.splits json.splits)

lemma wf_mark_nodes: "wf_elems vs \<Longrightarrow> wf_elems (mark_nodes i vs)"
proof (induction i vs rule: mark_nodes.induct)
  case (2 i m vs)
  then show ?case using wf_map_put [of m "JStr ''done''" "''status''"] by simp
qed auto

lemma wf_mark_plan:
  assumes "wf_json (JObj plan)"
  shows "wf_json (JObj (mark_plan i plan))"
  unfolding mark_plan_def
proof (rule wf_map_put [OF assms])
  show "wf_json (case map_of plan ''nodes'' of Some (JArr vs) \<Rightarrow> JArr (mark_nodes i vs) | _ \<Rightarrow> JNull)"
    by (auto intro!: wf_mark_nodes dest: wf_map_of [OF assms] split: option.splits json.splits)
qed

lemma dec_state_mark:
  assumes "i \<noteq> []" and "unmarshal_map s = Some state" and "map_of state ''plan'' = Some (JObj plan)"
    and "dec_state s = Some p"
  shows "dec_state (marshal (JObj (map_put ''plan'' (JObj (mark_plan i plan)) state))) =
     Some (p\<lparr>PL_Nodes := finish_first i (PL_Nodes p)\<rparr>)"
proof -
  have w: "wf_json (JObj state)" using unmarshal_map_wf [OF assms(2)] .
  have "wf_json (JObj plan)" using wf_map_of [OF w assms(3)] .
  then have "wf_json (JObj (map_put ''plan'' (JObj (mark_plan i plan)) state))"
    using w wf_mark_plan by (intro wf_map_put)
  then have "unmarshal_map (marshal (JObj (map_put ''plan'' (JObj (mark_plan i plan)) state))) =
      Some (map_put ''plan'' (JObj (mark_plan i plan)) state)" by (rule unmarshal_map_marshal)
  moreover have "dec_plan (Some (JObj plan)) = Some p" using assms(2-4) by (simp add: dec_state_def)
  ultimately show ?thesis using dec_plan_mark [OF assms(1)] by (simp add: dec_state_def map_of_map_put)
qed

subsection \<open>What marking writes\<close>

definition marked_snapshot :: "string \<Rightarrow> string \<Rightarrow> snapshot_row \<Rightarrow> (string \<times> json) list \<Rightarrow> (string \<times> json) list \<Rightarrow> int \<Rightarrow> snapshot_row" where
  "marked_snapshot w i r state plan ts =
     \<lparr>sn_workflow_id = w, sn_seq = wrap64 (sn_seq r + 1),
      sn_state_json = marshal (JObj (map_put ''plan'' (JObj (mark_plan i plan)) state)),
      sn_state_hash = ''sha256:plan-node-'' @ i @ ''-done'', sn_created_at = ts\<rparr>"

lemma MarkPlanNodeDone_Ok:
  assumes "MarkPlanNodeDone w i d = (Ok u, d')"
  shows "\<exists>r state plan fk ts. latest_snapshot_row (\<lambda>x. sn_workflow_id x = w) (pool_tables d) = Some r \<and>
     unmarshal_map (sn_state_json r) = Some state \<and> map_of state ''plan'' = Some (JObj plan) \<and>
     insertOrReplaceSnapshot fk (marked_snapshot w i r state plan ts) (pool_tables d) = Inr (1, pool_tables d')"
proof -
  obtain s d1 where q: "GetLatestSnapshot w d = (Ok (Some s), d1)"
    and rest: "mark_and_save w i s d1 = (Ok u, d')"
    using assms by (auto simp: MarkPlanNodeDone_def bindM_Ok wrapM_Ok failM_Ok split: option.splits)
  obtain r where r: "latest_snapshot_row (\<lambda>x. sn_workflow_id x = w) (pool_tables d) = Some r"
    and s: "s = scanSnapshot r"
    using query_OkD [OF q [unfolded GetLatestSnapshot_def]]
    by (cases "latest_snapshot_row (\<lambda>x. sn_workflow_id x = w) (pool_tables d)") auto
  have p1: "pool_tables d1 = pool_tables d"
    by (rule query_same [OF q [unfolded GetLatestSnapshot_def]])
  obtain state plan where st: "unmarshal_map (sn_state_json r) = Some state" "map_of state ''plan'' = Some (JObj plan)"
    and tx: "Tx (SaveSnapshot \<lparr>S_WorkflowID = w, S_Seq = wrap64 (S_Seq s + 1),
          S_StateJSON = marshal (JObj (map_put ''plan'' (JObj (mark_plan i plan)) state)),
          S_StateHash = ''sha256:plan-node-'' @ i @ ''-done'', S_CreatedAt = None\<rparr>) d1 = (Ok u, d')"
    using rest by (auto simp: mark_and_save_def s scanSnapshot_def failM_Ok split: option.splits json.splits)
  from tx.run_success [OF framed_SaveSnapshot tx] obtain e1 e2 where e: "tabs e1 = pool_tables d1" "pool_tables d' = tabs e2"
    and sv: "SaveSnapshot \<lparr>S_WorkflowID = w, S_Seq = wrap64 (S_Seq s + 1),
          S_StateJSON = marshal (JObj (map_put ''plan'' (JObj (mark_plan i plan)) state)),
          S_StateHash = ''sha256:plan-node-'' @ i @ ''-done'', S_CreatedAt = None\<rparr> e1 = (Ok u, e2)" by blast
  have "insertOrReplaceSnapshot (fk_on e1) (marked_snapshot w i r state plan (now e1)) (pool_tables d) = Inr (1, pool_tables d')"
    using SaveSnapshot_Ok [OF sv] e p1 by (simp add: marked_snapshot_def s scanSnapshot_def)
  with r st show ?thesis by blast
qed

lemma MarkPlanNodeDone_latest:
  assumes "keys_ok (pool_tables d)" and "MarkPlanNodeDone w i d = (Ok u, d')"
    and "latest_snapshot_row (\<lambda>x. sn_workflow_id x = w) (pool_tables d) = Some r"
    and "int64_range (sn_seq r + 1)"
  shows "\<exists>state plan ts. unmarshal_map (sn_state_json r) = Some state \<and> map_of state ''plan'' = Some (JObj plan) \<and>
     latest_snapshot_row (\<lambda>x. sn_workflow_id x = w) (pool_tables d') = Some (marked_snapshot w i r state plan ts) \<and>
     keys_ok (pool_tables d')"
proof -
  obtain state plan fk ts where st: "unmarshal_map (sn_state_json r) = Some state" "map_of state ''plan'' = Some (JObj plan)"
    and ins: "insertOrReplaceSnapshot fk (marked_snapshot w i r state plan ts) (pool_tables d) = Inr (1, pool_tables d')"
    using MarkPlanNodeDone_Ok [OF assms(2)] assms(3) by auto
  have "latest_snapshot_row (\<lambda>x. sn_workflow_id x = w) (pool_tables d') = Some (marked_snapshot w i r state plan ts)"
  proof (rule latest_snapshot_upsert [OF assms(1) _ _ ins])
    show "sn_seq x \<le> sn_seq (marked_snapshot w i r state plan ts)"
      if "x \<in> set (t_snapshots (pool_tables d))" "sn_workflow_id x = w" for x
      using latest_snapshot_Some [OF assms(3)] that wrap64_id [OF assms(4)] by (fastforce simp: marked_snapshot_def)
  qed (simp add: marked_snapshot_def)
  with st keys_upsert_snapshot [OF ins assms(1)] show ?thesis by blast
qed

lemma MarkPlanNodeDone_live:
  assumes "quiet d" and "latest_snapshot_row (\<lambda>x. sn_workflow_id x = w) (tabs d) = Some r"
    and "unmarshal_map (sn_state_json r) = Some state" and "map_of state ''plan'' = Some (JObj plan)"
    and "fk_workflow (fk_on d) (tabs d) w"
  shows "MarkPlanNodeDone w i d = (Ok (), d\<lparr>tabs := (tabs d)\<lparr>t_snapshots :=
     replace_row sn_key (marked_snapshot w i r state plan (now d)) (t_snapshots (tabs d))\<rparr>\<rparr>)"
proof -
  have "GetLatestSnapshot w d = (Ok (Some (scanSnapshot r)), d)"
    using assms(1,2) by (simp add: GetLatestSnapshot_def)
  then show ?thesis
    using assms(1,3-5)
    by (simp add: MarkPlanNodeDone_def mark_and_save_def scanSnapshot_def Tx_live SaveSnapshot_def quiet_def
        insertOrReplaceSnapshot_def marked_snapshot_def returnM_def now_def)
qed

subsection \<open>What enqueueing writes\<close>

definition settled :: "bool \<Rightarrow> string \<Rightarrow> tables \<Rightarrow> PlanNode \<Rightarrow> bool" where
  "settled fk w t n \<longleftrightarrow> list_ex (active_for_node w (PN_ID n)) (t_tasks t) \<or>
     key_used tk_task_id (plan_task_id w (PN_ID n)) (t_tasks t) \<or> \<not> fk_workflow fk t w"

lemma plan_task_row [simp]:
  "tk_task_id (task_row_of (plan_task w routes seq n) ts) = plan_task_id w (PN_ID n)"
  "tk_workflow_id (task_row_of (plan_task w routes seq n) ts) = w"
  by (simp_all add: task_row_of_def plan_task_def Let_def)

lemma enqueue_live:
  assumes "quiet d"
  shows "Tx (EnqueueTask x) d = (case stmt_insert_task (fk_on d) (task_row_of x (now d)) (tabs d) of
      Inl e \<Rightarrow> (Err e, d) | Inr (n, t) \<Rightarrow> (Ok (), d\<lparr>tabs := t\<rparr>))"
proof -
  have d: "d\<lparr>saved := None, tx_aborted := False\<rparr> = d" using assms by (simp add: quiet_def)
  show ?thesis
    using assms d
    by (auto simp: Tx_live EnqueueTask_def quiet_def now_def bindM_def returnM_def rollback_def stmt_failed_def
        split: sum.splits prod.splits)
qed

lemma settled_mono: "settled fk w t n \<Longrightarrow> settled fk w (t\<lparr>t_tasks := t_tasks t @ ts\<rparr>) n"
  by (auto simp: settled_def key_used_def fk_workflow_def)

lemma active_live:
  "quiet d \<Longrightarrow> getActiveTaskForNode w i d =
     (Ok (map_option scanTask (find (active_for_node w i) (t_tasks (tabs d)))), d)"
  by (simp add: getActiveTaskForNode_def)

lemma find_ex: "find P xs \<noteq> None \<longleftrightarrow> list_ex P xs"
  by (auto simp: find_None_iff list_ex_iff)

lemma enqueue_loop_settled:
  assumes "quiet d" and "\<And>n. n \<in> set ns \<Longrightarrow> settled (fk_on d) w (tabs d) n"
  shows "enqueue_loop w routes seq ns acc d = (Ok acc, d)"
  using assms(2)
proof (induction ns)
  case (Cons n ns)
  have s: "settled (fk_on d) w (tabs d) n" using Cons.prems by simp
  show ?case
  proof (cases "find (active_for_node w (PN_ID n)) (t_tasks (tabs d)) = None")
    case True
    then have "\<exists>e. stmt_insert_task (fk_on d) (task_row_of (plan_task w routes seq n) (now d)) (tabs d) = Inl e"
      using s by (auto simp: settled_def stmt_insert_task_def find_None_iff list_ex_iff)
    then obtain e where "Tx (EnqueueTask (plan_task w routes seq n)) d = (Err e, d)"
      using enqueue_live [OF assms(1)] by fastforce
    then show ?thesis using Cons True active_live [OF assms(1)] by (simp add: tryM_def)
  next
    case False
    then show ?thesis using Cons active_live [OF assms(1)] by simp
  qed
qed (simp add: returnM_def)

lemma enqueue_loop_live:
  assumes "quiet d"
  shows "\<exists>ts. enqueue_loop w routes seq ns acc d =
       (Ok (acc @ map tk_task_id ts), d\<lparr>tabs := (tabs d)\<lparr>t_tasks := t_tasks (tabs d) @ ts\<rparr>\<rparr>) \<and>
     (\<forall>x \<in> set ts. \<exists>n \<in> set ns. x = task_row_of (plan_task w routes seq n) (now d)) \<and>
     (\<forall>n \<in> set ns. settled (fk_on d) w ((tabs d)\<lparr>t_tasks := t_tasks (tabs d) @ ts\<rparr>) n)"
  using assms
proof (induction ns arbitrary: acc d)
  case Nil
  then show ?case by (intro exI [of _ "[]"]) (simp add: returnM_def)
next
  case (Cons n ns)
  let ?x = "task_row_of (plan_task w routes seq n) (now d)"
  show ?case
  proof (cases "settled (fk_on d) w (tabs d) n")
    case True
    then have "enqueue_loop w routes seq (n # ns) acc d = enqueue_loop w routes seq ns acc d"
      using enqueue_loop_settled [OF Cons.prems, of "[n]" w routes seq acc]
      by (auto simp: bindM_def active_live [OF Cons.prems] tryM_def returnM_def
          split: outcome.splits prod.splits sum.splits if_splits)
    then show ?thesis using Cons.IH [OF Cons.prems, of acc] settled_mono [OF True] by auto
  next
    case False
    let ?d = "d\<lparr>tabs := (tabs d)\<lparr>t_tasks := t_tasks (tabs d) @ [?x]\<rparr>\<rparr>"
    have none: "find (active_for_node w (PN_ID n)) (t_tasks (tabs d)) = None"
      using False by (auto simp: settled_def find_None_iff list_ex_iff)
    have "Tx (EnqueueTask (plan_task w routes seq n)) d = (Ok (), ?d)"
      using False enqueue_live [OF Cons.prems] by (simp add: settled_def stmt_insert_task_def)
    then have step: "enqueue_loop w routes seq (n # ns) acc d =
        enqueue_loop w routes seq ns (acc @ [plan_task_id w (PN_ID n)]) ?d"
      using none active_live [OF Cons.prems] by (simp add: tryM_def)
    have "quiet ?d" using Cons.prems by simp
    from Cons.IH [OF this, of "acc @ [plan_task_id w (PN_ID n)]"] obtain ts where
      l: "enqueue_loop w routes seq ns (acc @ [plan_task_id w (PN_ID n)]) ?d =
         (Ok ((acc @ [plan_task_id w (PN_ID n)]) @ map tk_task_id ts),
          d\<lparr>tabs := (tabs d)\<lparr>t_tasks := (t_tasks (tabs d) @ [?x]) @ ts\<rparr>\<rparr>)" and
      o: "\<forall>x \<in> set ts. \<exists>n \<in> set ns. x = task_row_of (plan_task w routes seq n) (now d)" and
      st: "\<forall>n \<in> set ns. settled (fk_on d) w ((tabs d)\<lparr>t_tasks := (t_tasks (tabs d) @ [?x]) @ ts\<rparr>) n"
      by (auto simp: now_def)
    have "settled (fk_on d) w ((tabs d)\<lparr>t_tasks := (t_tasks (tabs d) @ [?x]) @ ts\<rparr>) n"
      by (simp add: settled_def key_used_def)
    with step l o st show ?thesis by (intro exI [of _ "?x # ts"]) auto
  qed
qed

subsection \<open>Concrete inputs\<close>

definition sample_node :: "string \<Rightarrow> string \<Rightarrow> PlanNode" where
  "sample_node i st = \<lparr>PN_ID = i, PN_Title = [], PN_Agent = ''ag'', PN_Status = st, PN_Risk = ''high'', PN_OutputSchema = []\<rparr>"

definition sample_plan :: Plan where
  "sample_plan = \<lparr>PL_Nodes = [sample_node ''b'' ''pending'', sample_node ''a'' ''pending''],
     PL_Edges = [\<lparr>PE_From = ''a'', PE_To = ''b'', PE_Reason = []\<rparr>]\<rparr>"

definition node_json :: "string \<Rightarrow> json" where
  "node_json i = JObj [(''agent'', JStr ''ag''), (''id'', JStr i), (''risk'', JStr ''high''), (''status'', JStr ''pending'')]"

definition sample_state :: "(string \<times> json) list" where
  "sample_state = [(''plan'', JObj [(''edges'', JArr [JObj [(''from'', JStr ''a''), (''to'', JStr ''b'')]]),
     (''nodes'', JArr [node_json ''b'', node_json ''a''])]), (''seq'', JInt 1)]"

definition sample_json :: string where
  "sample_json = marshal (JObj sample_state)"

definition sample_plan_row :: snapshot_row where
  "sample_plan_row = \<lparr>sn_workflow_id = ''w'', sn_seq = 1, sn_state_json = sample_json, sn_state_hash = ''h'', sn_created_at = 1\<rparr>"

definition sample_plan_tables :: tables where
  "sample_plan_tables = sample_tables\<lparr>t_snapshots := [sample_plan_row]\<rparr>"

lemma sample_state_wf: "wf_json (JObj sample_state)"
  by code_simp

lemma sample_state_parses: "unmarshal_map sample_json = Some sample_state"
  unfolding sample_json_def by (rule unmarshal_map_marshal) (rule sample_state_wf)

lemma sample_state_plan: "dec_state sample_json = Some sample_plan"
  unfolding dec_state_def sample_state_parses by code_simp

lemma sample_latest:
  "latest_snapshot_row (\<lambda>x. sn_workflow_id x = ''w'') sample_plan_tables = Some sample_plan_row"
  by (simp add: latest_snapshot_row_def sample_plan_tables_def sample_plan_row_def)

subsection \<open>Properties\<close>

text \<open>
  C24: \<open>readyNodes\<close>, computed with its two maps, returns in plan order exactly the pending
  nodes all of whose incoming edges come from a node that is done.
\<close>
theorem readyNodes_exact:
  "readyNodes p = filter (\<lambda>n. PN_Status n = ''pending'' \<and> unblocked p n) (PL_Nodes p)"
  by (rule readyNodes_filter)

text \<open>
  C25: a plan never stalls. If its edges form no cycle, every edge starts at a node of the
  plan and every node is pending or done, then as long as a node is pending some node is
  ready.
\<close>
theorem plan_never_stalls:
  assumes "acyclic (plan_edges p)" and "plan_closed p" and "n \<in> set (PL_Nodes p)" and "PN_Status n = ''pending''"
  shows "readyNodes p \<noteq> []"
  using assms by (rule ready_exists)

theorem plan_never_stalls_witness: "readyNodes sample_plan \<noteq> []"
proof (rule plan_never_stalls)
  show "acyclic (plan_edges sample_plan)"
    by (rule acyclicI_order [where f = "\<lambda>x. if x = ''a'' then 1 else (0::nat)"])
      (simp add: plan_edges_def sample_plan_def)
  show "plan_closed sample_plan" by code_simp
  show "sample_node ''b'' ''pending'' \<in> set (PL_Nodes sample_plan)" by (simp add: sample_plan_def)
  show "PN_Status (sample_node ''b'' ''pending'') = ''pending''" by (simp add: sample_node_def)
qed




lemma sample_mark_runs:
  "\<exists>d'. MarkPlanNodeDone ''w'' i (handle_of ''sqlite3'' sample_plan_tables []) = (Ok (), d')"
proof -
  have "\<exists>plan. map_of sample_state ''plan'' = Some (JObj plan)" by (simp add: sample_state_def)
  moreover have "fk_workflow True sample_plan_tables ''w''"
    by (simp add: fk_workflow_def sample_plan_tables_def sample_tables_def sample_workflow_def key_used_def)
  ultimately show ?thesis
    using MarkPlanNodeDone_live [OF quiet_handle, of "''w''" "''sqlite3''" sample_plan_tables sample_plan_row sample_state]
    by (auto simp: handle_of_def sample_latest sample_plan_row_def sample_state_parses)
qed


text \<open>
  C30: two nodes marked in a row hide the next transition. Marking writes a snapshot one past
  the newest without a receipt; after two marks a commit at the next sequence number
  succeeds, but the newest snapshot is still the one of the second mark, so every later read
  of the workflow's state misses the committed transition.
\<close>
theorem two_marks_hide_next_commit:
  assumes "keys_ok (pool_tables d)" and "latest_snapshot_row (\<lambda>x. sn_workflow_id x = w) (pool_tables d) = Some r"
    and "int64_range (sn_seq r + 2)" and "0 \<le> sn_seq r"
    and "MarkPlanNodeDone w i d = (Ok u1, d1)" and "MarkPlanNodeDone w j d1 = (Ok u2, d2)"
    and "CommitTransition C p d2 = (Ok u3, d3)" and "CP_WorkflowID p = w" and "TR_Seq (CP_Result p) = sn_seq r + 1"
    and "GetLatestSnapshot w d3 = (Ok x, e)"
  shows "map_option S_Seq x = Some (sn_seq r + 2) \<and>
    map_option S_StateHash x = Some (''sha256:plan-node-'' @ j @ ''-done'')"
proof -
  let ?P = "\<lambda>x. sn_workflow_id x = w"
  have r1: "int64_range (sn_seq r + 1)" using assms(3,4) by (simp add: int64_range_def minint_def maxint_def)
  obtain s1 q1 ts1 where l1: "latest_snapshot_row ?P (pool_tables d1) = Some (marked_snapshot w i r s1 q1 ts1)"
    and k1: "keys_ok (pool_tables d1)" using MarkPlanNodeDone_latest [OF assms(1,5,2) r1] by blast
  define r' where "r' = marked_snapshot w i r s1 q1 ts1"
  have n1: "sn_seq r' = sn_seq r + 1" using wrap64_id [OF r1] by (simp add: r'_def marked_snapshot_def)
  have r2: "int64_range (sn_seq r' + 1)" using assms(3) n1 by (simp add: add.assoc)
  obtain s2 q2 ts2 where l2: "latest_snapshot_row ?P (pool_tables d2) = Some (marked_snapshot w j r' s2 q2 ts2)"
    and k2: "keys_ok (pool_tables d2)"
    using MarkPlanNodeDone_latest [OF k1 assms(6) l1 [folded r'_def] r2] by blast
  define r'' where "r'' = marked_snapshot w j r' s2 q2 ts2"
  have n2: "sn_seq r'' = sn_seq r + 2" using wrap64_id [OF r2] n1 by (simp add: r''_def marked_snapshot_def)
  have in2: "r'' \<in> set (t_snapshots (pool_tables d2))" "?P r''"
    and mx: "\<And>x. x \<in> set (t_snapshots (pool_tables d2)) \<Longrightarrow> ?P x \<Longrightarrow> sn_seq x \<le> sn_seq r''"
    using latest_snapshot_Some [OF l2 [folded r''_def]] by auto
  have t3: "pool_tables d3 = commit_spec C p (now d2) (pool_tables d2)"
    and g: "transition_ok (fk_on d2) (CP_WorkflowID p) (CP_Result p) (pool_tables d2)"
    using commit_transition_step [OF assms(7)] by (simp_all add: commit_guard_def)
  have sn3: "t_snapshots (pool_tables d3) =
      replace_row sn_key (new_snapshot w (CP_Result p) (now d2)) (t_snapshots (pool_tables d2))"
    using assms(8) by (simp add: t3 commit_spec_def transition_tables_def)
  have "latest_snapshot_row ?P (pool_tables d3) = Some r''"
  proof (rule latest_snapshot_unique)
    show "keys_ok (pool_tables d3)" using transition_keys [OF k2 g] by (simp add: t3 commit_spec_def)
    show "r'' \<in> set (t_snapshots (pool_tables d3))"
      using in2 n2 assms(9) by (simp add: sn3 replace_row_def new_snapshot_def)
    show "sn_workflow_id r'' = w" by (fact in2(2))
    show "sn_seq y \<le> sn_seq r''" if "y \<in> set (t_snapshots (pool_tables d3))" "sn_workflow_id y = w" for y
    proof -
      have "y \<in> set (t_snapshots (pool_tables d2)) \<or> y = new_snapshot w (CP_Result p) (now d2)"
        using that(1) by (auto simp: sn3 replace_row_def)
      moreover have "sn_seq (new_snapshot w (CP_Result p) (now d2)) \<le> sn_seq r''"
        using n2 assms(9) by (simp add: new_snapshot_def)
      ultimately show ?thesis using mx that(2) by blast
    qed
  qed simp
  then show ?thesis
    using query_OkD [OF assms(10) [unfolded GetLatestSnapshot_def]] n2
    by (simp add: scanSnapshot_def r''_def marked_snapshot_def)
qed

lemma sample_two_marks:
  "\<exists>d1 d2 d3. MarkPlanNodeDone ''w'' ''a'' (handle_of ''sqlite3'' sample_plan_tables []) = (Ok (), d1) \<and>
     MarkPlanNodeDone ''w'' ''b'' d1 = (Ok (), d2) \<and> CommitTransition plain_crypto sample_commit d2 = (Ok (), d3) \<and> quiet d3"
proof -
  let ?d = "handle_of ''sqlite3'' sample_plan_tables []"
  obtain plan where pl: "map_of sample_state ''plan'' = Some (JObj plan)" by (simp add: sample_state_def)
  have fk: "fk_workflow True sample_plan_tables ''w''"
    by (simp add: fk_workflow_def sample_plan_tables_def sample_tables_def sample_workflow_def key_used_def)
  define r1 where "r1 = marked_snapshot ''w'' ''a'' sample_plan_row sample_state plan 100"
  define s1 where "s1 = map_put ''plan'' (JObj (mark_plan ''a'' plan)) sample_state"
  define d1 where "d1 = ?d\<lparr>tabs := sample_plan_tables\<lparr>t_snapshots := [sample_plan_row, r1]\<rparr>\<rparr>"
  have n1: "sn_seq r1 = 2" by (simp add: r1_def marked_snapshot_def sample_plan_row_def wrap64_def)
  have rr: "replace_row sn_key r1 [sample_plan_row] = [sample_plan_row, r1]"
    using n1 by (simp add: replace_row_def sample_plan_row_def)
  have "MarkPlanNodeDone ''w'' ''a'' ?d = (Ok (), ?d\<lparr>tabs := (tabs ?d)\<lparr>t_snapshots :=
      replace_row sn_key (marked_snapshot ''w'' ''a'' sample_plan_row sample_state plan (now ?d)) (t_snapshots (tabs ?d))\<rparr>\<rparr>)"
    by (rule MarkPlanNodeDone_live [OF quiet_handle _ _ pl])
      (use fk in \<open>simp_all add: handle_of_def sample_latest sample_plan_row_def sample_state_parses\<close>)
  then have m1: "MarkPlanNodeDone ''w'' ''a'' ?d = (Ok (), d1)"
    using rr by (simp add: d1_def r1_def handle_of_def now_def sample_plan_tables_def)
  have q1: "quiet d1" using quiet_handle by (simp add: d1_def)
  have l1: "latest_snapshot_row (\<lambda>x. sn_workflow_id x = ''w'') (tabs d1) = Some r1"
    using n1 by (simp add: latest_snapshot_row_def d1_def sample_plan_row_def r1_def marked_snapshot_def)
  have "wf_json (JObj s1)"
    unfolding s1_def
    by (intro wf_map_put sample_state_wf wf_mark_plan wf_map_of [OF sample_state_wf pl])
  then have u1: "unmarshal_map (sn_state_json r1) = Some s1"
    by (simp add: r1_def marked_snapshot_def s1_def [symmetric] unmarshal_map_marshal del: marshal.simps)
  have p1: "map_of s1 ''plan'' = Some (JObj (mark_plan ''a'' plan))" by (simp add: s1_def map_of_map_put)
  define r2 where "r2 = marked_snapshot ''w'' ''b'' r1 s1 (mark_plan ''a'' plan) (now d1)"
  define d2 where "d2 = d1\<lparr>tabs := (tabs d1)\<lparr>t_snapshots := replace_row sn_key r2 (t_snapshots (tabs d1))\<rparr>\<rparr>"
  have m2: "MarkPlanNodeDone ''w'' ''b'' d1 = (Ok (), d2)"
    unfolding d2_def r2_def
    by (rule MarkPlanNodeDone_live [OF q1 l1 u1 p1])
      (use fk in \<open>simp add: d1_def handle_of_def fk_workflow_def\<close>)
  have q2: "quiet d2" using q1 by (simp add: d2_def)
  have "commit_guard sample_commit (fk_on d2) (tabs d2)"
    using sample_guard
    by (simp add: commit_guard_def transition_ok_def fk_workflow_def d2_def d1_def handle_of_def sample_plan_tables_def)
  from commit_transition_live [OF q2 this, of plain_crypto] m1 m2 q2 show ?thesis by fastforce
qed

theorem two_marks_hide_next_commit_witness:
  "\<exists>d1 d2 d3 x. MarkPlanNodeDone ''w'' ''a'' (handle_of ''sqlite3'' sample_plan_tables []) = (Ok (), d1) \<and>
     MarkPlanNodeDone ''w'' ''b'' d1 = (Ok (), d2) \<and> CommitTransition plain_crypto sample_commit d2 = (Ok (), d3) \<and>
     GetLatestSnapshot ''w'' d3 = (Ok x, d3) \<and> map_option S_Seq x = Some 3"
proof -
  let ?d = "handle_of ''sqlite3'' sample_plan_tables []"
  obtain d1 d2 d3 where m: "MarkPlanNodeDone ''w'' ''a'' ?d = (Ok (), d1)" "MarkPlanNodeDone ''w'' ''b'' d1 = (Ok (), d2)"
    "CommitTransition plain_crypto sample_commit d2 = (Ok (), d3)" and q: "quiet d3"
    using sample_two_marks by blast
  have k: "keys_ok (pool_tables ?d)"
    by (simp add: keys_ok_def sample_plan_tables_def sample_tables_def empty_tables_def)
  have l: "latest_snapshot_row (\<lambda>x. sn_workflow_id x = ''w'') (pool_tables ?d) = Some sample_plan_row"
    by (simp add: sample_latest)
  have n: "int64_range (sn_seq sample_plan_row + 2)" "0 \<le> sn_seq sample_plan_row" "sn_seq sample_plan_row + 2 = 3"
    by (simp_all add: sample_plan_row_def int64_range_def minint_def maxint_def)
  have c: "CP_WorkflowID sample_commit = ''w''" "TR_Seq (CP_Result sample_commit) = sn_seq sample_plan_row + 1"
    by (simp_all add: sample_commit_def sample_result_def sample_plan_row_def)
  obtain x where g: "GetLatestSnapshot ''w'' d3 = (Ok x, d3)" using q by (simp add: GetLatestSnapshot_def)
  from two_marks_hide_next_commit [OF k l n(1,2) m c g] m g n(3) show ?thesis by auto
qed

lemma EnqueueTask_step:
  assumes "Tx (EnqueueTask x) d = (r, d')"
  shows "case r of Ok u \<Rightarrow> (\<exists>fk ts n. stmt_insert_task fk (task_row_of x ts) (pool_tables d) = Inr (n, pool_tables d'))
    | _ \<Rightarrow> pool_tables d' = pool_tables d"
proof (rule tx.run_step [OF _ _ assms])
  have "framed (\<lambda>d. bindM (txExec (stmt_insert_task fk (task_row_of x ts))) (\<lambda>_. returnM ()) d)" for fk ts
    by (intro framed_rules)
  then show "framed (EnqueueTask x)" by (simp add: framed_def EnqueueTask_def)
  fix d1 d2 :: dbs and a :: unit
  assume "EnqueueTask x d1 = (Ok a, d2)"
  then show "\<exists>fk ts n. stmt_insert_task fk (task_row_of x ts) (tabs d1) = Inr (n, tabs d2)"
    by (auto simp: EnqueueTask_def step_Ok dest!: txExec_OkD)
qed

lemma enqueue_loop_taken:
  assumes "key_used tk_task_id k (t_tasks (pool_tables d))" and "k \<notin> set acc"
    and "enqueue_loop w routes seq ns acc d = (Ok ids, d')"
  shows "k \<notin> set ids"
  using assms
proof (induction ns arbitrary: acc d)
  case Nil
  then show ?case by (simp add: returnM_Ok)
next
  case (Cons n ns)
  obtain ex d1 where q: "getActiveTaskForNode w (PN_ID n) d = (Ok ex, d1)"
    using Cons.prems(3) by (auto simp: bindM_Ok)
  have p1: "pool_tables d1 = pool_tables d"
    by (rule query_same [OF q [unfolded getActiveTaskForNode_def]])
  show ?case
  proof (cases "ex = None")
    case False
    then show ?thesis using Cons.IH [of d1 acc] Cons.prems q p1 by simp
  next
    case True
    obtain res d2 where e: "tryM (Tx (EnqueueTask (plan_task w routes seq n))) d1 = (Ok res, d2)"
      using Cons.prems(3) q True by (auto simp: bindM_Ok)
    show ?thesis
    proof (cases res)
      case (Inl err)
      then have "Tx (EnqueueTask (plan_task w routes seq n)) d1 = (Err err, d2)" using e by (simp add: tryM_Ok)
      from EnqueueTask_step [OF this] p1 show ?thesis
        using Cons.IH [of d2 acc] Cons.prems q e True Inl by simp
    next
      case (Inr u)
      then have "Tx (EnqueueTask (plan_task w routes seq n)) d1 = (Ok u, d2)" using e by (simp add: tryM_Ok)
      from EnqueueTask_step [OF this] p1 obtain fk ts m where
        "stmt_insert_task fk (task_row_of (plan_task w routes seq n) ts) (pool_tables d) = Inr (m, pool_tables d2)"
        by auto
      then have fresh: "\<not> key_used tk_task_id (plan_task_id w (PN_ID n)) (t_tasks (pool_tables d))"
        and t2: "pool_tables d2 = (pool_tables d)\<lparr>t_tasks := t_tasks (pool_tables d) @
           [task_row_of (plan_task w routes seq n) ts]\<rparr>"
        by (auto simp: stmt_insert_task_def split: if_splits)
      have "key_used tk_task_id k (t_tasks (pool_tables d2))" using Cons.prems(1) by (simp add: t2 key_used_append)
      with fresh show ?thesis
        using Cons.IH [of d2 "acc @ [plan_task_id w (PN_ID n)]"] Cons.prems q e True Inr by auto
    qed
  qed
qed

text \<open>
  A taken task id is taken for good. Whatever the engine fails, \<open>EnqueuePlanTasks\<close> never
  enqueues a node whose task id exists in the table, also when that task failed, was
  dead-lettered or completed, or belongs to another workflow: the ids of node \<^verbatim>\<open>c\<close> of
  workflow \<^verbatim>\<open>a_b\<close> and of node \<^verbatim>\<open>b_c\<close> of workflow \<^verbatim>\<open>a\<close> are the same.
\<close>
theorem taken_task_id_never_enqueued:
  assumes "key_used tk_task_id (plan_task_id w n) (t_tasks (pool_tables d))"
    and "EnqueuePlanTasks w routes d = (Ok ids, d')"
  shows "plan_task_id w n \<notin> set ids \<and> plan_task_id ''a_b'' ''c'' = plan_task_id ''a'' ''b_c''"
proof
  obtain snap d1 where q: "GetLatestSnapshot w d = (Ok snap, d1)"
    using assms(2) by (auto simp: EnqueuePlanTasks_def bindM_Ok wrapM_Ok)
  have p1: "pool_tables d1 = pool_tables d"
    by (rule query_same [OF q [unfolded GetLatestSnapshot_def]])
  show "plan_task_id w n \<notin> set ids"
  proof (cases "\<exists>s p. snap = Some s \<and> dec_state (S_StateJSON s) = Some p \<and> PL_Nodes p \<noteq> [] \<and> readyNodes p \<noteq> []")
    case True
    then obtain s p where "snap = Some s" "dec_state (S_StateJSON s) = Some p" "PL_Nodes p \<noteq> []" "readyNodes p \<noteq> []"
      by blast
    then have "enqueue_loop w routes (S_Seq s) (readyNodes p) [] d1 = (Ok ids, d')"
      using assms(2) q by (simp add: EnqueuePlanTasks_def Let_def)
    from enqueue_loop_taken [OF _ _ this] show ?thesis using assms(1) p1 by simp
  next
    case False
    then show ?thesis
      using assms(2) q by (auto simp: EnqueuePlanTasks_def Let_def failM_def returnM_def split: option.splits if_splits)
  qed
qed (simp add: plan_task_id_def)

definition failed_task_tables :: tables where
  "failed_task_tables = sample_plan_tables\<lparr>t_tasks :=
     [dead_letter_set ''boom'' 5 (task_row_of (plan_task ''w'' [] 1 (sample_node ''a'' ''pending'')) 1)]\<rparr>"

theorem taken_task_id_never_enqueued_witness:
  "\<exists>ids d'. EnqueuePlanTasks ''w'' [] (handle_of ''sqlite3'' failed_task_tables []) = (Ok ids, d') \<and>
     plan_task_id ''w'' ''a'' \<notin> set ids"
proof -
  let ?d = "handle_of ''sqlite3'' failed_task_tables []"
  have "latest_snapshot_row (\<lambda>x. sn_workflow_id x = ''w'') (tabs ?d) = Some sample_plan_row"
    using sample_latest by (simp add: handle_of_def latest_snapshot_row_def failed_task_tables_def)
  moreover have "GetLatestSnapshot ''w'' ?d = (Ok (Some (scanSnapshot sample_plan_row)), ?d)"
    using calculation by (simp add: GetLatestSnapshot_def quiet_handle)
  moreover obtain ids d' where "enqueue_loop ''w'' [] 1 (readyNodes sample_plan) [] ?d = (Ok ids, d')"
    using enqueue_loop_live [OF quiet_handle] by blast
  moreover have "PL_Nodes sample_plan \<noteq> []" "readyNodes sample_plan \<noteq> []"
    by (simp_all add: sample_plan_def readyNodes_filter sample_node_def unblocked_def is_done_def)
  ultimately have r: "EnqueuePlanTasks ''w'' [] ?d = (Ok ids, d')"
    by (simp add: EnqueuePlanTasks_def scanSnapshot_def sample_plan_row_def sample_state_plan Let_def)
  have "key_used tk_task_id (plan_task_id ''w'' ''a'') (t_tasks (pool_tables ?d))"
    by (simp add: failed_task_tables_def key_used_def dead_letter_set_def sample_node_def)
  from taken_task_id_never_enqueued [OF this r] r show ?thesis by blast
qed

end
