(* ===== verification/Branches.thy ===== *)
theory Branches
  imports Workflows
begin

section \<open>Forks: internal/store/branches.go\<close>

text \<open>
  Branch records, the fork of a workflow in one transaction, and the removal of the lineage
  field from a state. The specification \<open>fork_tables\<close> is the pure effect of a fork; forks
  keep the branch records a forest over the workflows.
\<close>

record Branch =
  B_BranchID :: string
  B_ParentID :: string
  B_BranchPointSeq :: int
  B_BranchPointHash :: string
  B_Reason :: string
  B_Kind :: string
  B_CreatedAt :: "int option"

record ForkParams =
  FP_ParentWorkflowID :: string
  FP_NewWorkflowID :: string
  FP_BranchPointSeq :: int
  FP_Reason :: string
  FP_Kind :: string

record ForkResult =
  FR_BranchID :: string
  FR_NewWorkflowID :: string
  FR_BranchPointSeq :: int
  FR_BranchPointHash :: string

definition kind_or_fork :: "string \<Rightarrow> string" where
  "kind_or_fork k = (if k = [] then ''fork'' else k)"

definition branch_row_of :: "Branch \<Rightarrow> int \<Rightarrow> branch_row" where
  "branch_row_of b ts = \<lparr>br_branch_id = B_BranchID b, br_parent_id = B_ParentID b,
     br_branch_point_seq = B_BranchPointSeq b, br_branch_point_hash = B_BranchPointHash b,
     br_reason = B_Reason b, br_kind = kind_or_fork (B_Kind b), br_created_at = ts\<rparr>"

definition CreateBranch :: "Branch \<Rightarrow> unit dbm" where
  "CreateBranch b d = bindM (txExec (stmt_insert_branch (branch_row_of b (now d)))) (\<lambda>_. returnM ()) d"

definition scanBranch :: "branch_row \<Rightarrow> Branch" where
  "scanBranch r = \<lparr>B_BranchID = br_branch_id r, B_ParentID = br_parent_id r,
     B_BranchPointSeq = br_branch_point_seq r, B_BranchPointHash = br_branch_point_hash r,
     B_Reason = br_reason r, B_Kind = br_kind r, B_CreatedAt = time_Parse space_layout (br_created_at r)\<rparr>"

definition GetBranch :: "string \<Rightarrow> Branch option dbm" where
  "GetBranch i = query (\<lambda>t. map_option scanBranch (find_row br_branch_id i (t_branches t)))"

definition ListBranches :: "string \<Rightarrow> Branch list dbm" where
  "ListBranches parent = query (\<lambda>t. map scanBranch (sort_key (\<lambda>r. (br_branch_point_seq r, br_created_at r))
     (filter (\<lambda>r. br_parent_id r = parent) (t_branches t))))"

definition CountBranches :: "string \<Rightarrow> nat dbm" where
  "CountBranches parent = query (\<lambda>t. length (filter (\<lambda>r. br_parent_id r = parent) (t_branches t)))"

text \<open>\<^verbatim>\<open>getSnapshotAtSeq\<close> selects the row \<open>GetSnapshotAtSeq\<close> does, and keeps no time.\<close>

definition getSnapshotAtSeq :: "string \<Rightarrow> int \<Rightarrow> WorkflowSnapshot option dbm" where
  "getSnapshotAtSeq w seq =
     query (\<lambda>t. map_option (\<lambda>r. (scanSnapshot r)\<lparr>S_CreatedAt := None\<rparr>)
       (latest_snapshot_row (\<lambda>r. sn_workflow_id r = w \<and> sn_seq r \<le> seq) t))"

definition lineage_null :: string where
  "lineage_null = CHR 0x22 # ''lineage'' @ CHR 0x22 # '':null''"

definition lineage_empty :: string where
  "lineage_empty = CHR 0x22 # ''lineage'' @ CHR 0x22 # '':{}''"

definition forked_workflow :: "ForkParams \<Rightarrow> Workflow \<Rightarrow> string \<Rightarrow> int \<Rightarrow> workflow_row" where
  "forked_workflow p parent forkedStateHash ts =
     \<lparr>wf_id = FP_NewWorkflowID p,
      wf_goal = W_Goal parent @ '' ['' @ kind_or_fork (FP_Kind p) @ '': '' @ FP_Reason p @ '']'',
      wf_owner = W_Owner parent, wf_stage = W_Stage parent, wf_state_hash = forkedStateHash,
      wf_current_seq = 0, wf_snapshot_seq = 0, wf_created_at = ts, wf_updated_at = ts\<rparr>"

definition fork_snapshot :: "ForkParams \<Rightarrow> string \<Rightarrow> string \<Rightarrow> WorkflowSnapshot" where
  "fork_snapshot p stateJSON stateHash =
     \<lparr>S_WorkflowID = FP_NewWorkflowID p, S_Seq = 0, S_StateJSON = stateJSON, S_StateHash = stateHash,
      S_CreatedAt = None\<rparr>"

definition fork_branch :: "ForkParams \<Rightarrow> string \<Rightarrow> Branch" where
  "fork_branch p pointHash =
     \<lparr>B_BranchID = FP_NewWorkflowID p, B_ParentID = FP_ParentWorkflowID p,
      B_BranchPointSeq = FP_BranchPointSeq p, B_BranchPointHash = pointHash,
      B_Reason = FP_Reason p, B_Kind = kind_or_fork (FP_Kind p), B_CreatedAt = None\<rparr>"

definition fork_body :: "ForkParams \<Rightarrow> Workflow \<Rightarrow> string \<Rightarrow> string \<Rightarrow> string \<Rightarrow> unit dbm" where
  "fork_body p parent pointHash stateJSON stateHash d =
     bindM (wrapM ''create forked workflow'' (txExec (stmt_insert_workflow (forked_workflow p parent stateHash (now d))))) (\<lambda>_.
     bindM (wrapM ''save fork snapshot'' (SaveSnapshot (fork_snapshot p stateJSON stateHash))) (\<lambda>_.
     bindM (wrapM ''create branch record'' (CreateBranch (fork_branch p pointHash))) (\<lambda>_.
     returnM ()))) d"

definition CommitFork :: "ForkParams \<Rightarrow> string \<Rightarrow> string \<Rightarrow> ForkResult dbm" where
  "CommitFork p forkedStateJSON forkedStateHash =
     bindM (wrapM (''get parent snapshot at seq '' @ show_int (FP_BranchPointSeq p))
             (getSnapshotAtSeq (FP_ParentWorkflowID p) (FP_BranchPointSeq p))) (\<lambda>snap.
     case snap of
       None \<Rightarrow> failM (EMsg (''get parent snapshot at seq '' @ show_int (FP_BranchPointSeq p) @ '': %!w(<nil>)''))
     | Some s \<Rightarrow>
     bindM (wrapM ''get parent workflow'' (GetWorkflow (FP_ParentWorkflowID p))) (\<lambda>parent.
     case parent of
       None \<Rightarrow> failM (EMsg ''get parent workflow: %!w(<nil>)'')
     | Some pw \<Rightarrow>
     bindM (Tx (fork_body p pw (S_StateHash s) (Replace1 forkedStateJSON lineage_null lineage_empty) forkedStateHash)) (\<lambda>_.
     returnM \<lparr>FR_BranchID = FP_NewWorkflowID p, FR_NewWorkflowID = FP_NewWorkflowID p,
       FR_BranchPointSeq = FP_BranchPointSeq p, FR_BranchPointHash = S_StateHash s\<rparr>)))"

definition stripLineageFromJSON :: "string \<Rightarrow> string" where
  "stripLineageFromJSON stateJSON =
     (case unmarshal_map stateJSON of
        None \<Rightarrow> stateJSON
      | Some m \<Rightarrow> if unmarshal stateJSON = Some JNull then ''null'' else marshal (JObj (map_del ''lineage'' m)))"

subsection \<open>Specification of a fork\<close>

definition fork_tables :: "ForkParams \<Rightarrow> Workflow \<Rightarrow> string \<Rightarrow> string \<Rightarrow> string \<Rightarrow> int \<Rightarrow> tables \<Rightarrow> tables" where
  "fork_tables p parent pointHash stateJSON stateHash ts t =
     t\<lparr>t_workflows := t_workflows t @ [forked_workflow p parent stateHash ts],
       t_snapshots := replace_row sn_key \<lparr>sn_workflow_id = FP_NewWorkflowID p, sn_seq = 0, sn_state_json = stateJSON,
          sn_state_hash = stateHash, sn_created_at = ts\<rparr> (t_snapshots t),
       t_branches := t_branches t @ [branch_row_of (fork_branch p pointHash) ts]\<rparr>"

definition fork_free :: "ForkParams \<Rightarrow> tables \<Rightarrow> bool" where
  "fork_free p t \<longleftrightarrow> \<not> key_used wf_id (FP_NewWorkflowID p) (t_workflows t) \<and>
     \<not> key_used br_branch_id (FP_NewWorkflowID p) (t_branches t)"

lemma framed_CreateBranch: "framed (CreateBranch b)"
proof -
  have "framed (\<lambda>d. bindM (txExec (stmt_insert_branch (branch_row_of b ts))) (\<lambda>_. returnM ()) d)" for ts
    by (intro framed_rules)
  then show ?thesis by (simp add: framed_def CreateBranch_def)
qed

lemma framed_fork: "framed (fork_body p parent h j s)"
proof -
  have "framed (\<lambda>d. bindM (wrapM ''create forked workflow'' (txExec (stmt_insert_workflow (forked_workflow p parent s ts)))) (\<lambda>_.
     bindM (wrapM ''save fork snapshot'' (SaveSnapshot (fork_snapshot p j s))) (\<lambda>_.
     bindM (wrapM ''create branch record'' (CreateBranch (fork_branch p h))) (\<lambda>_. returnM ()))) d)" for ts
    by (intro framed_rules framed_SaveSnapshot framed_CreateBranch)
  then show ?thesis by (simp add: framed_def fork_body_def)
qed

lemma fork_body_Ok:
  assumes "fork_body p parent h j s d = (Ok u, d')"
  shows "fork_free p (tabs d) \<and> tabs d' = fork_tables p parent h j s (now d) (tabs d)"
proof -
  obtain n e1 u2 e2 u3 where
    1: "txExec (stmt_insert_workflow (forked_workflow p parent s (now d))) d = (Ok n, e1)" and
    2: "SaveSnapshot (fork_snapshot p j s) e1 = (Ok u2, e2)" and
    3: "CreateBranch (fork_branch p h) e2 = (Ok u3, d')"
    using assms by (auto simp: fork_body_def step_Ok)
  have n1: "now e1 = now d" using now_framed [OF framed_txExec 1] .
  have n2: "now e2 = now d" using now_framed [OF framed_SaveSnapshot 2] n1 by simp
  have t1: "\<not> key_used wf_id (FP_NewWorkflowID p) (t_workflows (tabs d))"
      "tabs e1 = (tabs d)\<lparr>t_workflows := t_workflows (tabs d) @ [forked_workflow p parent s (now d)]\<rparr>"
    using txExec_OkD [OF 1]
    by (auto simp: stmt_insert_workflow_def insert_row_def forked_workflow_def split: option.splits if_splits)
  have t2: "tabs e2 = (tabs e1)\<lparr>t_snapshots := replace_row sn_key \<lparr>sn_workflow_id = FP_NewWorkflowID p, sn_seq = 0,
      sn_state_json = j, sn_state_hash = s, sn_created_at = now d\<rparr> (t_snapshots (tabs e1))\<rparr>"
    using SaveSnapshot_Ok [OF 2] n1 by (auto simp: insertOrReplaceSnapshot_def fork_snapshot_def split: if_splits)
  obtain m where "txExec (stmt_insert_branch (branch_row_of (fork_branch p h) (now d))) e2 = (Ok m, d')"
    using 3 n2 by (auto simp: CreateBranch_def step_Ok)
  from txExec_OkD [OF this] have t3: "\<not> key_used br_branch_id (FP_NewWorkflowID p) (t_branches (tabs e2))"
      "tabs d' = (tabs e2)\<lparr>t_branches := t_branches (tabs e2) @ [branch_row_of (fork_branch p h) (now d)]\<rparr>"
    by (auto simp: stmt_insert_branch_def insert_row_def branch_row_of_def fork_branch_def split: option.splits if_splits)
  show ?thesis using t1 t2 t3 by (simp add: fork_free_def fork_tables_def)
qed

definition fork_effect :: "ForkParams \<Rightarrow> string \<Rightarrow> string \<Rightarrow> tables \<Rightarrow> ForkResult \<Rightarrow> tables \<Rightarrow> bool" where
  "fork_effect p stateJSON stateHash t res t' \<longleftrightarrow>
     (\<exists>sr wr ts. latest_snapshot_row (\<lambda>r. sn_workflow_id r = FP_ParentWorkflowID p \<and> sn_seq r \<le> FP_BranchPointSeq p) t = Some sr \<and>
        find_row wf_id (FP_ParentWorkflowID p) (t_workflows t) = Some wr \<and> fork_free p t \<and>
        t' = fork_tables p (scanWorkflow wr) (sn_state_hash sr) (Replace1 stateJSON lineage_null lineage_empty) stateHash ts t \<and>
        res = \<lparr>FR_BranchID = FP_NewWorkflowID p, FR_NewWorkflowID = FP_NewWorkflowID p,
               FR_BranchPointSeq = FP_BranchPointSeq p, FR_BranchPointHash = sn_state_hash sr\<rparr>)"

lemma fork_tx_step:
  "Tx (fork_body p parent h j s) d = (r, d') \<Longrightarrow>
   (case r of Ok u \<Rightarrow> fork_free p (pool_tables d) \<and> (\<exists>ts. pool_tables d' = fork_tables p parent h j s ts (pool_tables d))
    | _ \<Rightarrow> pool_tables d' = pool_tables d)"
  by (rule tx.run_step [OF framed_fork]) (drule fork_body_Ok, blast)

lemma CommitFork_step:
  assumes "CommitFork p j s d = (r, d')"
  shows "case r of Ok res \<Rightarrow> fork_effect p j s (pool_tables d) res (pool_tables d')
    | _ \<Rightarrow> pool_tables d' = pool_tables d"
proof -
  let ?w = "FP_ParentWorkflowID p" and ?j = "Replace1 j lineage_null lineage_empty"
  obtain x d1 where q1: "getSnapshotAtSeq ?w (FP_BranchPointSeq p) d = (x, d1)"
    by (cases "getSnapshotAtSeq ?w (FP_BranchPointSeq p) d")
  have p1: "pool_tables d1 = pool_tables d" using query_same [OF q1 [unfolded getSnapshotAtSeq_def]] by simp
  show ?thesis
  proof (cases "\<exists>sn. x = Ok (Some sn)")
    case False
    then have "(r, d') = (r, d1) \<and> (\<forall>res. r \<noteq> Ok res)"
      using assms q1 by (cases x) (auto simp: CommitFork_def failM_def split: option.splits)
    then show ?thesis using p1 by (auto split: outcome.splits)
  next
    case True
    then obtain sn where x: "x = Ok (Some sn)" by blast
    obtain sr where sr: "latest_snapshot_row (\<lambda>r. sn_workflow_id r = ?w \<and> sn_seq r \<le> FP_BranchPointSeq p) (pool_tables d) = Some sr"
      and sn: "S_StateHash sn = sn_state_hash sr"
      using query_OkD [OF q1 [unfolded getSnapshotAtSeq_def x]]
      by (cases "latest_snapshot_row (\<lambda>r. sn_workflow_id r = ?w \<and> sn_seq r \<le> FP_BranchPointSeq p) (pool_tables d)")
        (auto simp: scanSnapshot_def)
    obtain y d2 where q2: "GetWorkflow ?w d1 = (y, d2)" by (cases "GetWorkflow ?w d1")
    have p2: "pool_tables d2 = pool_tables d" using query_same [OF q2 [unfolded GetWorkflow_def]] p1 by simp
    show ?thesis
    proof (cases "\<exists>pw. y = Ok (Some pw)")
      case False
      then have "(r, d') = (r, d2) \<and> (\<forall>res. r \<noteq> Ok res)"
        using assms q1 q2 x by (cases y) (auto simp: CommitFork_def failM_def split: option.splits)
      then show ?thesis using p2 by (auto split: outcome.splits)
    next
      case True
      then obtain pw where y: "y = Ok (Some pw)" by blast
      obtain wr where wr: "find_row wf_id ?w (t_workflows (pool_tables d)) = Some wr" "pw = scanWorkflow wr"
        using query_OkD [OF q2 [unfolded GetWorkflow_def y]] p1
        by (cases "find_row wf_id ?w (t_workflows (pool_tables d))") auto
      obtain z d3 where tx: "Tx (fork_body p pw (S_StateHash sn) ?j s) d2 = (z, d3)"
        by (cases "Tx (fork_body p pw (S_StateHash sn) ?j s) d2")
      have d': "d' = d3" using assms q1 q2 x y tx by (cases z) (auto simp: CommitFork_def returnM_def)
      have r: "r = map_outcome_val (\<lambda>_. \<lparr>FR_BranchID = FP_NewWorkflowID p, FR_NewWorkflowID = FP_NewWorkflowID p,
               FR_BranchPointSeq = FP_BranchPointSeq p, FR_BranchPointHash = sn_state_hash sr\<rparr>) z"
        using assms q1 q2 x y tx sn by (cases z) (auto simp: CommitFork_def returnM_def)
      show ?thesis
        using fork_tx_step [OF tx] p2 sr wr sn d' r
        by (cases z) (auto simp: fork_effect_def)
    qed
  qed
qed

subsection \<open>Forks form a forest\<close>

definition lineage :: "tables \<Rightarrow> (string \<times> string) set" where
  "lineage t = set (map (\<lambda>r. (br_parent_id r, br_branch_id r)) (t_branches t))"

definition forest_ok :: "tables \<Rightarrow> bool" where
  "forest_ok t \<longleftrightarrow> keys_ok t \<and> acyclic (lineage t) \<and>
     list_all (\<lambda>r. key_used wf_id (br_parent_id r) (t_workflows t) \<and> key_used wf_id (br_branch_id r) (t_workflows t))
       (t_branches t)"

lemma fork_keys:
  assumes "keys_ok t" and "fork_free p t"
  shows "keys_ok (fork_tables p parent h j s ts t)"
proof -
  have [simp]: "br_branch_id (branch_row_of (fork_branch p h) ts) = FP_NewWorkflowID p"
    "wf_id (forked_workflow p parent s ts) = FP_NewWorkflowID p"
    by (simp_all add: branch_row_of_def fork_branch_def forked_workflow_def)
  show ?thesis using assms
    by (simp add: keys_ok_def fork_free_def fork_tables_def key_used_def distinct_replace_row)
qed

lemma fork_forest:
  assumes f: "forest_ok t" and free: "fork_free p t" and par: "key_used wf_id (FP_ParentWorkflowID p) (t_workflows t)"
  shows "forest_ok (fork_tables p parent h j s ts t)"
proof -
  let ?new = "FP_NewWorkflowID p" and ?par = "FP_ParentWorkflowID p" and ?t' = "fork_tables p parent h j s ts t"
  have l: "lineage ?t' = insert (?par, ?new) (lineage t)"
    by (auto simp: lineage_def fork_tables_def branch_row_of_def fork_branch_def)
  have ends: "key_used wf_id x (t_workflows t)" if "(x, y) \<in> lineage t" for x y
    using that f by (auto simp: lineage_def forest_ok_def list_all_iff)
  have "(?new, ?par) \<notin> (lineage t)\<^sup>*"
  proof
    assume "(?new, ?par) \<in> (lineage t)\<^sup>*"
    moreover have "?new \<noteq> ?par" using free par by (auto simp: fork_free_def)
    ultimately obtain z where "(?new, z) \<in> lineage t" by (metis converse_rtranclE)
    from ends [OF this] free show False by (simp add: fork_free_def)
  qed
  then have "acyclic (lineage ?t')" using f by (simp add: l acyclic_insert forest_ok_def)
  moreover have "list_all (\<lambda>r. key_used wf_id (br_parent_id r) (t_workflows ?t') \<and> key_used wf_id (br_branch_id r) (t_workflows ?t'))
       (t_branches ?t')"
    using f par
    by (auto simp: forest_ok_def fork_tables_def list_all_iff key_used_def branch_row_of_def fork_branch_def forked_workflow_def)
  ultimately show ?thesis using fork_keys [OF _ free] f by (simp add: forest_ok_def)
qed

subsection \<open>Properties\<close>

text \<open>
  C28: \<open>CommitFork\<close> is all or nothing: whatever the engine fails, a fork that succeeds adds
  exactly the new workflow row, its snapshot at sequence number 0 and the branch record,
  with the hash of the newest parent snapshot at or before the branch point; one that fails
  changes nothing.
\<close>
theorem CommitFork_refines:
  "case CommitFork p j s d of
     (Ok res, d') \<Rightarrow> fork_effect p j s (pool_tables d) res (pool_tables d')
   | (Err e, d') \<Rightarrow> pool_tables d' = pool_tables d
   | (Blocked, d') \<Rightarrow> pool_tables d' = pool_tables d"
  using CommitFork_step [of p j s d] by (auto split: prod.splits outcome.splits)

text \<open>
  C29: forks stay a forest. Every fork, whatever its outcome, keeps the parent relation of
  the branch records free of cycles and all its ends existing workflows, so following
  parents from any branch ends at a workflow that is not a fork.
\<close>
theorem CommitFork_forest:
  assumes "forest_ok (pool_tables d)"
  shows "forest_ok (pool_tables (snd (CommitFork p j s d)))"
proof -
  obtain r d' where c: "CommitFork p j s d = (r, d')" by (cases "CommitFork p j s d")
  show ?thesis
  proof (cases r)
    case (Ok res)
    then have "fork_effect p j s (pool_tables d) res (pool_tables d')" using CommitFork_step [OF c] by simp
    then show ?thesis using fork_forest [OF assms] by (auto simp: c fork_effect_def key_used_find)
  qed (use CommitFork_step [OF c] assms c in simp_all)
qed

definition fork_base :: tables where
  "fork_base = empty_tables\<lparr>t_workflows := [\<lparr>wf_id = ''w'', wf_goal = ''g'', wf_owner = ''o'', wf_stage = ''created'',
     wf_state_hash = ''h0'', wf_current_seq = 1, wf_snapshot_seq = 1, wf_created_at = 1, wf_updated_at = 1\<rparr>],
     t_snapshots := [\<lparr>sn_workflow_id = ''w'', sn_seq = 1, sn_state_json = ''{}'', sn_state_hash = ''h'', sn_created_at = 1\<rparr>]\<rparr>"

definition sample_fork :: ForkParams where
  "sample_fork = \<lparr>FP_ParentWorkflowID = ''w'', FP_NewWorkflowID = ''v'', FP_BranchPointSeq = 1, FP_Reason = ''r'', FP_Kind = []\<rparr>"

theorem CommitFork_forest_witness:
  "forest_ok (pool_tables (snd (CommitFork sample_fork ''{}'' ''h2'' (handle_of ''sqlite3'' fork_base []))))"
proof (rule CommitFork_forest)
  show "forest_ok (pool_tables (handle_of ''sqlite3'' fork_base []))"
    by (simp add: forest_ok_def pool_tables_def handle_of_def fork_base_def empty_tables_def keys_ok_def lineage_def acyclic_def)
qed

text \<open>
  A fork is isolated. Reading any workflow other than the new one (its row and its
  newest snapshot at any sequence number) gives the same before and after a fork, so the
  parent's history is untouched.
\<close>
theorem CommitFork_isolated:
  assumes "w \<noteq> FP_NewWorkflowID p"
  shows "find_row wf_id w (t_workflows (pool_tables (snd (CommitFork p j s d)))) = find_row wf_id w (t_workflows (pool_tables d)) \<and>
    latest_snapshot_row (\<lambda>r. sn_workflow_id r = w \<and> sn_seq r \<le> n) (pool_tables (snd (CommitFork p j s d))) =
    latest_snapshot_row (\<lambda>r. sn_workflow_id r = w \<and> sn_seq r \<le> n) (pool_tables d)"
proof -
  obtain r d' where c: "CommitFork p j s d = (r, d')" by (cases "CommitFork p j s d")
  show ?thesis
  proof (cases r)
    case (Ok res)
    then obtain parent h j' ts where t: "pool_tables d' = fork_tables p parent h j' s ts (pool_tables d)"
      using CommitFork_step [OF c] by (auto simp: fork_effect_def)
    have "find_row wf_id w (t_workflows (pool_tables d')) = find_row wf_id w (t_workflows (pool_tables d))"
      using assms by (simp add: t fork_tables_def find_row_append forked_workflow_def split: option.splits)
    moreover have "filter (\<lambda>r. sn_workflow_id r = w \<and> sn_seq r \<le> n) (t_snapshots (pool_tables d')) =
        filter (\<lambda>r. sn_workflow_id r = w \<and> sn_seq r \<le> n) (t_snapshots (pool_tables d))"
      using assms by (auto simp: t fork_tables_def replace_row_def intro: filter_cong)
    ultimately show ?thesis by (simp add: c latest_snapshot_row_def)
  qed (use CommitFork_step [OF c] c in simp_all)
qed

theorem CommitFork_isolated_witness:
  "find_row wf_id ''w'' (t_workflows (pool_tables (snd (CommitFork sample_fork ''{}'' ''h2'' (handle_of ''sqlite3'' fork_base []))))) =
   find_row wf_id ''w'' (t_workflows fork_base)"
  using CommitFork_isolated [of "''w''" sample_fork "''{}''" "''h2''" "handle_of ''sqlite3'' fork_base []"]
  by (simp add: sample_fork_def pool_tables_def handle_of_def)

text \<open>
  \<open>stripLineageFromJSON\<close> removes the lineage field of a state object and keeps every
  other field; a text that is not an object is returned unchanged, or as null.
\<close>
theorem stripLineage_removes:
  assumes "unmarshal s = Some (JObj m)"
  shows "\<exists>m'. unmarshal (stripLineageFromJSON s) = Some (JObj m') \<and> map_of m' = (map_of m)(''lineage'' := None)"
proof -
  have w: "wf_json (JObj m)" using unmarshal_wf [OF assms] .
  have "set (map_del ''lineage'' m) \<subseteq> set m" by (auto simp: map_del_def)
  then have "wf_json (JObj (map_del ''lineage'' m))"
    using w sorted_map_del [of m "''lineage''"] by (auto simp: wf_members_iff)
  then have "unmarshal (marshal (JObj (map_del ''lineage'' m))) = Some (JObj (map_del ''lineage'' m))"
    by (rule unmarshal_marshal)
  then show ?thesis using assms by (simp add: stripLineageFromJSON_def unmarshal_map_def map_of_map_del)
qed

theorem stripLineage_removes_witness:
  "\<exists>m'. unmarshal (stripLineageFromJSON (marshal (JObj [(''lineage'', JNull), (''seq'', JInt 1)]))) = Some (JObj m') \<and>
     map_of m' ''lineage'' = None \<and> map_of m' ''seq'' = Some (JInt 1)"
proof -
  have "unmarshal (marshal (JObj [(''lineage'', JNull), (''seq'', JInt 1)])) = Some (JObj [(''lineage'', JNull), (''seq'', JInt 1)])"
    by (rule unmarshal_marshal) code_simp
  from stripLineage_removes [OF this] show ?thesis by (auto simp del: marshal.simps)
qed

end
