(* ===== verification/Http.thy ===== *)
theory Http
  imports Anchors Gates Actors Plan Branches
begin

section \<open>What the handlers share: internal/api/api.go, internal/bridge\<close>

text \<open>
  The handlers' environment \<open>Handlers\<close>: the program \<^verbatim>\<open>fardrun\<close>, the identifiers of the
  package uuid, the hash functions, the texts of database errors and the conversion of a
  fractional literal to an integer are parameters. Reading a JSON object into a Go struct
  is \<open>decode_struct\<close> over the struct's fields: a field of the wrong type keeps its zero
  value and makes the whole call fail, which matters where the code drops the error. A
  response is the list of the handler's writes; the text of \<^verbatim>\<open>http.Error\<close> is a JSON string
  here.
\<close>

record Handlers =
  h_fardrun :: "string \<Rightarrow> string \<Rightarrow> go_error + string"
  h_uuid :: string
  h_crypto :: crypto
  h_snapshotEvery :: int
  h_dberr :: "go_error \<Rightarrow> string"
  h_trunc :: "string \<Rightarrow> int"

fun errText :: "Handlers \<Rightarrow> go_error \<Rightarrow> string" where
  "errText H (EMsg s) = s"
| "errText H (EWrap s e) = s @ '': '' @ errText H e"
| "errText H e = h_dberr H e"

subsection \<open>Decoding structs\<close>

datatype fkind = FStr | FInt | FBool | FAny | FMap

fun fits :: "fkind \<Rightarrow> json \<Rightarrow> bool" where
  "fits FStr (JStr s) \<longleftrightarrow> True"
| "fits FInt (JInt i) \<longleftrightarrow> int64_range i"
| "fits FInt (JFrac s) \<longleftrightarrow> s = ''-0''"
| "fits FBool (JBool b) \<longleftrightarrow> True"
| "fits FAny v \<longleftrightarrow> True"
| "fits FMap (JObj m) \<longleftrightarrow> True"
| "fits k v \<longleftrightarrow> False"

type_synonym struct = "(string \<times> json) list"

text \<open>\<^verbatim>\<open>encoding/json\<close> prefers the exact name of a field and else ignores the case of letters.\<close>

definition lower :: "string \<Rightarrow> string" where
  "lower s = map (\<lambda>c. let n = of_char c :: nat in if 65 \<le> n \<and> n \<le> 90 then char_of (n + 32) else c) s"

definition member :: "(string \<times> json) list \<Rightarrow> string \<Rightarrow> json option" where
  "member m k = (case map_of m k of
      Some v \<Rightarrow> Some v
    | None \<Rightarrow> map_option snd (find (\<lambda>kv. lower (fst kv) = lower k) m))"

fun decode_fields :: "(string \<times> fkind) list \<Rightarrow> (string \<times> json) list \<Rightarrow> struct \<times> bool" where
  "decode_fields [] m = ([], True)"
| "decode_fields ((k, f) # fs) m =
     (case decode_fields fs m of (r, ok) \<Rightarrow>
        (case member m k of
           None \<Rightarrow> (r, ok)
         | Some JNull \<Rightarrow> (r, ok)
         | Some v \<Rightarrow> if fits f v then ((k, v) # r, ok) else (r, False)))"

definition decode_struct :: "(string \<times> fkind) list \<Rightarrow> json \<Rightarrow> struct \<times> bool" where
  "decode_struct fs j = (case j of JObj m \<Rightarrow> decode_fields fs m | JNull \<Rightarrow> ([], True) | _ \<Rightarrow> ([], False))"

definition fstr :: "struct \<Rightarrow> string \<Rightarrow> string" where
  "fstr r k = (case map_of r k of Some (JStr s) \<Rightarrow> s | _ \<Rightarrow> [])"

definition fint :: "struct \<Rightarrow> string \<Rightarrow> int" where
  "fint r k = (case map_of r k of Some (JInt i) \<Rightarrow> i | _ \<Rightarrow> 0)"

definition fbool :: "struct \<Rightarrow> string \<Rightarrow> bool" where
  "fbool r k \<longleftrightarrow> map_of r k = Some (JBool True)"

definition fany :: "struct \<Rightarrow> string \<Rightarrow> json" where
  "fany r k = (case map_of r k of None \<Rightarrow> JNull | Some v \<Rightarrow> v)"

definition decode_body :: "(string \<times> fkind) list \<Rightarrow> request \<Rightarrow> struct \<times> bool" where
  "decode_body fs r = (case unmarshal (rq_body r) of None \<Rightarrow> ([], False) | Some j \<Rightarrow> decode_struct fs j)"

subsection \<open>The bridge\<close>

text \<open>
  \<^verbatim>\<open>runInner\<close>: the input is written to a file, the program writes \<^verbatim>\<open>result.json\<close>, and its
  member \<^verbatim>\<open>result\<close> is the answer, \<^verbatim>\<open>None\<close> when it is missing. Errors of the file system and
  of the process are the error of \<open>h_fardrun\<close>; the theory \<^verbatim>\<open>Bridge\<close> has the files.
\<close>

definition unwrap_result :: "string \<Rightarrow> go_error + json option" where
  "unwrap_result resultRaw =
     (case unmarshal resultRaw of
        None \<Rightarrow> Inl (EMsg ''unwrap result'')
      | Some (JObj m) \<Rightarrow> Inr (member m ''result'')
      | Some JNull \<Rightarrow> Inr None
      | Some v \<Rightarrow> Inl (EMsg ''unwrap result''))"

definition bridge_Run :: "Handlers \<Rightarrow> string \<Rightarrow> json \<Rightarrow> go_error + json option" where
  "bridge_Run H program input =
     (case h_fardrun H program (marshal input) of
        Inl e \<Rightarrow> Inl e
      | Inr resultRaw \<Rightarrow> unwrap_result resultRaw)"

text \<open>The destination holds what could be decoded even when the call fails.\<close>

definition RunAndUnmarshal ::
  "Handlers \<Rightarrow> string \<Rightarrow> (string \<times> json) list \<Rightarrow> (string \<times> fkind) list \<Rightarrow> struct \<times> go_error option" where
  "RunAndUnmarshal H program input fs =
     (case bridge_Run H program (JObj (go_map input)) of
        Inl e \<Rightarrow> ([], Some e)
      | Inr None \<Rightarrow> ([], Some (EMsg ''unexpected end of JSON input''))
      | Inr (Some j) \<Rightarrow> (case decode_struct fs j of (r, ok) \<Rightarrow>
          (r, if ok then None else Some (EMsg ''json: cannot unmarshal''))))"

definition RunAndUnmarshal_any ::
  "Handlers \<Rightarrow> string \<Rightarrow> (string \<times> json) list \<Rightarrow> json \<times> go_error option" where
  "RunAndUnmarshal_any H program input =
     (case bridge_Run H program (JObj (go_map input)) of
        Inl e \<Rightarrow> (JNull, Some e)
      | Inr None \<Rightarrow> (JNull, Some (EMsg ''unexpected end of JSON input''))
      | Inr (Some j) \<Rightarrow> (j, None))"

subsection \<open>Responses\<close>

definition writeJSON :: "int \<Rightarrow> (string \<times> json) list \<Rightarrow> response" where
  "writeJSON code kvs = [(code, JObj (go_map kvs))]"

definition api_writeErr :: "int \<Rightarrow> string \<Rightarrow> response" where
  "api_writeErr code msg = writeJSON code [(''ok'', JBool False), (''error'', JStr msg)]"

text \<open>A nil slice is \<^verbatim>\<open>null\<close>, and every slice the store returns is nil when it is empty.\<close>

definition slice_json :: "('a \<Rightarrow> json) \<Rightarrow> 'a list \<Rightarrow> json" where
  "slice_json f xs = (if xs = [] then JNull else JArr (map f xs))"

definition ptr_json :: "int option option \<Rightarrow> json" where
  "ptr_json t = (case t of None \<Rightarrow> JNull | Some v \<Rightarrow> JStr (json_time v))"

definition workflow_json :: "Workflow \<Rightarrow> json" where
  "workflow_json x = JObj [(''WorkflowID'', JStr (W_WorkflowID x)), (''Goal'', JStr (W_Goal x)),
     (''Owner'', JStr (W_Owner x)), (''Stage'', JStr (W_Stage x)), (''StateHash'', JStr (W_StateHash x)),
     (''CurrentSeq'', JInt (W_CurrentSeq x)), (''SnapshotSeq'', JInt (W_SnapshotSeq x)),
     (''CreatedAt'', JStr (json_time (W_CreatedAt x))), (''UpdatedAt'', JStr (json_time (W_UpdatedAt x)))]"

definition receipt_json :: "Receipt \<Rightarrow> json" where
  "receipt_json x = JObj [(''WorkflowID'', JStr (R_WorkflowID x)), (''Seq'', JInt (R_Seq x)),
     (''ReceiptDigest'', JStr (R_ReceiptDigest x)), (''ReceiptJSON'', JStr (R_ReceiptJSON x)),
     (''PrevReceiptDigest'', JStr (R_PrevReceiptDigest x)), (''CreatedAt'', JStr (json_time (R_CreatedAt x)))]"

definition gate_json :: "Gate \<Rightarrow> json" where
  "gate_json x = JObj [(''Token'', JStr (G_Token x)), (''WorkflowID'', JStr (G_WorkflowID x)),
     (''Seq'', JInt (G_Seq x)), (''Status'', JStr (G_Status x)), (''GateJSON'', JStr (G_GateJSON x)),
     (''ResolvedAt'', ptr_json (G_ResolvedAt x)), (''ResolvedBy'', JStr (G_ResolvedBy x)),
     (''CreatedAt'', JStr (json_time (G_CreatedAt x)))]"

definition task_json :: "Task \<Rightarrow> json" where
  "task_json x = JObj [(''TaskID'', JStr (T_TaskID x)), (''WorkflowID'', JStr (T_WorkflowID x)),
     (''NodeID'', JStr (T_NodeID x)), (''Agent'', JStr (T_Agent x)), (''Status'', JStr (T_Status x)),
     (''Priority'', JInt (T_Priority x)), (''PriorityLane'', JStr (T_PriorityLane x)),
     (''InputJSON'', JStr (T_InputJSON x)), (''OutputJSON'', JStr (T_OutputJSON x)),
     (''PolicyResultJSON'', JStr (T_PolicyResultJSON x)), (''ClaimedBy'', JStr (T_ClaimedBy x)),
     (''ClaimedAt'', ptr_json (T_ClaimedAt x)), (''LastHeartbeat'', ptr_json (T_LastHeartbeat x)),
     (''TimeoutSec'', JInt (T_TimeoutSec x)), (''AttemptCount'', JInt (T_AttemptCount x)),
     (''MaxAttempts'', JInt (T_MaxAttempts x)), (''DeadLettered'', JBool (T_DeadLettered x)),
     (''CompletedAt'', ptr_json (T_CompletedAt x)), (''FailedReason'', JStr (T_FailedReason x)),
     (''CreatedAt'', JStr (json_time (T_CreatedAt x))), (''UpdatedAt'', JStr (json_time (T_UpdatedAt x)))]"

definition branch_json :: "Branch \<Rightarrow> json" where
  "branch_json x = JObj [(''BranchID'', JStr (B_BranchID x)), (''ParentID'', JStr (B_ParentID x)),
     (''BranchPointSeq'', JInt (B_BranchPointSeq x)), (''BranchPointHash'', JStr (B_BranchPointHash x)),
     (''Reason'', JStr (B_Reason x)), (''Kind'', JStr (B_Kind x)), (''CreatedAt'', JStr (json_time (B_CreatedAt x)))]"

definition anchor_json :: "Anchor \<Rightarrow> json" where
  "anchor_json x = JObj [(''ProofID'', JStr (AN_ProofID x)), (''WorkflowID'', JStr (AN_WorkflowID x)),
     (''SeqFrom'', JInt (AN_SeqFrom x)), (''SeqTo'', JInt (AN_SeqTo x)), (''ChainRoot'', JStr (AN_ChainRoot x)),
     (''PayloadDigest'', JStr (AN_PayloadDigest x)), (''ProofDigest'', JStr (AN_ProofDigest x)),
     (''ExternalKind'', JStr (AN_ExternalKind x)), (''ExternalRef'', JStr (AN_ExternalRef x)),
     (''AnchoredBy'', JStr (AN_AnchoredBy x)), (''PayloadJSON'', JStr (AN_PayloadJSON x)),
     (''ProofJSON'', JStr (AN_ProofJSON x)), (''CreatedAt'', JStr (json_time (AN_CreatedAt x)))]"

definition omit_strings :: "string \<Rightarrow> string list option \<Rightarrow> (string \<times> json) list" where
  "omit_strings k v = (case v of None \<Rightarrow> [] | Some l \<Rightarrow> if l = [] then [] else [(k, JArr (map JStr l))])"

definition actor_json :: "ActorRecord option \<Rightarrow> json" where
  "actor_json a = (case a of None \<Rightarrow> JNull | Some x \<Rightarrow>
     JObj ([(''actor_id'', JStr (ar_ActorID x)),
        (''roles'', case ar_Roles x of None \<Rightarrow> JNull | Some l \<Rightarrow> JArr (map JStr l))] @
       omit_strings ''allowed_agents'' (ar_AllowedAgents x) @
       omit_strings ''allowed_workflows'' (ar_AllowedWorkflows x)))"

definition route_json :: "ModelRoute \<Rightarrow> json" where
  "route_json x = JObj [(''node_agent'', JStr (MR_NodeAgent x)), (''agent_id'', JStr (MR_AgentID x)),
     (''model'', JStr (MR_Model x))]"

subsection \<open>Paths\<close>

fun trim_left :: "string \<Rightarrow> string" where
  "trim_left [] = []"
| "trim_left (c # cs) = (if c = CHR ''/'' then trim_left cs else c # cs)"

definition Trim_slash :: "string \<Rightarrow> string" where
  "Trim_slash s = rev (trim_left (rev (trim_left s)))"

text \<open>\<open>split2\<close> is \<^verbatim>\<open>strings.SplitN(s, "/", 2)\<close> as a pair, \<open>split_all\<close> is \<^verbatim>\<open>strings.Split(s, "/")\<close>.\<close>

fun split2 :: "string \<Rightarrow> string \<times> string" where
  "split2 [] = ([], [])"
| "split2 (c # cs) = (if c = CHR ''/'' then ([], cs) else (case split2 cs of (a, b) \<Rightarrow> (c # a, b)))"

fun split_all :: "string \<Rightarrow> string list" where
  "split_all [] = [[]]"
| "split_all (c # cs) =
     (if c = CHR ''/'' then [] # split_all cs
      else case split_all cs of [] \<Rightarrow> [[c]] | p # ps \<Rightarrow> (c # p) # ps)"

definition pathSegment :: "request \<Rightarrow> string \<Rightarrow> string \<times> string" where
  "pathSegment r after = split2 (Trim_slash (TrimPrefix (rq_path r) after))"

text \<open>\<^verbatim>\<open>if err != nil { writeErr(...); return }\<close>; a panic is not an error the handler sees.\<close>

definition orErr :: "'a dbm \<Rightarrow> (go_error \<Rightarrow> response) \<Rightarrow> ('a \<Rightarrow> response dbm) \<Rightarrow> response dbm" where
  "orErr m onErr k = bindM (tryM m) (\<lambda>res. case res of
     Inl e \<Rightarrow> (case e of EPanic s \<Rightarrow> failM e | _ \<Rightarrow> returnM (onErr e))
   | Inr a \<Rightarrow> k a)"

text \<open>\<^verbatim>\<open>v, _ := call()\<close>: the error is dropped and \<open>v\<close> is the zero value.\<close>

definition orZero :: "'a dbm \<Rightarrow> 'a \<Rightarrow> ('a \<Rightarrow> response dbm) \<Rightarrow> response dbm" where
  "orZero m zero k = bindM (tryM m) (\<lambda>res. case res of Inl e \<Rightarrow> k zero | Inr a \<Rightarrow> k a)"

end
