(* ===== verification/Api.thy ===== *)
theory Api
  imports Http
begin

section \<open>The HTTP handlers: internal/api\<close>

text \<open>
  One definition per handler, with its guards in the order of the source, every store
  operation it calls and every error it answers or drops. \<^verbatim>\<open>actor.ActorID\<close> on a nil actor
  is a panic. \<open>Register\<close> is the routing of the mux on cleaned paths.
\<close>

definition not_allowed :: response where
  "not_allowed = api_writeErr 405 ''method not allowed''"

definition db500 :: "Handlers \<Rightarrow> go_error \<Rightarrow> response" where
  "db500 H e = api_writeErr 500 (errText H e)"

text \<open>\<^verbatim>\<open>if err != nil || v == nil { writeErr(code, msg) }\<close>\<close>

definition orMissing :: "'a option dbm \<Rightarrow> int \<Rightarrow> string \<Rightarrow> ('a \<Rightarrow> response dbm) \<Rightarrow> response dbm" where
  "orMissing m code msg k =
     orErr m (\<lambda>_. api_writeErr code msg) (\<lambda>v. case v of None \<Rightarrow> returnM (api_writeErr code msg) | Some x \<Rightarrow> k x)"

definition withActor :: "ActorRecord option \<Rightarrow> (ActorRecord \<Rightarrow> response dbm) \<Rightarrow> response dbm" where
  "withActor actor k = (case actor of None \<Rightarrow> failM (EPanic ''nil actor'') | Some a \<Rightarrow> k a)"

subsection \<open>workflows.go\<close>

definition planOrEmpty :: "json \<Rightarrow> json" where
  "planOrEmpty plan =
     (if plan \<noteq> JNull then plan else JObj (go_map [(''nodes'', JArr []), (''edges'', JArr [])]))"

definition result_fields :: "(string \<times> fkind) list" where
  "result_fields = [(''ok'', FBool), (''state_json'', FStr), (''state_hash'', FStr), (''receipt_json'', FStr),
     (''receipt_digest'', FStr), (''seq'', FInt)]"

definition result_of :: "struct \<Rightarrow> bool \<Rightarrow> TransitionResult" where
  "result_of r policyOK = \<lparr>TR_OK = fbool r ''ok'', TR_StateJSON = fstr r ''state_json'', TR_StateHash = fstr r ''state_hash'',
     TR_ReceiptJSON = fstr r ''receipt_json'', TR_ReceiptDigest = fstr r ''receipt_digest'', TR_PolicyOK = policyOK,
     TR_Violations = [], TR_Seq = fint r ''seq'', TR_Stage = []\<rparr>"

text \<open>The plan is put into the state when it decodes; a state \<^verbatim>\<open>null\<close> makes the assignment panic.\<close>

definition inject_plan :: "json \<Rightarrow> string \<Rightarrow> string option" where
  "inject_plan plan stateJSON =
     (if plan = JNull then Some stateJSON
      else case unmarshal stateJSON of
             Some JNull \<Rightarrow> None
           | Some (JObj m) \<Rightarrow> Some (marshal (JObj (map_put ''plan'' plan m)))
           | _ \<Rightarrow> Some stateJSON)"

definition createWorkflow_at :: "Handlers \<Rightarrow> int \<Rightarrow> handler" where
  "createWorkflow_at H clk r =
     (case ActorFromContext r of None \<Rightarrow> returnM (api_writeErr 401 ''unauthorized'') | Some actor \<Rightarrow>
      (case decode_body [(''workflow_id'', FStr), (''goal'', FStr), (''owner'', FStr), (''plan'', FMap)] r of
         (req, ok) \<Rightarrow>
       if \<not> ok then returnM (api_writeErr 400 ''invalid request body'')
       else
        let wid = (if fstr req ''workflow_id'' = [] then ''wf_'' @ take 8 (h_uuid H) else fstr req ''workflow_id'');
            goal = fstr req ''goal''; owner = fstr req ''owner''; plan = fany req ''plan'' in
        if goal = [] \<or> owner = [] then returnM (api_writeErr 400 ''goal and owner required'')
        else (case RunAndUnmarshal H ''create_workflow.fard''
                [(''workflow_id'', JStr wid), (''goal'', JStr goal), (''owner'', JStr owner), (''plan'', planOrEmpty plan)]
                result_fields of
            (_, Some e) \<Rightarrow> returnM (api_writeErr 500 (''fard bridge error: '' @ errText H e))
          | (res, None) \<Rightarrow>
              (case inject_plan plan (fstr res ''state_json'') of
                 None \<Rightarrow> failM (EPanic ''assignment to entry in nil map'')
               | Some stateJSON \<Rightarrow>
                  orErr (CreateWorkflow \<lparr>W_WorkflowID = wid, W_Goal = goal, W_Owner = owner, W_Stage = ''created'',
                          W_StateHash = fstr res ''state_hash'', W_CurrentSeq = 0, W_SnapshotSeq = 0,
                          W_CreatedAt = Some (clk), W_UpdatedAt = Some (clk)\<rparr>)
                    (\<lambda>e. api_writeErr 409 (''workflow already exists or db error: '' @ errText H e)) (\<lambda>_.
                  orErr (Tx (SaveSnapshot \<lparr>S_WorkflowID = wid, S_Seq = 0, S_StateJSON = stateJSON,
                          S_StateHash = fstr res ''state_hash'', S_CreatedAt = None\<rparr>))
                    (\<lambda>e. api_writeErr 500 (''save initial snapshot: '' @ errText H e)) (\<lambda>_.
                  returnM (writeJSON 200 [(''ok'', JBool True), (''workflow_id'', JStr wid),
                    (''state_hash'', JStr (fstr res ''state_hash'')), (''seq'', JInt 0)])))))))"

definition createWorkflow :: "Handlers \<Rightarrow> handler" where
  "createWorkflow H r d = createWorkflow_at H (now d) r d"

definition getWorkflow :: "Handlers \<Rightarrow> string \<Rightarrow> handler" where
  "getWorkflow H i r =
     orErr (GetWorkflow i) (db500 H) (\<lambda>v. case v of
        None \<Rightarrow> returnM (api_writeErr 404 ''workflow not found'')
      | Some x \<Rightarrow> returnM (writeJSON 200 [(''ok'', JBool True), (''workflow_id'', JStr (W_WorkflowID x)),
          (''goal'', JStr (W_Goal x)), (''owner'', JStr (W_Owner x)), (''stage'', JStr (W_Stage x)),
          (''state_hash'', JStr (W_StateHash x)), (''seq'', JInt (W_CurrentSeq x)),
          (''created_at'', JStr (json_time (W_CreatedAt x))), (''updated_at'', JStr (json_time (W_UpdatedAt x)))]))"

definition listWorkflows :: "Handlers \<Rightarrow> handler" where
  "listWorkflows H r =
     orErr (ListWorkflows (rq_query r ''stage'') 100) (db500 H) (\<lambda>wfs.
     returnM (writeJSON 200 [(''ok'', JBool True), (''workflows'', slice_json workflow_json wfs)]))"

definition dec_patch :: "json \<Rightarrow> (string \<times> json) option" where
  "dec_patch j = (case decode_struct [(''path'', FStr), (''value'', FAny)] j of (p, ok) \<Rightarrow>
     if ok then Some (fstr p ''path'', fany p ''value'') else None)"

definition patch_json :: "string \<times> json \<Rightarrow> json" where
  "patch_json p = JObj (go_map [(''path'', JStr (fst p)), (''value'', snd p)])"

text \<open>The body of \<^verbatim>\<open>editState\<close>: \<^verbatim>\<open>None\<close> when it does not decode; a missing list is nil.\<close>

definition dec_patches :: "request \<Rightarrow> (string \<times> json) list option option" where
  "dec_patches r =
     (case unmarshal (rq_body r) of
        Some (JObj m) \<Rightarrow> (case map_of m ''patches'' of
            None \<Rightarrow> Some None
          | Some JNull \<Rightarrow> Some None
          | Some (JArr vs) \<Rightarrow> map_option Some (dec_all dec_patch vs)
          | _ \<Rightarrow> None)
      | Some JNull \<Rightarrow> Some None
      | _ \<Rightarrow> None)"

definition edit_reply :: "struct \<Rightarrow> response" where
  "edit_reply res = writeJSON 200 [(''ok'', JBool (fbool res ''ok'')), (''state_hash'', JStr (fstr res ''state_hash'')),
     (''seq'', JInt (fint res ''seq'')), (''policy_ok'', JBool (fbool res ''policy_ok'')), (''violations'', fany res ''violations'')]"

definition edit_run :: "Handlers \<Rightarrow> ActorRecord option \<Rightarrow> (string \<times> json) list option \<Rightarrow> WorkflowSnapshot \<Rightarrow> struct \<times> go_error option" where
  "edit_run H actor patches snap =
     RunAndUnmarshal H ''transition.fard'' [(''state_json'', JStr (S_StateJSON snap)), (''actor'', actor_json actor),
       (''kind'', JStr ''human_state_edit''), (''patches'', patches_json (map_option (map patch_json) patches)),
       (''tool_version'', JStr ''human'')]
     (result_fields @ [(''policy_ok'', FBool), (''violations'', FAny)])"

definition edit_params :: "Handlers \<Rightarrow> string \<Rightarrow> ActorRecord \<Rightarrow> (string \<times> json) list option \<Rightarrow> struct \<Rightarrow> CommitParams" where
  "edit_params H i a patches res =
     \<lparr>CP_WorkflowID = i, CP_Result = result_of res (fbool res ''policy_ok''),
      CP_Patches = Some (map patch_json (case patches of None \<Rightarrow> [] | Some ps \<Rightarrow> ps)),
      CP_Kind = ''human_state_edit'', CP_ActorID = ar_ActorID a, CP_SnapshotEvery = h_snapshotEvery H\<rparr>"

definition editState :: "Handlers \<Rightarrow> string \<Rightarrow> handler" where
  "editState H i r =
     (if rq_method r \<noteq> ''POST'' then returnM not_allowed
      else let actor = ActorFromContext r in
      case dec_patches r of
        None \<Rightarrow> returnM (api_writeErr 400 ''invalid body'')
      | Some patches \<Rightarrow>
        orMissing (GetLatestSnapshot i) 404 ''workflow state not found'' (\<lambda>snap.
        case edit_run H actor patches snap of
          (_, Some e) \<Rightarrow> returnM (db500 H e)
        | (res, None) \<Rightarrow>
            if \<not> fbool res ''ok'' then returnM (edit_reply res)
            else withActor actor (\<lambda>a.
              orErr (CommitTransition (h_crypto H) (edit_params H i a patches res))
                (\<lambda>e. api_writeErr 500 (''commit failed: '' @ errText H e)) (\<lambda>_.
              returnM (edit_reply res)))))"

definition getDashboard :: "Handlers \<Rightarrow> string \<Rightarrow> handler" where
  "getDashboard H i r =
     orMissing (GetWorkflow i) 404 ''workflow not found'' (\<lambda>wkf.
     orMissing (GetLatestSnapshot i) 404 ''workflow state not found'' (\<lambda>snap.
     orZero (ListArtifacts i) [] (\<lambda>arts.
     returnM (writeJSON 200 [(''ok'', JBool True), (''dashboard'',
       fst (RunAndUnmarshal_any H ''dashboard.fard'' [(''state_json'', JStr (S_StateJSON snap)),
         (''artifact_jsons'', JArr (map (\<lambda>a. JStr (A_ArtifactJSON a)) arts))]))]))))"

definition getReceipts :: "Handlers \<Rightarrow> string \<Rightarrow> handler" where
  "getReceipts H i r =
     orErr (GetReceipts i) (db500 H) (\<lambda>receipts.
       let wrappers = JArr (map (\<lambda>x. JObj [(''receipt_json'', JStr (R_ReceiptJSON x))]) receipts);
           res = fst (RunAndUnmarshal H ''verify_chain.fard'' [(''receipts'', wrappers)]
                        [(''chain_root'', FStr), (''chain_verified'', FBool), (''receipt_count'', FInt)]) in
     returnM (writeJSON 200 [(''ok'', JBool True), (''receipts'', slice_json receipt_json receipts),
       (''chain_root'', JStr (fstr res ''chain_root'')), (''chain_verified'', JBool (fbool res ''chain_verified'')),
       (''receipt_count'', JInt (fint res ''receipt_count''))]))"

text \<open>The body of \<^verbatim>\<open>replayWorkflow\<close>: the events and the tool version.\<close>

definition dec_replay :: "request \<Rightarrow> (json \<times> string) option" where
  "dec_replay r =
     (case decode_body [(''events'', FAny), (''tool_version'', FStr)] r of (req, ok) \<Rightarrow>
        if ok \<and> (case fany req ''events'' of JNull \<Rightarrow> True | JArr vs \<Rightarrow> True | _ \<Rightarrow> False)
        then Some (fany req ''events'', fstr req ''tool_version'') else None)"

definition replay_reply :: "Handlers \<Rightarrow> ActorRecord option \<Rightarrow> json \<times> string \<Rightarrow> WorkflowSnapshot \<Rightarrow> response" where
  "replay_reply H actor req snap =
     (case RunAndUnmarshal_any H ''replay.fard'' [(''initial_state_json'', JStr (S_StateJSON snap)),
             (''actor'', actor_json actor), (''events'', fst req), (''tool_version'', JStr (snd req))] of
        (_, Some e) \<Rightarrow> api_writeErr 500 (''replay failed: '' @ errText H e)
      | (res, None) \<Rightarrow> writeJSON 200 [(''ok'', JBool True), (''replay'', res)])"

definition replayWorkflow :: "Handlers \<Rightarrow> string \<Rightarrow> handler" where
  "replayWorkflow H i r =
     (if rq_method r \<noteq> ''POST'' then returnM not_allowed
      else case dec_replay r of
        None \<Rightarrow> returnM (api_writeErr 400 ''invalid body'')
      | Some req \<Rightarrow>
        let actor = ActorFromContext r in
        orErr (GetSnapshotAtSeq i 0) (db500 H) (\<lambda>v. case v of
          Some snap \<Rightarrow> returnM (replay_reply H actor req snap)
        | None \<Rightarrow> orMissing (GetLatestSnapshot i) 404 ''initial state not found''
                    (\<lambda>snap. returnM (replay_reply H actor req snap))))"

definition artifact_reply :: "struct \<Rightarrow> response" where
  "artifact_reply res = writeJSON 200 [(''ok'', JBool (fbool res ''ok'')), (''digest'', JStr (fstr res ''digest'')),
     (''state_hash'', JStr (fstr res ''state_hash'')), (''seq'', JInt (fint res ''seq''))]"

definition commitArtifact :: "Handlers \<Rightarrow> string \<Rightarrow> handler" where
  "commitArtifact H i r =
     (if rq_method r \<noteq> ''POST'' then returnM not_allowed
      else if unmarshal (rq_body r) = None then returnM (api_writeErr 400 ''invalid body'')
      else let actor = ActorFromContext r in
      orMissing (GetLatestSnapshot i) 404 ''workflow not found'' (\<lambda>snap.
        let res = fst (RunAndUnmarshal H ''commit_artifact.fard'' [(''state_json'', JStr (S_StateJSON snap)),
              (''actor'', actor_json actor), (''artifact_json'', JStr (rq_body r)),
              (''tool_version'', JStr ''tool-gateway-1.0.0'')] (result_fields @ [(''digest'', FStr)])) in
        if \<not> fbool res ''ok'' then returnM (artifact_reply res)
        else withActor actor (\<lambda>a.
          orErr (CommitArtifact (h_crypto H) \<lparr>AP_WorkflowID = i, AP_ArtifactJSON = rq_body r,
                  AP_ArtifactDigest = fstr res ''digest'', AP_Result = result_of res False,
                  AP_ActorID = ar_ActorID a, AP_SnapshotEvery = h_snapshotEvery H\<rparr>)
            (\<lambda>e. api_writeErr 500 (''commit artifact failed: '' @ errText H e)) (\<lambda>_.
          returnM (artifact_reply res)))))"

definition dec_route :: "json \<Rightarrow> ModelRoute option" where
  "dec_route j = (case decode_struct [(''node_agent'', FStr), (''agent_id'', FStr), (''model'', FStr)] j of (p, ok) \<Rightarrow>
     if ok then Some \<lparr>MR_NodeAgent = fstr p ''node_agent'', MR_AgentID = fstr p ''agent_id'', MR_Model = fstr p ''model''\<rparr>
     else None)"

definition dec_routes :: "request \<Rightarrow> ModelRoute list" where
  "dec_routes r =
     (case unmarshal (rq_body r) of
        Some (JObj m) \<Rightarrow> (case dec_list dec_route (map_of m ''routes'') of None \<Rightarrow> [] | Some rs \<Rightarrow> rs)
      | _ \<Rightarrow> [])"

definition executePlan :: "Handlers \<Rightarrow> string \<Rightarrow> handler" where
  "executePlan H w r =
     (if rq_method r \<noteq> ''POST'' then returnM not_allowed
      else orErr (EnqueuePlanTasks w (dec_routes r)) (db500 H) (\<lambda>taskIDs.
        returnM (writeJSON 200 [(''ok'', JBool True), (''enqueued'', JInt (int (length taskIDs))),
          (''task_ids'', slice_json JStr taskIDs)])))"

definition markNodeDone :: "Handlers \<Rightarrow> string \<Rightarrow> string \<Rightarrow> handler" where
  "markNodeDone H w nodeID r =
     (if rq_method r \<noteq> ''POST'' then returnM not_allowed
      else orErr (MarkPlanNodeDone w nodeID) (db500 H) (\<lambda>_.
        returnM (writeJSON 200 [(''ok'', JBool True), (''workflow_id'', JStr w), (''node_id'', JStr nodeID),
          (''status'', JStr ''done'')])))"

definition default_routes :: "ModelRoute list" where
  "default_routes =
     [\<lparr>MR_NodeAgent = ''research_agent'', MR_AgentID = ''agent:claude-opus'', MR_Model = ''claude-opus-4-6''\<rparr>,
      \<lparr>MR_NodeAgent = ''finance_agent'', MR_AgentID = ''agent:claude-sonnet'', MR_Model = ''claude-sonnet-4-6''\<rparr>,
      \<lparr>MR_NodeAgent = ''legal_agent'', MR_AgentID = ''agent:claude-opus'', MR_Model = ''claude-opus-4-6''\<rparr>,
      \<lparr>MR_NodeAgent = ''procurement_agent'', MR_AgentID = ''agent:claude-sonnet'', MR_Model = ''claude-sonnet-4-6''\<rparr>,
      \<lparr>MR_NodeAgent = ''manager'', MR_AgentID = ''agent:operator'', MR_Model = ''human''\<rparr>]"

definition handleModelRoutes :: handler where
  "handleModelRoutes r =
     returnM (writeJSON 200 [(''ok'', JBool True), (''routes'', JArr (map route_json default_routes))])"

subsection \<open>tasks.go\<close>

definition claimNextTask :: "Handlers \<Rightarrow> handler" where
  "claimNextTask H r =
     (let agent = rq_query r ''agent'' in
      if agent = [] then returnM (api_writeErr 400 ''agent query param required'')
      else orErr (ClaimNextTask agent) (db500 H) (\<lambda>task.
        returnM (writeJSON 200 [(''ok'', JBool True), (''task'', case task of None \<Rightarrow> JNull | Some t \<Rightarrow> task_json t)])))"

definition getTask :: "Handlers \<Rightarrow> string \<Rightarrow> handler" where
  "getTask H taskID r =
     orMissing (GetTask taskID) 404 ''task not found'' (\<lambda>t.
       returnM (writeJSON 200 [(''ok'', JBool True), (''task'', task_json t)]))"

definition listWorkflowTasks :: "Handlers \<Rightarrow> string \<Rightarrow> handler" where
  "listWorkflowTasks H w r =
     orErr (ListTasks w (rq_query r ''status'')) (db500 H) (\<lambda>tasks.
       returnM (writeJSON 200 [(''ok'', JBool True), (''tasks'', slice_json task_json tasks)]))"

text \<open>\<^verbatim>\<open>json.Marshal\<close> of a raw message: white space outside strings goes, HTML characters are escaped.\<close>

fun compact :: "bool \<Rightarrow> bool \<Rightarrow> string \<Rightarrow> string" where
  "compact inStr esc [] = []"
| "compact inStr esc (c # cs) =
     (if \<not> inStr then
        (if is_ws c then compact False False cs else c # compact (c = CHR 0x22) False cs)
      else (if (of_char c :: nat) \<in> {60, 62, 38} then esc_char c else [c]) @
        (if esc then compact True False cs
         else if c = CHR 0x5C then compact True True cs
         else compact (c \<noteq> CHR 0x22) False cs))"

definition completeTask :: "Handlers \<Rightarrow> string \<Rightarrow> handler" where
  "completeTask H taskID r =
     (if rq_method r \<noteq> ''POST'' then returnM not_allowed
      else if unmarshal (rq_body r) = None then returnM (api_writeErr 400 ''invalid body'')
      else
      orMissing (GetTask taskID) 404 ''task not found'' (\<lambda>task.
      if T_Status task \<noteq> ''claimed'' then returnM (api_writeErr 409 ''task not in claimed state'')
      else
      orMissing (GetLatestSnapshot (T_WorkflowID task)) 500 ''workflow state not found'' (\<lambda>snap.
      case RunAndUnmarshal H ''commit_artifact.fard'' [(''state_json'', JStr (S_StateJSON snap)),
             (''actor'', actor_json (ActorFromContext r)), (''artifact_json'', JStr (rq_body r)),
             (''tool_version'', JStr ''tool-gateway-1.0.0'')]
           (result_fields @ [(''policy_ok'', FBool), (''violations'', FAny)]) of
        (_, Some e) \<Rightarrow> returnM (db500 H e)
      | (res, None) \<Rightarrow>
          let policyStr = marshal (JObj (go_map [(''ok'', JBool (fbool res ''policy_ok'')), (''violations'', fany res ''violations'')])) in
          returnM (writeJSON 200 [(''ok'', JBool (fbool res ''ok'')), (''policy_ok'', JBool (fbool res ''policy_ok'')),
            (''state_hash'', JStr (fstr res ''state_hash'')), (''seq'', JInt (fint res ''seq'')),
            (''violations'', fany res ''violations''), (''output_size'', JInt (int (length (compact False False (rq_body r))))),
            (''policy_size'', JInt (int (length policyStr)))]))))"

definition heartbeatTask :: "Handlers \<Rightarrow> string \<Rightarrow> handler" where
  "heartbeatTask H taskID r =
     (if rq_method r \<noteq> ''POST'' then returnM not_allowed
      else case ActorFromContext r of
        None \<Rightarrow> returnM (api_writeErr 401 ''unauthorized'')
      | Some actor \<Rightarrow>
          orErr (HeartbeatTask taskID (ar_ActorID actor)) (db500 H) (\<lambda>_.
            returnM (writeJSON 200 [(''ok'', JBool True), (''task_id'', JStr taskID)])))"

definition failTask :: "Handlers \<Rightarrow> string \<Rightarrow> handler" where
  "failTask H taskID r =
     (if rq_method r \<noteq> ''POST'' then returnM not_allowed
      else returnM (writeJSON 200 [(''ok'', JBool True), (''task_id'', JStr taskID), (''status'', JStr ''failed'')]))"

subsection \<open>gates.go\<close>

definition gate_reply :: "struct \<Rightarrow> response" where
  "gate_reply res = writeJSON 200 [(''ok'', JBool (fbool res ''ok'')), (''state_hash'', JStr (fstr res ''state_hash'')),
     (''seq'', JInt (fint res ''seq'')), (''error'', JStr (fstr res ''error''))]"

definition resumeGate :: "Handlers \<Rightarrow> string \<Rightarrow> string \<Rightarrow> handler" where
  "resumeGate H w token r =
     (if rq_method r \<noteq> ''POST'' then returnM not_allowed
      else let actor = ActorFromContext r in
      case decode_body [(''resolution'', FStr)] r of (req, ok) \<Rightarrow>
      if \<not> ok then returnM (api_writeErr 400 ''invalid body'')
      else let resolution = fstr req ''resolution'' in
      if resolution \<noteq> ''approved'' \<and> resolution \<noteq> ''rejected''
      then returnM (api_writeErr 400 ''resolution must be approved or rejected'')
      else
      orMissing (GetGate token) 404 ''gate not found'' (\<lambda>gate.
      if G_WorkflowID gate \<noteq> w then returnM (api_writeErr 403 ''gate does not belong to this workflow'')
      else if G_Status gate \<noteq> ''pending'' then returnM (api_writeErr 409 ''gate already resolved'')
      else
      orMissing (GetLatestSnapshot w) 404 ''workflow state not found'' (\<lambda>snap.
      case RunAndUnmarshal H ''gate_resume.fard'' [(''state_json'', JStr (S_StateJSON snap)), (''actor'', actor_json actor),
             (''token'', JStr token), (''resolution'', JStr resolution), (''tool_version'', JStr ''human'')]
           (result_fields @ [(''error'', FStr)]) of
        (_, Some e) \<Rightarrow> returnM (db500 H e)
      | (res, None) \<Rightarrow>
          withActor actor (\<lambda>a.
          orErr (CommitGateResolution (h_crypto H) w token resolution (ar_ActorID a) (result_of res False) (h_snapshotEvery H))
            (\<lambda>e. api_writeErr 500 (''commit gate failed: '' @ errText H e)) (\<lambda>_.
          returnM (gate_reply res))))))"

definition getInbox :: "Handlers \<Rightarrow> handler" where
  "getInbox H r =
     orZero ListPendingGates [] (\<lambda>gates.
     orZero (ListTasks [] ''pending'') [] (\<lambda>tasks.
     returnM (writeJSON 200 [(''ok'', JBool True), (''pending_gates'', slice_json gate_json gates),
       (''pending_tasks'', slice_json task_json tasks)])))"

subsection \<open>branches.go\<close>

definition fork_point :: "Handlers \<Rightarrow> int \<Rightarrow> json \<Rightarrow> int" where
  "fork_point H seq state =
     (if seq \<noteq> 0 then seq
      else case state of
        JObj m \<Rightarrow> (case map_of m ''seq'' of Some (JInt i) \<Rightarrow> i | Some (JFrac s) \<Rightarrow> h_trunc H s | _ \<Rightarrow> 0)
      | _ \<Rightarrow> 0)"

definition forkWorkflow :: "Handlers \<Rightarrow> string \<Rightarrow> handler" where
  "forkWorkflow H w r =
     (if rq_method r \<noteq> ''POST'' then returnM not_allowed
      else if ActorFromContext r = None then returnM (api_writeErr 401 ''unauthorized'')
      else case decode_body [(''branch_point_seq'', FInt), (''reason'', FStr), (''new_workflow_id'', FStr)] r of (req, ok) \<Rightarrow>
      if \<not> ok then returnM (api_writeErr 400 ''invalid request body'')
      else
      let reason = (if fstr req ''reason'' = [] then ''fork'' else fstr req ''reason'');
          newID = (if fstr req ''new_workflow_id'' = [] then ''wf_fork_'' @ take 8 (h_uuid H) else fstr req ''new_workflow_id'') in
      orMissing (GetLatestSnapshot w) 404 ''parent workflow not found'' (\<lambda>snap.
      case (case unmarshal (S_StateJSON snap) of
              Some (JObj m) \<Rightarrow> Some (JObj m) | Some JNull \<Rightarrow> Some JNull | _ \<Rightarrow> None) of
        None \<Rightarrow> returnM (api_writeErr 500 ''parse parent state'')
      | Some parentState \<Rightarrow>
        let seq = fork_point H (fint req ''branch_point_seq'') parentState in
        (case RunAndUnmarshal H ''fork.fard'' [(''parent_state'', parentState), (''new_workflow_id'', JStr newID),
                (''branch_point_seq'', JInt seq), (''reason'', JStr reason)]
              [(''ok'', FBool), (''state_json'', FStr), (''state_hash'', FStr), (''branch'', FMap)] of
           (_, Some e) \<Rightarrow> returnM (api_writeErr 500 (''fork bridge: '' @ errText H e))
         | (res, None) \<Rightarrow>
             if \<not> fbool res ''ok'' then returnM (api_writeErr 500 ''fork failed'')
             else if length (fstr res ''state_json'') < 5 then returnM (api_writeErr 500 ''fork bridge returned empty state'')
             else
             let stateHash = (if fstr res ''state_hash'' = [] then ''sha256:fork-'' @ newID @ ''-seq'' @ show_int seq
                              else fstr res ''state_hash'') in
             orErr (CommitFork \<lparr>FP_ParentWorkflowID = w, FP_NewWorkflowID = newID, FP_BranchPointSeq = seq,
                      FP_Reason = reason, FP_Kind = ''fork''\<rparr> (fstr res ''state_json'') stateHash)
               (\<lambda>e. api_writeErr 500 (''commit fork: '' @ errText H e)) (\<lambda>result.
             returnM (writeJSON 200 [(''ok'', JBool True), (''branch_id'', JStr (FR_BranchID result)),
               (''new_workflow_id'', JStr (FR_NewWorkflowID result)), (''parent_id'', JStr w),
               (''branch_point_seq'', JInt (FR_BranchPointSeq result)),
               (''branch_point_hash'', JStr (FR_BranchPointHash result))])))))"

definition listBranches :: "Handlers \<Rightarrow> string \<Rightarrow> handler" where
  "listBranches H w r =
     (if rq_method r \<noteq> ''GET'' then returnM not_allowed
      else orErr (ListBranches w) (db500 H) (\<lambda>branches.
        returnM (writeJSON 200 [(''ok'', JBool True), (''branches'', slice_json branch_json branches),
          (''count'', JInt (int (length branches)))])))"

text \<open>\<open>sanitizeForFARD\<close> drops the lineage and every null member; nothing calls it.\<close>

definition sanitizeForFARD :: "(string \<times> json) list \<Rightarrow> (string \<times> json) list" where
  "sanitizeForFARD state = filter (\<lambda>kv. snd kv \<noteq> JNull) (map_del ''lineage'' state)"

subsection \<open>anchor.go\<close>

definition receipt_map :: "Receipt \<Rightarrow> json" where
  "receipt_map rec = (case unmarshal (R_ReceiptJSON rec) of Some (JObj m) \<Rightarrow> JObj m | _ \<Rightarrow> JNull)"

definition anchorWorkflow_at :: "Handlers \<Rightarrow> int \<Rightarrow> string \<Rightarrow> handler" where
  "anchorWorkflow_at H clk w r =
     (if rq_method r \<noteq> ''POST'' then returnM not_allowed
      else case ActorFromContext r of
        None \<Rightarrow> returnM (api_writeErr 401 ''unauthorized'')
      | Some actor \<Rightarrow>
      let req = fst (decode_body [(''seq_from'', FInt), (''seq_to'', FInt), (''policy_version'', FStr)] r);
          policyVersion = (if fstr req ''policy_version'' = [] then ''ACP-POLICY-1.0.0'' else fstr req ''policy_version'') in
      orErr (GetReceipts w) (\<lambda>_. api_writeErr 400 ''no receipts found for workflow'') (\<lambda>receipts.
      if receipts = [] then returnM (api_writeErr 400 ''no receipts found for workflow'')
      else
      let seqTo = (if fint req ''seq_to'' = 0 then R_Seq (last receipts) else fint req ''seq_to'');
          seqFrom = (if fint req ''seq_from'' = 0 then 1 else fint req ''seq_from'') in
      (case RunAndUnmarshal H ''anchor_payload.fard'' [(''workflow_id'', JStr w), (''seq_from'', JInt seqFrom),
              (''seq_to'', JInt seqTo), (''receipts'', slice_json receipt_map receipts), (''policy_version'', JStr policyVersion)]
            [(''ok'', FBool), (''payload_json'', FStr), (''payload_digest'', FStr), (''chain_root'', FStr)] of
         (_, Some e) \<Rightarrow> returnM (api_writeErr 500 (''anchor payload bridge: '' @ errText H e))
       | (payload, None) \<Rightarrow>
         (case backend_Anchor (h_crypto H) clk DefaultBackend (fstr payload ''payload_digest'') w seqFrom seqTo of
            Err e \<Rightarrow> returnM (api_writeErr 500 (''anchor backend: '' @ errText H e))
          | Blocked \<Rightarrow> (\<lambda>d. (Blocked, d))
          | Ok extRef \<Rightarrow>
            (case RunAndUnmarshal H ''anchor_proof.fard'' [(''payload_json'', JStr (fstr payload ''payload_json'')),
                    (''external_ref'', ExternalRef_json extRef), (''anchored_by'', JStr (ar_ActorID actor))]
                  [(''ok'', FBool), (''proof_json'', FStr), (''proof_digest'', FStr)] of
               (_, Some e) \<Rightarrow> returnM (api_writeErr 500 (''anchor proof bridge: '' @ errText H e))
             | (proof, None) \<Rightarrow>
                 orErr (CreateAnchor \<lparr>AN_ProofID = h_uuid H, AN_WorkflowID = w, AN_SeqFrom = seqFrom, AN_SeqTo = seqTo,
                          AN_ChainRoot = fstr payload ''chain_root'', AN_PayloadDigest = fstr payload ''payload_digest'',
                          AN_ProofDigest = fstr proof ''proof_digest'', AN_ExternalKind = ER_Kind extRef,
                          AN_ExternalRef = MarshalExternalRef extRef, AN_AnchoredBy = ar_ActorID actor,
                          AN_PayloadJSON = fstr payload ''payload_json'', AN_ProofJSON = fstr proof ''proof_json'',
                          AN_CreatedAt = None\<rparr>)
                   (\<lambda>e. api_writeErr 500 (''store anchor: '' @ errText H e)) (\<lambda>_.
                 returnM (writeJSON 200 [(''ok'', JBool True), (''proof_id'', JStr (h_uuid H)), (''workflow_id'', JStr w),
                   (''seq_from'', JInt seqFrom), (''seq_to'', JInt seqTo), (''chain_root'', JStr (fstr payload ''chain_root'')),
                   (''payload_digest'', JStr (fstr payload ''payload_digest'')), (''external_kind'', JStr (ER_Kind extRef)),
                   (''external_ref'', ExternalRef_json extRef)])))))))"

definition anchorWorkflow :: "Handlers \<Rightarrow> string \<Rightarrow> handler" where
  "anchorWorkflow H w r d = anchorWorkflow_at H (now d) w r d"

definition getAnchorLog :: "Handlers \<Rightarrow> string \<Rightarrow> handler" where
  "getAnchorLog H w r =
     (if rq_method r \<noteq> ''GET'' then returnM not_allowed
      else orErr (ListAnchors w) (db500 H) (\<lambda>anchors.
        orZero (AnchorSummary w) JNull (\<lambda>summary.
        returnM (writeJSON 200 [(''ok'', JBool True), (''anchors'', slice_json anchor_json anchors), (''summary'', summary)]))))"

text \<open>One round of the loop of \<^verbatim>\<open>verifyAnchor\<close>: whether the proof holds, and its entry in the answer.\<close>

definition verify_one :: "Handlers \<Rightarrow> json \<Rightarrow> Anchor \<Rightarrow> bool \<times> json" where
  "verify_one H receiptMaps a =
     (let proof = (case unmarshal (AN_ProofJSON a) of Some (JObj m) \<Rightarrow> JObj m | _ \<Rightarrow> JNull) in
      case RunAndUnmarshal H ''anchor_verify.fard'' [(''proof'', proof), (''receipts'', receiptMaps)]
            [(''ok'', FBool), (''payload_ok'', FBool), (''proof_digest_matches'', FBool), (''root_matches'', FBool),
             (''digest_matches'', FBool), (''external_ref'', FMap)] of
        (_, Some e) \<Rightarrow> (False, JObj (go_map [(''proof_id'', JStr (AN_ProofID a)), (''ok'', JBool False),
            (''error'', JStr (errText H e))]))
      | (v, None) \<Rightarrow> (fbool v ''ok'', JObj (go_map [(''proof_id'', JStr (AN_ProofID a)), (''seq_from'', JInt (AN_SeqFrom a)),
            (''seq_to'', JInt (AN_SeqTo a)), (''ok'', JBool (fbool v ''ok'')), (''root_matches'', JBool (fbool v ''root_matches'')),
            (''external_ref'', JStr (AN_ExternalRef a))])))"

definition verifyAnchor :: "Handlers \<Rightarrow> string \<Rightarrow> handler" where
  "verifyAnchor H w r =
     (if rq_method r \<noteq> ''GET'' then returnM not_allowed
      else orErr (ListAnchors w) (\<lambda>_. api_writeErr 404 ''no anchors found'') (\<lambda>anchors.
        if anchors = [] then returnM (api_writeErr 404 ''no anchors found'')
        else orErr (GetReceipts w) (db500 H) (\<lambda>receipts.
          let rs = map (verify_one H (slice_json receipt_map receipts)) anchors;
              allOK = list_all fst rs in
          returnM (writeJSON 200 [(''ok'', JBool allOK), (''workflow_id'', JStr w), (''proofs'', JArr (map snd rs)),
            (''verified'', JBool allOK)]))))"

subsection \<open>api.go: routing\<close>

definition handleWorkflows :: "Handlers \<Rightarrow> handler" where
  "handleWorkflows H r =
     (if rq_method r = ''GET'' then listWorkflows H r
      else if rq_method r = ''POST'' then createWorkflow H r
      else returnM not_allowed)"

definition workflow_default :: "Handlers \<Rightarrow> string \<Rightarrow> string \<Rightarrow> handler" where
  "workflow_default H i sub r =
     (if HasPrefix sub ''plan/nodes/'' \<and> HasSuffix sub ''/done''
      then markNodeDone H i (TrimSuffix (TrimPrefix sub ''plan/nodes/'') ''/done'') r
      else case split_all sub of
        [a, token, b] \<Rightarrow> if a = ''gates'' \<and> b = ''resume'' then resumeGate H i token r
                        else returnM (api_writeErr 404 ''not found'')
      | _ \<Rightarrow> returnM (api_writeErr 404 ''not found''))"

definition handleWorkflow :: "Handlers \<Rightarrow> handler" where
  "handleWorkflow H r =
     (case pathSegment r ''/workflows/'' of (i, sub) \<Rightarrow>
      if i = [] then returnM (api_writeErr 400 ''missing workflow id'')
      else if sub = [] then (if rq_method r = ''GET'' then getWorkflow H i r else returnM not_allowed)
      else if sub = ''state/edit'' then editState H i r
      else if sub = ''artifacts'' then commitArtifact H i r
      else if sub = ''dashboard'' then getDashboard H i r
      else if sub = ''receipts'' then getReceipts H i r
      else if sub = ''replay'' then replayWorkflow H i r
      else if sub = ''plan/execute'' then executePlan H i r
      else if sub = ''tasks'' then returnM []
      else if sub = ''fork'' then forkWorkflow H i r
      else if sub = ''anchor'' then anchorWorkflow H i r
      else if sub = ''anchor/log'' then getAnchorLog H i r
      else if sub = ''anchor/verify'' then verifyAnchor H i r
      else if sub = ''branches'' then
        bindM (listBranches H i r) (\<lambda>a. bindM (listWorkflowTasks H i r) (\<lambda>b. returnM (a @ b)))
      else workflow_default H i sub r)"

definition handleTaskNext :: "Handlers \<Rightarrow> handler" where
  "handleTaskNext H r = (if rq_method r \<noteq> ''GET'' then returnM not_allowed else claimNextTask H r)"

definition handleTask :: "Handlers \<Rightarrow> handler" where
  "handleTask H r =
     (case pathSegment r ''/tasks/'' of (taskID, sub) \<Rightarrow>
      if sub = ''complete'' then completeTask H taskID r
      else if sub = ''fail'' then failTask H taskID r
      else if sub = ''heartbeat'' then heartbeatTask H taskID r
      else if rq_method r = ''GET'' then getTask H taskID r
      else returnM (api_writeErr 404 ''not found''))"

definition handleDeadLetter :: "Handlers \<Rightarrow> handler" where
  "handleDeadLetter H r =
     (if rq_method r \<noteq> ''GET'' then returnM not_allowed
      else orErr (ListDeadLetterTasks (rq_query r ''workflow_id'')) (db500 H) (\<lambda>tasks.
        returnM (writeJSON 200 [(''ok'', JBool True), (''dead_letter_tasks'', slice_json task_json tasks)])))"

definition handleInbox :: "Handlers \<Rightarrow> handler" where
  "handleInbox H r = (if rq_method r \<noteq> ''GET'' then returnM not_allowed else getInbox H r)"

text \<open>The mux prefers the longest matching pattern; a path without one goes to \<open>other\<close>.\<close>

definition Register :: "Handlers \<Rightarrow> handler \<Rightarrow> handler" where
  "Register H other r =
     (let p = rq_path r in
      if p = ''/workflows'' then handleWorkflows H r
      else if HasPrefix p ''/workflows/'' then handleWorkflow H r
      else if p = ''/model-routes'' then handleModelRoutes r
      else if p = ''/tasks/next'' then handleTaskNext H r
      else if HasPrefix p ''/tasks/'' then handleTask H r
      else if p = ''/operator/inbox'' then handleInbox H r
      else if p = ''/operator/dead-letter'' then handleDeadLetter H r
      else other r)"

end
