(* ===== verification/Service.thy ===== *)
theory Service
  imports Api
begin

section \<open>Properties every request keeps\<close>

text \<open>
  The locales \<open>side_statements\<close> (tasks, dead letters and anchors) and \<open>statement_invariant\<close> (all
  statements of the service) are the interface between the SQL statements and the service: a
  property of the tables that each statement keeps. From it follows, once and for
  all, that every store operation a handler calls keeps the property, and so does every
  request and every pass of the requeue loop, whatever the bridge answers and the engine
  fails. It is interpreted on the keys of the schema and on the append-only order of the
  audit tables; reads are the trivial case of any property at all (\<open>keeps_query\<close>).
\<close>

subsection \<open>Composition of handlers\<close>

lemma keeps_let: "(\<And>x. keeps I (f x)) \<Longrightarrow> keeps I (let x = v in f x)"
  by simp

lemma keeps_prod: "(\<And>x y. keeps I (f x y)) \<Longrightarrow> keeps I (case v of (x, y) \<Rightarrow> f x y)"
  by (simp split: prod.split)

lemma keeps_option: "keeps I a \<Longrightarrow> (\<And>x. keeps I (f x)) \<Longrightarrow> keeps I (case v of None \<Rightarrow> a | Some x \<Rightarrow> f x)"
  by (simp split: option.split)

lemma keeps_sum: "(\<And>x. keeps I (f x)) \<Longrightarrow> (\<And>x. keeps I (g x)) \<Longrightarrow> keeps I (case v of Inl x \<Rightarrow> f x | Inr x \<Rightarrow> g x)"
  by (simp split: sum.split)

lemma keeps_error: "(\<And>s. keeps I (f s)) \<Longrightarrow> (\<And>e. keeps I (g e)) \<Longrightarrow>
   keeps I (case e of EPanic s \<Rightarrow> f s | EUnique x \<Rightarrow> g (EUnique x) | EForeignKey x \<Rightarrow> g (EForeignKey x) | EIO \<Rightarrow> g EIO
     | ETxAborted \<Rightarrow> g ETxAborted | EDialect \<Rightarrow> g EDialect | EMsg x \<Rightarrow> g (EMsg x) | EWrap x y \<Rightarrow> g (EWrap x y))"
  by (cases e) simp_all

lemma keeps_orErr: "keeps I m \<Longrightarrow> (\<And>a. keeps I (k a)) \<Longrightarrow> keeps I (orErr m f k)"
  unfolding orErr_def
  by (intro keeps_bind keeps_try keeps_sum) (auto split: go_error.split intro: keeps_rules)

lemma keeps_orZero: "keeps I m \<Longrightarrow> (\<And>a. keeps I (k a)) \<Longrightarrow> keeps I (orZero m z k)"
  unfolding orZero_def by (intro keeps_bind keeps_try keeps_sum)

lemma keeps_orMissing: "keeps I m \<Longrightarrow> (\<And>a. keeps I (k a)) \<Longrightarrow> keeps I (orMissing m c s k)"
  unfolding orMissing_def by (intro keeps_orErr keeps_option keeps_return)

lemma keeps_withActor: "(\<And>a. keeps I (k a)) \<Longrightarrow> keeps I (withActor v k)"
  unfolding withActor_def by (intro keeps_option keeps_fail)

lemma keeps_blocked: "keeps I (\<lambda>d. (Blocked, d))"
  by (simp add: keeps_def)

lemmas handler_rules = keeps_let keeps_prod keeps_option keeps_orErr keeps_orZero keeps_orMissing keeps_withActor
  keeps_if keeps_return keeps_fail keeps_query keeps_blocked

lemma body_let: "(\<And>x. body_keeps I (f x)) \<Longrightarrow> body_keeps I (let x = v in f x)"
  by simp

lemma body_prod: "(\<And>x y. body_keeps I (f x y)) \<Longrightarrow> body_keeps I (case v of (x, y) \<Rightarrow> f x y)"
  by (simp split: prod.split)

lemma body_sum: "(\<And>x. body_keeps I (f x)) \<Longrightarrow> (\<And>x. body_keeps I (g x)) \<Longrightarrow> body_keeps I (case v of Inl x \<Rightarrow> f x | Inr x \<Rightarrow> g x)"
  by (simp split: sum.split)

lemma body_try_read: "body_keeps I (tryM (txQuery f))"
  by (auto simp: body_keeps_def tryM_Ok framed_try framed_txQuery split: sum.splits dest: txQuery_OkD txQuery_ErrD)

lemma body_readIgnored: "body_keeps I (readIgnored f z)"
  unfolding readIgnored_def by (intro body_bind body_try_read body_sum body_return)

subsection \<open>Reads keep everything\<close>

lemma keeps_reads:
  "keeps I (GetWorkflow i)" "keeps I (ListWorkflows s l)" "keeps I (GetLatestSnapshot i)" "keeps I (GetSnapshotAtSeq i n)"
  "keeps I (getSnapshotAtSeq i n)" "keeps I (ListArtifacts i)" "keeps I (GetReceipts i)" "keeps I (GetTask i)"
  "keeps I (ListTasks w s)" "keeps I (ListDeadLetterTasks w)" "keeps I (GetGate tok)" "keeps I ListPendingGates"
  "keeps I (ListBranches w)" "keeps I (ListAnchors w)" "keeps I (getActiveTaskForNode w m)"
  unfolding GetWorkflow_def ListWorkflows_def GetLatestSnapshot_def GetSnapshotAtSeq_def getSnapshotAtSeq_def
    ListArtifacts_def GetReceipts_def GetTask_def ListTasks_def ListDeadLetterTasks_def GetGate_def ListPendingGates_def
    ListBranches_def ListAnchors_def getActiveTaskForNode_def
  by (rule keeps_query)+

lemma keeps_hang: "keeps I (hangM v)"
  by (simp add: keeps_def hangM_def split: option.split)

lemma keeps_summary: "keeps I (AnchorSummary w)"
  unfolding AnchorSummary_def GetAnchorGaps_def Let_def
  by (intro keeps_bind keeps_try keeps_reads keeps_hang keeps_return)

subsection \<open>The interface of the statements\<close>

locale side_statements =
  fixes I :: "tables \<Rightarrow> bool"
  assumes insert_task: "stmt_insert_task fk r6 t = Inr (n, t') \<Longrightarrow> I t \<Longrightarrow> I t'"
    and insert_anchor: "stmt_insert_anchor r8 t = Inr (n, t') \<Longrightarrow> I t \<Longrightarrow> I t'"
    and ignore_dead_letter: "stmt_ignore_dead_letter pg r9 t = Inr (n, t') \<Longrightarrow> I t \<Longrightarrow> I t'"
    and update_task: "stmt_update_task R h t = Inr (n, t') \<Longrightarrow> (\<And>x. tk_task_id (h x) = tk_task_id x) \<Longrightarrow> I t \<Longrightarrow> I t'"
begin

lemma side_stmts:
  "body_keeps I (txExec (stmt_insert_task fk r6))"
  "body_keeps I (txExec (stmt_ignore_dead_letter pg r9))"
  "(\<And>x. tk_task_id (h x) = tk_task_id x) \<Longrightarrow> body_keeps I (txExec (stmt_update_task R h))"
  by (blast intro: body_txExec insert_task ignore_dead_letter update_task)+

lemmas side_bodies = body_let body_prod body_option body_bind body_wrap body_return body_fail body_txQuery body_if side_stmts(1,2)

lemma keeps_CreateAnchor: "keeps I (CreateAnchor a)"
proof (rule keeps_env [where h = now and g = "\<lambda>ts. bindM (exec (stmt_insert_anchor (anchor_row_of a ts))) (\<lambda>_. returnM ())"])
  show "CreateAnchor a d = bindM (exec (stmt_insert_anchor (anchor_row_of a (now d)))) (\<lambda>_. returnM ()) d" for d
    by (simp add: CreateAnchor_def)
qed (blast intro: keeps_bind keeps_return keeps_exec insert_anchor)

lemma body_EnqueueTask: "body_keeps I (EnqueueTask x)"
proof (rule body_env [where h = "\<lambda>d. (fk_on d, now d)" and
      g = "\<lambda>(fk, ts). bindM (txExec (stmt_insert_task fk (task_row_of x ts))) (\<lambda>_. returnM ())"])
qed (simp add: EnqueueTask_def, intro side_bodies)

lemma keeps_ClaimNextTask: "keeps I (ClaimNextTask agent)"
proof (rule keeps_env [where h = now and g = "\<lambda>ts. Tx (claim_body agent ts)"])
  show "keeps I (Tx (claim_body agent ts))" for ts
    unfolding claim_body_def getTaskTx_def
    by (intro keeps_Tx side_bodies side_stmts) (simp add: claim_set_def)
qed (simp add: ClaimNextTask_def)

lemma keeps_HeartbeatTask: "keeps I (HeartbeatTask i who)"
proof (rule keeps_env [where h = now and g = "\<lambda>ts. bindM (exec (stmt_update_task
        (\<lambda>r. tk_task_id r = i \<and> tk_status r = ''claimed'' \<and> tk_claimed_by r = Some who)
        (\<lambda>r. r\<lparr>tk_last_heartbeat := Some ts, tk_updated_at := ts\<rparr>))) (\<lambda>_. returnM ())"])
qed (simp add: HeartbeatTask_def, intro keeps_bind keeps_return keeps_exec, erule update_task, simp_all)

lemma keeps_EnqueuePlanTasks: "keeps I (EnqueuePlanTasks w routes)"
proof -
  have "keeps I (enqueue_loop w routes n ns acc)" for n ns acc
    by (induction ns arbitrary: acc)
      (auto intro!: keeps_return keeps_bind keeps_reads keeps_if keeps_try keeps_Tx body_EnqueueTask split: sum.split)
  then show ?thesis unfolding EnqueuePlanTasks_def Let_def
    by (intro keeps_bind keeps_wrap keeps_option keeps_reads keeps_fail keeps_if keeps_return)
qed

lemma keeps_RequeueLoop_tick: "keeps I RequeueLoop_tick"
proof -
  have one: "keeps I (requeue_one pg ts r)" for pg ts r
    unfolding requeue_one_def dead_letter_body_def
    by (intro keeps_if keeps_Tx side_bodies side_stmts keeps_bind keeps_return keeps_exec, simp add: dead_letter_set_def)
      (erule update_task, simp_all add: requeue_set_def)
  have "keeps I (requeue_loop pg ts rs a b)" for pg ts rs a b
    by (induction rs arbitrary: a b) (auto simp: Let_def intro!: keeps_return keeps_bind keeps_try one)
  then have pass: "keeps I (case e of (pg, ts) \<Rightarrow> bindM (query (\<lambda>t. filter (expired ts) (t_tasks t)))
       (\<lambda>rows. if pg then failM EDialect else requeue_loop pg ts rows 0 0))" for e
    by (intro keeps_prod keeps_bind keeps_query keeps_if keeps_fail)
  have "keeps I RequeueExpiredTasksWithDeadLetter"
    by (rule keeps_env [where h = "\<lambda>d. (IsPostgres d, now d)" and g = "\<lambda>e. case e of (pg, ts) \<Rightarrow>
        bindM (query (\<lambda>t. filter (expired ts) (t_tasks t))) (\<lambda>rows. if pg then failM EDialect else requeue_loop pg ts rows 0 0)"])
      (simp_all add: RequeueExpiredTasksWithDeadLetter_def pass)
  then show ?thesis unfolding RequeueLoop_tick_def by (intro keeps_bind keeps_try keeps_return)
qed

lemmas side_ops = keeps_reads keeps_summary keeps_CreateAnchor keeps_ClaimNextTask keeps_HeartbeatTask keeps_EnqueuePlanTasks

lemma keeps_anchorWorkflow: "keeps I (anchorWorkflow H w r)"
proof (rule keeps_env [where h = now and g = "\<lambda>ts. anchorWorkflow_at H ts w r"])
  show "keeps I (anchorWorkflow_at H ts w r)" for ts
    unfolding anchorWorkflow_at_def DefaultBackend_def backend_Anchor.simps outcome.case
    by (intro handler_rules side_ops)
qed (simp add: anchorWorkflow_def)

lemma keeps_executePlan: "keeps I (executePlan H w r)"
  unfolding executePlan_def by (intro handler_rules side_ops)

lemma keeps_task_handlers:
  "keeps I (claimNextTask H r)" "keeps I (heartbeatTask H i r)" "keeps I (completeTask H i r)" "keeps I (failTask H i r)"
  "keeps I (getTask H i r)" "keeps I (listWorkflowTasks H w r)"
  unfolding claimNextTask_def heartbeatTask_def completeTask_def failTask_def getTask_def listWorkflowTasks_def
  by (intro handler_rules side_ops)+

lemma keeps_read_handlers:
  "keeps I (getWorkflow H i r)" "keeps I (listWorkflows H r)" "keeps I (getDashboard H i r)" "keeps I (getReceipts H i r)"
  "keeps I (replayWorkflow H i r)" "keeps I (getInbox H r)" "keeps I (listBranches H w r)" "keeps I (getAnchorLog H w r)"
  "keeps I (verifyAnchor H w r)" "keeps I (handleModelRoutes r)"
  unfolding getWorkflow_def listWorkflows_def getDashboard_def getReceipts_def replayWorkflow_def getInbox_def
    listBranches_def getAnchorLog_def verifyAnchor_def handleModelRoutes_def
  by (intro handler_rules side_ops)+

lemmas side_handlers = keeps_anchorWorkflow keeps_executePlan keeps_task_handlers keeps_read_handlers

end

locale statement_invariant = side_statements +
  assumes insert_workflow: "stmt_insert_workflow r1 t = Inr (n, t') \<Longrightarrow> I t \<Longrightarrow> I t'"
    and insert_receipt: "stmt_insert_receipt fk r2 t = Inr (n, t') \<Longrightarrow> I t \<Longrightarrow> I t'"
    and insert_delta: "stmt_insert_delta fk r3 t = Inr (n, t') \<Longrightarrow> I t \<Longrightarrow> I t'"
    and upsert_snapshot: "insertOrReplaceSnapshot fk r4 t = Inr (n, t') \<Longrightarrow> I t \<Longrightarrow> I t'"
    and insert_artifact: "insertOrIgnoreArtifact fk r5 t = Inr (n, t') \<Longrightarrow> I t \<Longrightarrow> I t'"
    and insert_branch: "stmt_insert_branch r7 t = Inr (n, t') \<Longrightarrow> I t \<Longrightarrow> I t'"
    and update_workflow: "stmt_update_workflow P f t = Inr (n, t') \<Longrightarrow> (\<And>x. wf_id (f x) = wf_id x) \<Longrightarrow> I t \<Longrightarrow> I t'"
    and update_gate: "stmt_update_gate Q g t = Inr (n, t') \<Longrightarrow> (\<And>x. gt_token (g x) = gt_token x) \<Longrightarrow> I t \<Longrightarrow> I t'"
begin

lemma body_stmts:
  "body_keeps I (txExec (stmt_insert_workflow r1))"
  "body_keeps I (txExec (stmt_insert_receipt fk r2))"
  "body_keeps I (txExec (stmt_insert_delta fk r3))"
  "body_keeps I (txExec (insertOrReplaceSnapshot fk r4))"
  "body_keeps I (txExec (insertOrIgnoreArtifact fk r5))"
  "body_keeps I (txExec (insertOrIgnoreArtifactNoRef fk dg w aj ts))"
  "body_keeps I (txExec (stmt_insert_branch r7))"
  unfolding insertOrIgnoreArtifactNoRef_def
  by (blast intro: body_txExec insert_workflow insert_receipt insert_delta upsert_snapshot insert_artifact insert_branch)+

lemma body_updates:
  "(\<And>x. wf_id (f x) = wf_id x) \<Longrightarrow> body_keeps I (txExec (stmt_update_workflow P f))"
  "(\<And>x. gt_token (g x) = gt_token x) \<Longrightarrow> body_keeps I (txExec (stmt_update_gate Q g))"
  by (blast intro: body_txExec update_workflow update_gate)+

lemmas bodies = body_let body_prod body_readIgnored body_option body_stmts body_bind body_wrap body_return body_fail
  body_txQuery body_if

subsubsection \<open>Store operations\<close>

lemma keeps_CreateWorkflow: "keeps I (CreateWorkflow x)"
proof (rule keeps_env [where h = now and g = "\<lambda>ts. bindM (wrapM ''create workflow''
    (exec (stmt_insert_workflow (workflow_row_of x ts)))) (\<lambda>_. returnM ())"])
  show "CreateWorkflow x d = bindM (wrapM ''create workflow'' (exec (stmt_insert_workflow (workflow_row_of x (now d)))))
      (\<lambda>_. returnM ()) d" for d by (simp add: CreateWorkflow_def)
qed (blast intro: keeps_rules keeps_exec insert_workflow)

lemma body_SaveSnapshot: "body_keeps I (SaveSnapshot s)"
proof (rule body_env [where h = "\<lambda>d. (fk_on d, now d)" and g = "\<lambda>(fk, ts). bindM (txExec (insertOrReplaceSnapshot fk
       \<lparr>sn_workflow_id = S_WorkflowID s, sn_seq = S_Seq s, sn_state_json = S_StateJSON s,
        sn_state_hash = S_StateHash s, sn_created_at = ts\<rparr>)) (\<lambda>_. returnM ())"])
  show "body_keeps I (case e of (fk, ts) \<Rightarrow> bindM (txExec (insertOrReplaceSnapshot fk
       \<lparr>sn_workflow_id = S_WorkflowID s, sn_seq = S_Seq s, sn_state_json = S_StateJSON s,
        sn_state_hash = S_StateHash s, sn_created_at = ts\<rparr>)) (\<lambda>_. returnM ()))" for e
    by (intro bodies)
qed (simp add: SaveSnapshot_def)

lemma keeps_CommitTransition: "keeps I (CommitTransition C p)"
proof (rule keeps_env [where h = "\<lambda>d. (fk_on d, now d)" and g = "\<lambda>(fk, ts). Tx (commit_transition_body C p fk ts)"])
  show "keeps I (case e of (fk, ts) \<Rightarrow> Tx (commit_transition_body C p fk ts))" for e
    unfolding commit_transition_body_def
    by (intro keeps_prod keeps_Tx bodies body_updates) (simp add: advance_workflow_def)
qed (simp add: CommitTransition_def commitTransitionInner_def)

lemma keeps_CommitArtifact: "keeps I (CommitArtifact C p)"
proof (rule keeps_env [where h = "\<lambda>d. (fk_on d, now d)" and g = "\<lambda>(fk, ts). Tx (commit_artifact_body C p fk ts)"])
  show "keeps I (case e of (fk, ts) \<Rightarrow> Tx (commit_artifact_body C p fk ts))" for e
    unfolding commit_artifact_body_def
    by (intro keeps_prod keeps_Tx bodies body_updates) (simp add: advance_workflow_def)
qed (simp add: CommitArtifact_def)

lemma keeps_CommitGateResolution: "keeps I (CommitGateResolution C w tok rs who res se)"
proof (rule keeps_env [where h = "\<lambda>d. (fk_on d, now d)" and g = "\<lambda>(fk, ts). Tx (commit_gate_body C w tok rs who res fk ts)"])
  show "keeps I (case e of (fk, ts) \<Rightarrow> Tx (commit_gate_body C w tok rs who res fk ts))" for e
    unfolding commit_gate_body_def
    by (intro keeps_prod keeps_Tx bodies body_updates)
      (simp_all add: advance_workflow_def block_workflow_def resolve_gate_row_def)
qed (simp add: CommitGateResolution_def)

lemma keeps_CommitFork: "keeps I (CommitFork p j s)"
proof -
  have "body_keeps I (CreateBranch b)" for b
  proof (rule body_env [where h = now and g = "\<lambda>ts. bindM (txExec (stmt_insert_branch (branch_row_of b ts))) (\<lambda>_. returnM ())"])
  qed (simp add: CreateBranch_def, intro bodies)
  then have "body_keeps I (\<lambda>d. (bindM (wrapM ''create forked workflow'' (txExec (stmt_insert_workflow (forked_workflow p pw s ts)))) (\<lambda>_.
     bindM (wrapM ''save fork snapshot'' (SaveSnapshot (fork_snapshot p js s))) (\<lambda>_.
     bindM (wrapM ''create branch record'' (CreateBranch (fork_branch p h))) (\<lambda>_. returnM ())))) d)" for pw js h ts
    by (intro bodies body_SaveSnapshot)
  then have "body_keeps I (fork_body p pw h js s)" for pw h js
    by (intro body_env [where h = now and m = "fork_body p pw h js s" and g = "\<lambda>ts d. (bindM (wrapM ''create forked workflow''
         (txExec (stmt_insert_workflow (forked_workflow p pw s ts)))) (\<lambda>_.
       bindM (wrapM ''save fork snapshot'' (SaveSnapshot (fork_snapshot p js s))) (\<lambda>_.
       bindM (wrapM ''create branch record'' (CreateBranch (fork_branch p h))) (\<lambda>_. returnM ())))) d"]) (simp add: fork_body_def)
  then show ?thesis unfolding CommitFork_def
    by (intro keeps_bind keeps_wrap keeps_option keeps_reads keeps_fail keeps_Tx keeps_return)
qed

lemma keeps_MarkPlanNodeDone: "keeps I (MarkPlanNodeDone w n)"
proof -
  have "keeps I (mark_and_save w n s)" for s
    unfolding mark_and_save_def
    by (auto intro!: keeps_fail keeps_Tx body_SaveSnapshot split: option.split json.split)
  then show ?thesis unfolding MarkPlanNodeDone_def
    by (intro keeps_bind keeps_wrap keeps_option keeps_reads keeps_fail)
qed

subsubsection \<open>Handlers\<close>

lemmas store_ops = side_ops keeps_CreateWorkflow keeps_CommitTransition keeps_CommitArtifact
  keeps_CommitGateResolution keeps_CommitFork keeps_MarkPlanNodeDone

lemma keeps_createWorkflow: "keeps I (createWorkflow H r)"
proof (rule keeps_env [where h = now and g = "\<lambda>ts. createWorkflow_at H ts r"])
  show "keeps I (createWorkflow_at H ts r)" for ts
    unfolding createWorkflow_at_def by (intro handler_rules store_ops keeps_Tx body_SaveSnapshot)
qed (simp add: createWorkflow_def)

lemma keeps_editState: "keeps I (editState H i r)"
  unfolding editState_def by (intro handler_rules store_ops)

lemma keeps_commitArtifact: "keeps I (commitArtifact H i r)"
  unfolding commitArtifact_def by (intro handler_rules store_ops)

lemma keeps_resumeGate: "keeps I (resumeGate H w tok r)"
  unfolding resumeGate_def by (intro handler_rules store_ops)

lemma keeps_forkWorkflow: "keeps I (forkWorkflow H w r)"
  unfolding forkWorkflow_def by (intro handler_rules store_ops)

lemma keeps_markNodeDone: "keeps I (markNodeDone H w n r)"
  unfolding markNodeDone_def by (intro handler_rules store_ops)

lemmas handlers = side_handlers keeps_createWorkflow keeps_editState keeps_commitArtifact keeps_resumeGate keeps_forkWorkflow
  keeps_markNodeDone

lemma keeps_handleWorkflow: "keeps I (handleWorkflow H r)"
proof -
  have "keeps I (workflow_default H i sub r)" for i sub
    unfolding workflow_default_def
    by (intro keeps_if) (auto intro: handlers keeps_return split: list.split)
  then show ?thesis unfolding handleWorkflow_def
    by (intro keeps_prod keeps_if keeps_return keeps_bind handlers)
qed

lemma keeps_Register: "(\<And>r. keeps I (other r)) \<Longrightarrow> keeps I (Register H other r)"
  unfolding Register_def handleWorkflows_def handleTaskNext_def handleTask_def handleInbox_def handleDeadLetter_def
  by (intro keeps_let keeps_if keeps_prod keeps_handleWorkflow handlers keeps_return keeps_orErr store_ops)

end

subsection \<open>The two properties\<close>

text \<open>The schema's keys.\<close>

lemma keys_ignore_dead_letter: "stmt_ignore_dead_letter pg r t = Inr (n, t') \<Longrightarrow> keys_ok t \<Longrightarrow> keys_ok t'"
  by (auto simp: stmt_ignore_dead_letter_def keys_ok_def insert_or_ignore_def key_used_def split: if_splits)

interpretation keyed: statement_invariant keys_ok
  by unfold_locales (blast intro: keys_stmt keys_ignore_dead_letter)+

text \<open>Receipts, deltas, artifacts, branches, anchors, gates' tokens and workflow ids are only ever added to.\<close>

definition audit_le :: "tables \<Rightarrow> tables \<Rightarrow> bool" where
  "audit_le t0 t \<longleftrightarrow> prefix (t_receipts t0) (t_receipts t) \<and> prefix (t_deltas t0) (t_deltas t) \<and>
     prefix (t_artifacts t0) (t_artifacts t) \<and> prefix (t_branches t0) (t_branches t) \<and>
     prefix (t_anchors t0) (t_anchors t) \<and> prefix (map wf_id (t_workflows t0)) (map wf_id (t_workflows t)) \<and>
     prefix (map gt_token (t_gates t0)) (map gt_token (t_gates t)) \<and>
     prefix (map tk_task_id (t_tasks t0)) (map tk_task_id (t_tasks t))"

lemma audit_le_refl [simp]: "audit_le t t"
  by (simp add: audit_le_def)

interpretation audit: statement_invariant "audit_le t0" for t0
  by unfold_locales
    (auto simp: audit_le_def stmt_insert_workflow_def stmt_insert_receipt_def stmt_insert_delta_def insertOrReplaceSnapshot_def
      insertOrIgnoreArtifact_def stmt_insert_task_def stmt_insert_branch_def stmt_insert_anchor_def stmt_ignore_dead_letter_def
      stmt_update_workflow_def stmt_update_gate_def stmt_update_task_def insert_row_def map_update_where
      split: if_splits option.splits)

end
