(* ===== verification/Endpoints.thy ===== *)
theory Endpoints
  imports Service
begin

section \<open>What single endpoints promise\<close>

text \<open>
  The composition of a handler with the store operation it calls: an edit of the state is
  answered with success exactly when its transition was committed, and the task endpoints
  a worker uses do not do what they answer.
\<close>

definition says_ok :: "response \<Rightarrow> bool" where
  "says_ok resp \<longleftrightarrow> (case resp of
      (code, JObj m) # _ \<Rightarrow> code = 200 \<and> map_of m ''ok'' = Some (JBool True)
    | _ \<Rightarrow> False)"

lemma map_of_go_map: "map_of (go_map kvs) k = map_of (rev kvs) k"
proof -
  have "map_of (fold (\<lambda>(k, v) m. map_put k v m) kvs m) = map_of (rev kvs @ m)" for m
    by (induction kvs arbitrary: m) (auto simp: map_of_map_put fun_eq_iff map_add_def split: option.splits)
  from this [of "[]"] show ?thesis by (simp add: go_map_def)
qed

lemma says_ok_simps [simp]:
  "says_ok (api_writeErr c s) \<longleftrightarrow> False" "says_ok (edit_reply res) \<longleftrightarrow> fbool res ''ok''" "says_ok not_allowed \<longleftrightarrow> False"
  "says_ok (db500 H e) \<longleftrightarrow> False"
  by (simp_all add: says_ok_def api_writeErr_def writeJSON_def edit_reply_def not_allowed_def db500_def map_of_go_map)

lemma orErr_cases:
  assumes "orErr m f k d = (Ok resp, d')"
  obtains (err) e where "m d = (Err e, d')" "resp = f e"
  | (ok) a d1 where "m d = (Ok a, d1)" "k a d1 = (Ok resp, d')"
proof -
  obtain v d1 where m: "m d = (v, d1)" by (cases "m d")
  show thesis
  proof (cases v)
    case (Ok a)
    then show thesis using assms m by (intro ok [of a d1]) (simp_all add: orErr_def bindM_def tryM_def)
  next
    case (Err e)
    then have "d1 = d' \<and> resp = f e"
      using assms m by (cases e) (simp_all add: orErr_def bindM_def tryM_def returnM_def failM_def)
    then show thesis using m Err by (intro err [of e]) simp_all
  qed (use assms m in \<open>simp add: orErr_def bindM_def tryM_def\<close>)
qed

lemma orErr_Ok: "m d = (Ok a, d1) \<Longrightarrow> orErr m f k d = k a d1"
  by (simp add: orErr_def bindM_def tryM_def)

lemma orMissing_Ok: "m d = (Ok (Some a), d1) \<Longrightarrow> orMissing m c s k d = k a d1"
  by (simp add: orMissing_def orErr_Ok)

lemma orMissing_cases:
  assumes "orMissing m c s k d = (Ok resp, d')"
  obtains (err) v where "m d = (v, d')" "resp = api_writeErr c s"
  | (ok) a d1 where "m d = (Ok (Some a), d1)" "k a d1 = (Ok resp, d')"
  using assms unfolding orMissing_def
proof (cases rule: orErr_cases)
  case (err e)
  then show thesis by (intro that(1))
next
  case (ok v d1)
  then show thesis by (cases v) (auto simp: returnM_def intro: that)
qed

subsection \<open>Concrete inputs\<close>

definition sample_answer :: "(string \<times> json) list" where
  "sample_answer = [(''ok'', JBool True), (''receipt_digest'', JStr ''r2''), (''receipt_json'', JStr ''{}''), (''seq'', JInt 2),
     (''state_hash'', JStr ''h2''), (''state_json'', JStr ''{}'')]"

definition sample_H :: Handlers where
  "sample_H = \<lparr>h_fardrun = (\<lambda>p i. Inr (marshal (JObj [(''result'', JObj sample_answer)]))), h_uuid = ''u1'',
     h_crypto = plain_crypto, h_snapshotEvery = 10, h_dberr = (\<lambda>e. ''db''), h_trunc = (\<lambda>s. 0)\<rparr>"

definition sample_request :: "string \<Rightarrow> string \<Rightarrow> string \<Rightarrow> request" where
  "sample_request m p b = \<lparr>rq_method = m, rq_path = p, rq_query = (\<lambda>k. []), rq_authorization = ''Bearer key'', rq_body = b,
     rq_actor = None\<rparr>"

lemma sample_answer_decodes:
  "RunAndUnmarshal sample_H prog input (result_fields @ extra) =
     (case decode_fields (result_fields @ extra) sample_answer of (r, ok) \<Rightarrow> (r, if ok then None else Some (EMsg ''json: cannot unmarshal'')))"
proof -
  have "unmarshal (marshal (JObj [(''result'', JObj sample_answer)])) = Some (JObj [(''result'', JObj sample_answer)])"
    by (rule unmarshal_marshal) code_simp
  then show ?thesis
    by (simp add: RunAndUnmarshal_def bridge_Run_def unwrap_result_def member_def sample_H_def decode_struct_def del: marshal.simps)
qed

subsection \<open>Properties\<close>

text \<open>
  C9: an edit of the state is answered truthfully. If the response says ok, the transition
  the bridge computed from the newest snapshot was committed for this workflow in the name of
  the request's actor, with everything \<open>CommitTransition\<close> promises; if it says anything
  else, the database is unchanged.
\<close>
theorem editState_truthful:
  assumes "editState H i r d = (Ok resp, d')"
  shows "if says_ok resp
    then \<exists>a patches s res. rq_actor r = Some a \<and> dec_patches r = Some patches \<and>
      latest_snapshot_row (\<lambda>x. sn_workflow_id x = i) (pool_tables d) = Some s \<and>
      edit_run H (Some a) patches (scanSnapshot s) = (res, None) \<and>
      commit_guard (edit_params H i a patches res) (fk_on d) (pool_tables d) \<and>
      pool_tables d' = commit_spec (h_crypto H) (edit_params H i a patches res) (now d) (pool_tables d)
    else pool_tables d' = pool_tables d"
proof (cases "rq_method r = ''POST'' \<and> dec_patches r \<noteq> None")
  case False
  then show ?thesis using assms by (auto simp: editState_def returnM_def Let_def split: if_splits)
next
  case True
  then obtain patches where p: "dec_patches r = Some patches" by blast
  let ?a = "ActorFromContext r"
  from True p assms have "orMissing (GetLatestSnapshot i) 404 ''workflow state not found'' (\<lambda>snap.
      case edit_run H ?a patches snap of
        (res, None) \<Rightarrow> if \<not> fbool res ''ok'' then returnM (edit_reply res)
          else withActor ?a (\<lambda>a. orErr (CommitTransition (h_crypto H) (edit_params H i a patches res))
            (\<lambda>e. api_writeErr 500 (''commit failed: '' @ errText H e)) (\<lambda>_. returnM (edit_reply res)))
      | (res, Some e) \<Rightarrow> returnM (db500 H e)) d = (Ok resp, d')" by (simp add: editState_def Let_def)
  then show ?thesis
  proof (cases rule: orMissing_cases)
    case (err v)
    then show ?thesis using query_same by (simp add: GetLatestSnapshot_def)
  next
    case (ok snap d1)
    have fr: "frame d1 = frame d" using framedD [OF framed_query] ok(1) by (simp add: GetLatestSnapshot_def)
    have t1: "pool_tables d1 = pool_tables d" using query_same ok(1) by (simp add: GetLatestSnapshot_def)
    obtain s where s: "latest_snapshot_row (\<lambda>x. sn_workflow_id x = i) (pool_tables d) = Some s" "snap = scanSnapshot s"
      using query_OkD [OF ok(1) [unfolded GetLatestSnapshot_def]]
      by (cases "latest_snapshot_row (\<lambda>x. sn_workflow_id x = i) (pool_tables d)") auto
    obtain res e where b: "edit_run H ?a patches snap = (res, e)" by (cases "edit_run H ?a patches snap")
    show ?thesis
    proof (cases "e = None \<and> fbool res ''ok''")
      case False
      then show ?thesis using ok(2) b t1 by (auto simp: returnM_def split: if_splits option.splits)
    next
      case True
      with ok(2) b obtain a where a: "rq_actor r = Some a"
        and c: "orErr (CommitTransition (h_crypto H) (edit_params H i a patches res))
          (\<lambda>e. api_writeErr 500 (''commit failed: '' @ errText H e)) (\<lambda>_. returnM (edit_reply res)) d1 = (Ok resp, d')"
        by (auto simp: withActor_def ActorFromContext_def failM_def split: option.splits)
      from c show ?thesis
      proof (cases rule: orErr_cases)
        case (err e)
        then show ?thesis using commit_transition_step [OF err(1)] t1 by simp
      next
        case (ok u d2)
        have "commit_guard (edit_params H i a patches res) (fk_on d) (pool_tables d)"
          "pool_tables d' = commit_spec (h_crypto H) (edit_params H i a patches res) (now d) (pool_tables d)" "says_ok resp"
          using commit_transition_step [OF ok(1)] ok(2) t1 fr True by (auto simp: returnM_def frame_def now_def)
        then show ?thesis using a p s b True by (auto simp: ActorFromContext_def)
      qed
    qed
  qed
qed

definition sample_edit :: request where
  "sample_edit = (sample_request ''POST'' ''/workflows/w/state/edit'' ''{}'')\<lparr>rq_actor := Some
     \<lparr>ar_ActorID = ''ann'', ar_Roles = None, ar_AllowedAgents = None, ar_AllowedWorkflows = None\<rparr>\<rparr>"

lemma sample_decoded:
  "decode_fields (result_fields @ [(''policy_ok'', FBool), (''violations'', FAny)]) sample_answer =
     ([(''ok'', JBool True), (''state_json'', JStr ''{}''), (''state_hash'', JStr ''h2''), (''receipt_json'', JStr ''{}''),
       (''receipt_digest'', JStr ''r2''), (''seq'', JInt 2)], True)"
  by code_simp

lemma sample_edit_ok:
  "\<exists>resp d'. editState sample_H ''w'' sample_edit (handle_of ''sqlite3'' sample_tables []) = (Ok resp, d') \<and> says_ok resp"
proof -
  let ?a = "\<lparr>ar_ActorID = ''ann'', ar_Roles = None, ar_AllowedAgents = None, ar_AllowedWorkflows = None\<rparr>"
  let ?res = "[(''ok'', JBool True), (''state_json'', JStr ''{}''), (''state_hash'', JStr ''h2''), (''receipt_json'', JStr ''{}''),
       (''receipt_digest'', JStr ''r2''), (''seq'', JInt 2)]"
  let ?d = "handle_of ''sqlite3'' sample_tables []" and ?p = "edit_params sample_H ''w'' ?a None ?res"
  have r: "rq_method sample_edit = ''POST''" "ActorFromContext sample_edit = Some ?a"
    by (simp_all add: sample_edit_def sample_request_def ActorFromContext_def)
  have "unmarshal ''{}'' = Some (JObj [])" by code_simp
  then have p: "dec_patches sample_edit = Some None" by (simp add: dec_patches_def sample_edit_def sample_request_def)
  have b: "edit_run sample_H (Some ?a) None s = (?res, None)" for s
    unfolding edit_run_def sample_answer_decodes sample_decoded by simp
  have "\<exists>s. latest_snapshot_row (\<lambda>x. sn_workflow_id x = ''w'') sample_tables = Some s"
    by (simp add: latest_snapshot_row_def sample_tables_def new_snapshot_def)
  then obtain s where s: "latest_snapshot_row (\<lambda>x. sn_workflow_id x = ''w'') sample_tables = Some s" by blast
  have "commit_guard ?p (fk_on ?d) (tabs ?d)"
    by (simp add: commit_guard_def transition_ok_def edit_params_def result_of_def fstr_def fint_def sample_tables_def
        key_used_def handle_of_def sample_workflow_def new_receipt_def new_delta_def sample_result_def fk_workflow_def)
  from commit_transition_live [OF quiet_handle this, of plain_crypto]
  obtain d' where c: "CommitTransition plain_crypto ?p ?d = (Ok (), d')" by blast
  have q: "GetLatestSnapshot ''w'' ?d = (Ok (Some (scanSnapshot s)), ?d)"
    using quiet_handle by (simp add: GetLatestSnapshot_def s)
  have "h_crypto sample_H = plain_crypto" by (simp add: sample_H_def)
  then have "editState sample_H ''w'' sample_edit ?d = (Ok (edit_reply ?res), d')"
    by (simp add: editState_def r p b orMissing_Ok [where m = "GetLatestSnapshot ''w''", OF q] withActor_def orErr_Ok [where m = "CommitTransition plain_crypto ?p", OF c] returnM_def fbool_def)
  then show ?thesis by (simp add: fbool_def)
qed

theorem editState_truthful_witness:
  "\<exists>resp d'. editState sample_H ''w'' sample_edit (handle_of ''sqlite3'' sample_tables []) = (Ok resp, d') \<and>
     length (t_receipts (pool_tables d')) = 2"
proof -
  obtain resp d' where e: "editState sample_H ''w'' sample_edit (handle_of ''sqlite3'' sample_tables []) = (Ok resp, d')"
    and k: "says_ok resp" using sample_edit_ok by blast
  from editState_truthful [OF e] k have "length (t_receipts (pool_tables d')) = 2"
    by (auto simp: commit_spec_def transition_tables_def sample_tables_def)
  with e show ?thesis by blast
qed

text \<open>
  The heartbeats of a worker are lost. A claim records the agent named in the request,
  a heartbeat looks for the actor of the API key; when the two differ, the heartbeat of the
  task just claimed changes nothing, and is answered with ok.
\<close>
theorem heartbeat_lost:
  assumes "quiet d" and "keys_ok (tabs d)" and "ClaimNextTask agent d = (Ok (Some task), d1)" and "quiet d1"
    and "rq_method r = ''POST''" and "rq_actor r = Some a" and "ar_ActorID a \<noteq> agent"
  shows "\<exists>resp. heartbeatTask H (T_TaskID task) r d1 = (Ok resp, d1) \<and> says_ok resp"
proof -
  have "claim_effect agent (now d) (tabs d) (Some task) (tabs d1)"
    using ClaimNextTask_step [OF _ assms(3)] assms(1,2,4) by simp
  then obtain x where xs: "x \<in> set (t_tasks (tabs d))" "task = scanTask (claim_set agent (now d) x)"
    and ts: "tabs d1 = (tabs d)\<lparr>t_tasks := map (\<lambda>y. if y = x then claim_set agent (now d) x else y) (t_tasks (tabs d))\<rparr>"
    unfolding claim_effect_def option.case by blast
  have x: "x \<in> set (t_tasks (tabs d))" "T_TaskID task = tk_task_id x"
    and t1: "t_tasks (tabs d1) = map (\<lambda>y. if y = x then claim_set agent (now d) x else y) (t_tasks (tabs d))"
    using xs by (simp_all add: scanTask_def ts)
  have "tk_claimed_by y \<noteq> Some (ar_ActorID a)" if "y \<in> set (t_tasks (tabs d1))" "tk_task_id y = T_TaskID task" for y
    using that task_key_eq [OF assms(2) _ x(1)] assms(7) x(2) by (auto simp: t1 claim_set_def split: if_splits)
  then have "update_where (\<lambda>y. tk_task_id y = T_TaskID task \<and> tk_status y = ''claimed'' \<and> tk_claimed_by y = Some (ar_ActorID a)) f
      (t_tasks (tabs d1)) = t_tasks (tabs d1)" for f by (intro update_where_none) blast
  then have "HeartbeatTask (T_TaskID task) (ar_ActorID a) d1 = (Ok (), d1)"
    using assms(4) by (simp add: HeartbeatTask_def stmt_update_task_def returnM_def)
  then show ?thesis using assms(5,6)
    by (simp add: heartbeatTask_def ActorFromContext_def orErr_def bindM_def tryM_def returnM_def says_ok_def writeJSON_def
        map_of_go_map)
qed

theorem heartbeat_lost_witness:
  "\<exists>task d1 resp. ClaimNextTask ''a'' (handle_of ''sqlite3'' sample_queue []) = (Ok (Some task), d1) \<and>
     heartbeatTask sample_H (T_TaskID task) sample_edit d1 = (Ok resp, d1) \<and> says_ok resp"
proof -
  let ?d = "handle_of ''sqlite3'' sample_queue []"
  have k: "keys_ok (tabs ?d)" unfolding tabs_handle by code_simp
  have "case ClaimNextTask ''a'' ?d of (Ok (Some task), d1) \<Rightarrow> faults d1 = [] \<and> Option.is_none (saved d1) \<and> \<not> tx_aborted d1
      | _ \<Rightarrow> False" by code_simp
  then obtain task d1 where c: "ClaimNextTask ''a'' ?d = (Ok (Some task), d1)" and q: "quiet d1"
    by (auto simp: quiet_def Option.is_none_def split: prod.splits outcome.splits option.splits)
  have "\<exists>resp. heartbeatTask sample_H (T_TaskID task) sample_edit d1 = (Ok resp, d1) \<and> says_ok resp"
    by (rule heartbeat_lost [OF quiet_handle k c q, where a = "\<lparr>ar_ActorID = ''ann'', ar_Roles = None,
          ar_AllowedAgents = None, ar_AllowedWorkflows = None\<rparr>"]) (simp_all add: sample_edit_def sample_request_def)
  with c show ?thesis by blast
qed

text \<open>\<open>completeTask\<close> and \<open>failTask\<close> answer, and store nothing.\<close>

lemma keeps_everything: "(\<And>I. keeps I m) \<Longrightarrow> pool_tables (snd (m d)) = pool_tables d"
  using keepsD [of "\<lambda>t. t = pool_tables d" m d] by (metis prod.collapse)

lemma task_reports_not_stored:
  "pool_tables (snd (completeTask H i r d)) = pool_tables d" "pool_tables (snd (failTask H i r d)) = pool_tables d"
  unfolding completeTask_def failTask_def by (rule keeps_everything, intro handler_rules keeps_reads)+

end
