(* ===== verification/Daemon.thy ===== *)
theory Daemon
  imports Endpoints
begin

section \<open>The daemon: cmd/acpd/main.go\<close>

text \<open>
  The handler stack (body limit, rate limit, authentication, mux) and the daemon as a step
  relation: requests, ticks of the requeue loop and of the limiter's clean-up, and moves of
  the clock, in any order. Times of the limiter are nanoseconds; its refill, a product of
  floating point numbers cut to an integer, is the exact product here. The tracing
  middleware passes its requests on unchanged and is left out. Shown: what no run of the
  daemon can do to the audit tables, that requests other than POST and the claim of a task
  change nothing, and how many requests of a client the limiter lets through.
\<close>

subsection \<open>Settings\<close>

definition envOr :: "(string \<Rightarrow> string) \<Rightarrow> string \<Rightarrow> string \<Rightarrow> string" where
  "envOr env key def = (if env key \<noteq> [] then env key else def)"

definition Atoi :: "string \<Rightarrow> int option" where
  "Atoi s =
     (let neg = (HasPrefix s ''-''); ds = (if neg \<or> HasPrefix s ''+'' then tl s else s);
          v = (if neg then - int (read_nat 0 ds) else int (read_nat 0 ds)) in
      if ds \<noteq> [] \<and> list_all is_digit ds \<and> int64_range v then Some v else None)"

definition envIntOr :: "(string \<Rightarrow> string) \<Rightarrow> string \<Rightarrow> int \<Rightarrow> int" where
  "envIntOr env key def =
     (if env key \<noteq> [] then (case Atoi (env key) of None \<Rightarrow> def | Some n \<Rightarrow> n) else def)"

lemma Atoi_show_int: "int64_range i \<Longrightarrow> Atoi (show_int i) = Some i"
proof -
  assume r: "int64_range i"
  have d: "\<not> HasPrefix (show_nat n) ''-''" "\<not> HasPrefix (show_nat n) ''+''" for n
    using hd_show_nat_digit [of n] by (auto simp: HasPrefix_iff is_digit_def)
  show ?thesis
    using r d show_nat_digits read_show_nat
    by (cases "i < 0") (auto simp: Atoi_def show_int_def Let_def HasPrefix_def)
qed

definition Version :: string where
  "Version = ''1.0.0''"

definition maxRequestBodyBytes :: int where
  "maxRequestBodyBytes = 4194304"

text \<open>The branch of \<^verbatim>\<open>main\<close> under \<^verbatim>\<open>--seed\<close>: the exit code and the handle left behind.\<close>

definition seed_admin :: "crypto \<Rightarrow> string \<Rightarrow> string \<Rightarrow> int dbm" where
  "seed_admin C seedActorID seedKey =
     (if seedKey = [] then returnM 1
      else bindM (tryM (CreateActor C \<lparr>AC_ActorID = seedActorID, AC_APIKeyHash = [],
               AC_Roles = Some [''operator'', ''manager'', ''admin''], AC_AllowedAgents = None,
               AC_AllowedWorkflows = None, AC_CreatedAt = None, AC_UpdatedAt = None\<rparr> seedKey))
             (\<lambda>_. returnM 0))"

subsection \<open>The mux\<close>

definition health :: "string \<Rightarrow> handler" where
  "health fardrunBin r = returnM (writeJSON 200 [(''ok'', JBool True), (''version'', JStr Version), (''db'', JStr ''ok''),
     (''fardrun'', JStr fardrunBin)])"

definition ready :: "Handlers \<Rightarrow> handler" where
  "ready H r = orErr (query (\<lambda>_. ())) (\<lambda>e. writeJSON 503 [(''ok'', JBool False), (''db'', JStr (errText H e))]) (\<lambda>_.
     returnM (writeJSON 200 [(''ok'', JBool True), (''version'', JStr Version), (''db'', JStr ''ok'')]))"

definition mux :: "Handlers \<Rightarrow> string \<Rightarrow> handler" where
  "mux H fardrunBin = Register H (\<lambda>r.
     if rq_path r = ''/health'' then health fardrunBin r
     else if rq_path r = ''/ready'' then ready H r
     else if rq_path r = ''/tasks'' then returnM [(301, JStr ''/tasks/'')]
     else returnM [(404, JStr ''404 page not found'')])"

definition app :: "Handlers \<Rightarrow> string \<Rightarrow> handler" where
  "app H fardrunBin = Middleware (h_crypto H) (mux H fardrunBin)"

subsection \<open>Body size\<close>

text \<open>A value that does not fit in the limit cannot be read: the handler finds no JSON value.\<close>

definition MaxBytesReader :: "int \<Rightarrow> request \<Rightarrow> request" where
  "MaxBytesReader n r = (if int (length (rq_body r)) > n then r\<lparr>rq_body := []\<rparr> else r)"

definition bodySizeMiddleware :: "(request \<Rightarrow> 'a) \<Rightarrow> (response \<Rightarrow> 'a) \<Rightarrow> int \<Rightarrow> int \<Rightarrow> request \<Rightarrow> 'a" where
  "bodySizeMiddleware nxt write maxBytes contentLength r =
     (if contentLength > maxBytes then write [(413, JStr ''request body too large'')]
      else nxt (MaxBytesReader maxBytes r))"

subsection \<open>Rate limit\<close>

record bucket =
  b_tokens :: int
  b_lastFill :: int

type_synonym buckets = "string \<Rightarrow> bucket option"

abbreviation second :: int where
  "second \<equiv> 1000000000"

definition refill :: "int \<Rightarrow> int \<Rightarrow> bucket \<Rightarrow> int" where
  "refill rps t b =
     (let tokens = wrap64 (b_tokens b + (t - b_lastFill b) * rps div second) in if tokens > rps then rps else tokens)"

definition take_token :: "int \<Rightarrow> string \<Rightarrow> int \<Rightarrow> buckets \<Rightarrow> bool \<times> buckets" where
  "take_token rps key t bs =
     (let b = (case bs key of None \<Rightarrow> \<lparr>b_tokens = rps, b_lastFill = t\<rparr> | Some b \<Rightarrow> b);
          tokens = refill rps t b;
          allow = tokens > 0 in
      (allow, bs(key \<mapsto> \<lparr>b_tokens = (if allow then tokens - 1 else tokens), b_lastFill = t\<rparr>)))"

definition cleanup :: "int \<Rightarrow> buckets \<Rightarrow> buckets" where
  "cleanup t bs key = (case bs key of None \<Rightarrow> None | Some b \<Rightarrow> if b_lastFill b < t - 60 * second then None else Some b)"

definition passes :: "handler \<Rightarrow> request \<Rightarrow> buckets \<times> dbs \<Rightarrow> response outcome \<times> (buckets \<times> dbs)" where
  "passes nxt r st = (case nxt r (snd st) of (res, d) \<Rightarrow> (res, (fst st, d)))"

definition rateLimitMiddleware ::
  "handler \<Rightarrow> int \<Rightarrow> string \<Rightarrow> int \<Rightarrow> request \<Rightarrow> buckets \<times> dbs \<Rightarrow> response outcome \<times> (buckets \<times> dbs)" where
  "rateLimitMiddleware nxt rps remoteAddr t r st =
     (if rq_path r = ''/health'' \<or> rq_path r = ''/ready'' then passes nxt r st
      else case take_token rps remoteAddr t (fst st) of (allow, bs) \<Rightarrow>
        if allow then passes nxt r (bs, snd st)
        else (Ok [(429, JStr ''rate limit exceeded'')], (bs, snd st)))"

text \<open>The whole stack of \<^verbatim>\<open>main\<close> on one request from a client at a time.\<close>

definition serve ::
  "Handlers \<Rightarrow> string \<Rightarrow> int \<Rightarrow> string \<Rightarrow> int \<Rightarrow> int \<Rightarrow> request \<Rightarrow> buckets \<times> dbs \<Rightarrow> response outcome \<times> (buckets \<times> dbs)" where
  "serve H fardrunBin rateLimit remoteAddr contentLength t =
     bodySizeMiddleware
       (\<lambda>r. if rateLimit > 0 then rateLimitMiddleware (app H fardrunBin) rateLimit remoteAddr t r
            else passes (app H fardrunBin) r)
       (\<lambda>resp st. (Ok resp, st)) maxRequestBodyBytes contentLength"

subsection \<open>Runs of the daemon\<close>

inductive daemon_step :: "buckets \<times> dbs \<Rightarrow> buckets \<times> dbs \<Rightarrow> bool" where
  request: "serve H bin rl addr len t r st = (res, st') \<Longrightarrow> daemon_step st st'"
| requeue: "RequeueLoop_tick d = (res, d') \<Longrightarrow> daemon_step (bs, d) (bs, d')"
| evict: "daemon_step (bs, d) (cleanup t bs, d)"
| time: "daemon_step (bs, d) (bs, d\<lparr>clock := c, faults := fs\<rparr>)"

inductive_cases daemon_stepE: "daemon_step st st'"

text \<open>Every step changes the tables only through the handler stack or a requeue pass.\<close>

lemma serve_cases:
  assumes "serve H bin rl addr len t r (bs, d) = (res, (bs', d'))"
  shows "d' = d \<or> (\<exists>r'. r' = MaxBytesReader maxRequestBodyBytes r \<and> app H bin r' d = (res, d'))"
  using assms
  by (auto simp: serve_def bodySizeMiddleware_def rateLimitMiddleware_def passes_def split: if_splits prod.splits)

lemma Middleware_reading:
  assumes "\<And>a. keeps I (nxt (contextWithActor r a))" and "keeps I (nxt r)"
  shows "keeps I (Middleware C nxt r)"
proof -
  have "keeps I (ResolveAPIKey C key)" for key
    by (rule keeps_env [where h = "\<lambda>d. hashAPIKey C d key" and
          g = "\<lambda>h. query (\<lambda>t. map_option scanActor (find_row ac_api_key_hash h (t_actors t)))"])
      (simp_all add: ResolveAPIKey_def keeps_query)
  then show ?thesis unfolding Middleware_def Let_def
    by (intro keeps_if assms keeps_return keeps_bind keeps_try keeps_sum keeps_option)
qed

lemma keeps_mux_other: "keeps I (health bin r)" "keeps I (ready H r)"
  unfolding health_def ready_def by (intro keeps_return keeps_orErr keeps_query)+

context statement_invariant
begin

lemma keeps_app: "keeps I (app H bin r)"
  unfolding app_def mux_def
  by (intro Middleware_reading keeps_Register keeps_if keeps_mux_other keeps_return)

lemma daemon_keeps: "daemon_step st st' \<Longrightarrow> I (pool_tables (snd st)) \<Longrightarrow> I (pool_tables (snd st'))"
proof (induction rule: daemon_step.induct)
  case (request H bin rl addr len t r st res st')
  obtain bs d bs' d' where st: "st = (bs, d)" "st' = (bs', d')" by (cases st; cases st')
  from serve_cases [OF request.hyps [unfolded st]] request.prems show ?case
    by (auto simp: st dest: keepsD [OF keeps_app])
next
  case (requeue d res d' bs)
  then show ?case using keepsD [OF keeps_RequeueLoop_tick] by auto
qed (auto simp: pool_tables_def split: option.splits)

end

interpretation daemon_keys: stepping_system "\<lambda>st. keys_ok (pool_tables (snd st))" daemon_step
  "\<lambda>st. keys_ok (pool_tables (snd st))"
  by unfold_locales (assumption, blast intro: keyed.daemon_keeps)

interpretation daemon_audit: stepping_system "\<lambda>st. pool_tables (snd st) = t0" daemon_step
  "\<lambda>st. audit_le t0 (pool_tables (snd st))" for t0
  by unfold_locales (simp, blast intro: audit.daemon_keeps)

subsection \<open>Requests that only read\<close>

lemma keeps_reading_handlers:
  assumes "rq_method r \<noteq> ''POST''"
  shows "keeps I (handleWorkflows H r)" "keeps I (handleWorkflow H r)" "keeps I (handleTask H r)"
proof -
  have post: "keeps I (editState H i r)" "keeps I (commitArtifact H i r)" "keeps I (replayWorkflow H i r)"
    "keeps I (executePlan H i r)" "keeps I (forkWorkflow H i r)" "keeps I (markNodeDone H i n r)" "keeps I (resumeGate H i n r)"
    "keeps I (completeTask H i r)" "keeps I (failTask H i r)" "keeps I (heartbeatTask H i r)" for i n
    using assms by (simp_all add: editState_def commitArtifact_def replayWorkflow_def executePlan_def forkWorkflow_def
        markNodeDone_def resumeGate_def completeTask_def failTask_def heartbeatTask_def keeps_return)
  have anchor: "keeps I (anchorWorkflow H i r)" for i
    using assms by (simp add: keeps_def anchorWorkflow_def anchorWorkflow_at_def returnM_def)
  have rest: "keeps I (getWorkflow H i r)" "keeps I (listWorkflows H r)" "keeps I (getDashboard H i r)"
    "keeps I (getReceipts H i r)" "keeps I (listBranches H i r)" "keeps I (getAnchorLog H i r)" "keeps I (verifyAnchor H i r)"
    "keeps I (listWorkflowTasks H i r)" "keeps I (getTask H i r)" for i
    unfolding getWorkflow_def listWorkflows_def getDashboard_def getReceipts_def listBranches_def getAnchorLog_def
      verifyAnchor_def listWorkflowTasks_def getTask_def
    by (intro handler_rules keeps_reads keeps_summary)+
  have default: "keeps I (workflow_default H i sub r)" for i sub
    unfolding workflow_default_def by (intro keeps_if) (auto intro: post keeps_return split: list.split)
  show "keeps I (handleWorkflows H r)" using assms unfolding handleWorkflows_def by (simp add: rest keeps_return)
  show "keeps I (handleWorkflow H r)" unfolding handleWorkflow_def
    by (intro keeps_prod keeps_if keeps_return keeps_bind rest post anchor default)
  show "keeps I (handleTask H r)" unfolding handleTask_def by (intro keeps_prod keeps_if keeps_return rest post)
qed

lemma keeps_reading_mux:
  assumes "rq_method r \<noteq> ''POST''" and "rq_path r \<noteq> ''/tasks/next''"
  shows "keeps I (mux H bin r)"
proof -
  have "keeps I (handleInbox H r)" "keeps I (handleDeadLetter H r)" "keeps I (handleModelRoutes r)"
    unfolding handleInbox_def handleDeadLetter_def handleModelRoutes_def getInbox_def
    by (intro handler_rules keeps_reads)+
  then show ?thesis using assms(2) keeps_reading_handlers [OF assms(1)] unfolding mux_def Register_def
    by (auto simp: Let_def intro: keeps_mux_other keeps_return)
qed

lemma app_reading:
  assumes "rq_method r \<noteq> ''POST''" and "rq_path r \<noteq> ''/tasks/next''"
  shows "keeps I (app H bin r)"
  unfolding app_def using assms by (intro Middleware_reading keeps_reading_mux) (simp_all add: contextWithActor_def)

subsection \<open>The token bucket\<close>

datatype levent = Req string int | Evict int

fun time_of :: "levent \<Rightarrow> int" where
  "time_of (Req k t) = t"
| "time_of (Evict t) = t"

text \<open>The decisions of the limiter on a sequence of events.\<close>

fun decisions :: "int \<Rightarrow> levent list \<Rightarrow> buckets \<Rightarrow> (string \<times> bool) list" where
  "decisions rps [] bs = []"
| "decisions rps (Req k t # es) bs = (case take_token rps k t bs of (allow, bs') \<Rightarrow> (k, allow) # decisions rps es bs')"
| "decisions rps (Evict t # es) bs = decisions rps es (cleanup t bs)"

definition allowed :: "string \<Rightarrow> (string \<times> bool) list \<Rightarrow> int" where
  "allowed k ds = int (length (filter (\<lambda>d. d = (k, True)) ds))"

definition paid :: "int \<Rightarrow> string \<Rightarrow> int \<Rightarrow> int \<Rightarrow> int \<Rightarrow> buckets \<Rightarrow> bool" where
  "paid rps k t0 n t bs \<longleftrightarrow> (case bs k of
      None \<Rightarrow> second * n \<le> rps * (t - t0)
    | Some b \<Rightarrow> 0 \<le> b_tokens b \<and> b_tokens b \<le> rps \<and> t0 \<le> b_lastFill b \<and> b_lastFill b \<le> t \<and>
        second * (n + b_tokens b) \<le> second * rps + rps * (b_lastFill b - t0))"

lemma paid_later: "paid rps k t0 n t bs \<Longrightarrow> 0 < rps \<Longrightarrow> t \<le> t' \<Longrightarrow> paid rps k t0 n t' bs"
proof -
  assume p: "paid rps k t0 n t bs" and "0 < rps" and "t \<le> t'"
  then have "rps * (t - t0) \<le> rps * (t' - t0)" by (intro mult_left_mono) auto
  with p \<open>t \<le> t'\<close> show ?thesis by (auto simp: paid_def split: option.splits)
qed

lemma paid_cleanup:
  assumes "paid rps k t0 n t bs" and "0 < rps"
  shows "paid rps k t0 n t (cleanup t bs)"
proof (cases "bs k")
  case (Some b)
  show ?thesis
  proof (cases "b_lastFill b < t - 60 * second")
    case True
    have "rps * (b_lastFill b - t0) \<le> rps * (t - 60 * second - t0)"
      using True assms(2) by (intro mult_left_mono) auto
    also have "\<dots> = rps * (t - t0) - 60 * (second * rps)" by (simp add: algebra_simps)
    finally have "second * n \<le> rps * (t - t0)"
      using assms Some by (simp add: paid_def algebra_simps)
    then show ?thesis using True Some by (simp add: paid_def cleanup_def)
  next
    case False
    then show ?thesis using assms Some by (simp add: paid_def cleanup_def)
  qed
qed (use assms in \<open>simp add: paid_def cleanup_def\<close>)

lemma refill_bounds:
  assumes "0 < rps" and "rps \<le> 100000000" and "0 \<le> b_tokens b" and "b_tokens b \<le> rps"
    and "0 \<le> b_lastFill b" and "b_lastFill b \<le> t" and "t \<le> maxint"
  shows "0 \<le> refill rps t b \<and> refill rps t b \<le> rps \<and>
    second * refill rps t b \<le> second * b_tokens b + rps * (t - b_lastFill b)"
proof -
  let ?q = "(t - b_lastFill b) * rps div second"
  have q0: "0 \<le> ?q" using assms by (intro pos_imp_zdiv_nonneg_iff [THEN iffD2]) auto
  have q1: "second * ?q \<le> rps * (t - b_lastFill b)"
    using div_mult_mod_eq [of "(t - b_lastFill b) * rps" second] pos_mod_sign [of second "(t - b_lastFill b) * rps"]
    by (simp add: algebra_simps)
  have "(t - b_lastFill b) * rps \<le> maxint * 100000000"
    using assms by (intro mult_mono) auto
  then have "?q \<le> maxint * 100000000 div second" by (rule zdiv_mono1) simp
  then have "int64_range (b_tokens b + ?q)"
    using q0 assms by (simp add: int64_range_def minint_def maxint_def)
  then show ?thesis using wrap64_id q0 q1 assms by (auto simp: refill_def Let_def)
qed

lemma paid_take:
  assumes "paid rps k t0 n t bs" and "0 < rps" and "rps \<le> 100000000" and "0 \<le> t0" and "t0 \<le> t" and "t \<le> maxint"
    and "take_token rps k t bs = (allow, bs')"
  shows "paid rps k t0 (if allow then n + 1 else n) t bs'"
proof -
  define b where "b = (case bs k of None \<Rightarrow> \<lparr>b_tokens = rps, b_lastFill = t\<rparr> | Some b \<Rightarrow> b)"
  have b: "0 \<le> b_tokens b" "b_tokens b \<le> rps" "t0 \<le> b_lastFill b" "b_lastFill b \<le> t"
    "second * (n + b_tokens b) \<le> second * rps + rps * (b_lastFill b - t0)"
    using assms(1,2,5) by (auto simp: b_def paid_def split: option.splits)
  have r: "0 \<le> refill rps t b" "refill rps t b \<le> rps"
    "second * refill rps t b \<le> second * b_tokens b + rps * (t - b_lastFill b)"
    using refill_bounds [OF assms(2,3) b(1,2) _ b(4) assms(6)] b(3) assms(4) by auto
  have "second * (n + refill rps t b) \<le> second * rps + rps * (t - t0)"
    using b(5) r(3) by (simp add: algebra_simps)
  moreover have "allow \<longleftrightarrow> 0 < refill rps t b"
    "bs' = bs(k \<mapsto> \<lparr>b_tokens = (if allow then refill rps t b - 1 else refill rps t b), b_lastFill = t\<rparr>)"
    using assms(7) by (auto simp: take_token_def Let_def b_def)
  ultimately show ?thesis using r assms(5) by (simp add: paid_def)
qed

lemma paid_other: "k' \<noteq> k \<Longrightarrow> take_token rps k' t bs = (a, bs') \<Longrightarrow> paid rps k t0 n t bs \<Longrightarrow> paid rps k t0 n t bs'"
  by (auto simp: take_token_def Let_def paid_def)

lemma allowed_simps [simp]:
  "allowed k [] = 0" "allowed k ((k', a) # ds) = (if k' = k \<and> a then 1 else 0) + allowed k ds"
  by (simp_all add: allowed_def)

lemma decisions_paid:
  assumes "0 < rps" and "rps \<le> 100000000" and "0 \<le> t0" and "t0 \<le> t" and "tend \<le> maxint" and "t \<le> tend"
    and "paid rps k t0 n t bs" and "sorted (map time_of es)" and "\<And>e. e \<in> set es \<Longrightarrow> t \<le> time_of e \<and> time_of e \<le> tend"
  shows "second * (n + allowed k (decisions rps es bs)) \<le> second * rps + rps * (tend - t0)"
  using assms(4,6-)
proof (induction es arbitrary: n t bs)
  case Nil
  have m: "rps * (x - t0) \<le> rps * (tend - t0)" if "x \<le> t" for x
    using Nil.prems(2) assms(1) that by (intro mult_left_mono) auto
  show ?case
  proof (cases "bs k")
    case None
    then have "second * n \<le> rps * (t - t0)" using Nil.prems(3) by (simp add: paid_def)
    also have "\<dots> \<le> rps * (tend - t0)" by (rule m) simp
    also have "\<dots> \<le> second * rps + rps * (tend - t0)" using assms(1) by simp
    finally show ?thesis by simp
  next
    case (Some b)
    then show ?thesis using Nil.prems(3) m [of "b_lastFill b"] by (simp add: paid_def algebra_simps)
  qed
next
  case (Cons e es)
  have le: "t \<le> time_of e" "time_of e \<le> tend" "t0 \<le> time_of e" "time_of e \<le> maxint"
    using Cons.prems(1) Cons.prems(5) [of e] assms(5) by auto
  have later: "paid rps k t0 n (time_of e) bs" using Cons.prems(3) assms(1) le(1) by (rule paid_later)
  have es: "sorted (map time_of es)" "\<And>e'. e' \<in> set es \<Longrightarrow> time_of e \<le> time_of e' \<and> time_of e' \<le> tend"
    using Cons.prems(4,5) by auto
  note IH = Cons.IH [OF le(3,2) _ es]
  show ?case
  proof (cases e)
    case (Evict t1)
    then show ?thesis using IH [OF paid_cleanup [OF later assms(1)]] by simp
  next
    case (Req k' t1)
    obtain a bs' where tk: "take_token rps k' t1 bs = (a, bs')" by (cases "take_token rps k' t1 bs")
    show ?thesis
    proof (cases "k' = k")
      case True
      have "paid rps k t0 (if a then n + 1 else n) t1 bs'"
        using paid_take [OF later assms(1-3) le(3,4)] tk Req True by simp
      from IH [unfolded Req time_of.simps, OF this] show ?thesis using Req tk True by (simp split: if_splits)
    next
      case False
      have "paid rps k t0 n t1 bs'" using paid_other [OF False tk] later Req by simp
      from IH [unfolded Req time_of.simps, OF this] show ?thesis using Req tk False by simp
    qed
  qed
qed

subsection \<open>Properties\<close>


definition seeded_tables :: tables where
  "seeded_tables = empty_tables\<lparr>t_actors := [actor_row_of plain_crypto (handle_of ''pgx'' empty_tables []) sample_actor ''key'']\<rparr>"

definition sample_new :: request where
  "sample_new = sample_request ''POST'' ''/workflows'' (marshal (JObj [(''goal'', JStr ''g''), (''owner'', JStr ''o'')]))"


text \<open>
  C7: the audit tables are append-only. Whatever runs, the receipts, deltas, artifacts,
  branches and anchors that were there stay there unchanged and in place, and no workflow,
  gate or task disappears.
\<close>
theorem daemon_append_only:
  assumes "daemon_step\<^sup>*\<^sup>* (bs, d) (bs', d')"
  shows "prefix (t_receipts (pool_tables d)) (t_receipts (pool_tables d')) \<and>
    prefix (t_deltas (pool_tables d)) (t_deltas (pool_tables d')) \<and>
    prefix (t_artifacts (pool_tables d)) (t_artifacts (pool_tables d')) \<and>
    prefix (t_branches (pool_tables d)) (t_branches (pool_tables d')) \<and>
    prefix (t_anchors (pool_tables d)) (t_anchors (pool_tables d')) \<and>
    prefix (map wf_id (t_workflows (pool_tables d))) (map wf_id (t_workflows (pool_tables d'))) \<and>
    prefix (map gt_token (t_gates (pool_tables d))) (map gt_token (t_gates (pool_tables d'))) \<and>
    prefix (map tk_task_id (t_tasks (pool_tables d))) (map tk_task_id (t_tasks (pool_tables d')))"
  using daemon_audit.inv_reachable [OF _ assms, of "pool_tables d"] by (simp add: audit_le_def)

theorem daemon_append_only_witness:
  "prefix (t_receipts sample_tables) (t_receipts (pool_tables (snd (snd (serve sample_H ''fardrun'' 100 ''10.0.0.1:99'' 2 7
     (sample_request ''POST'' ''/workflows/w/state/edit'' ''{}'') (\<lambda>_. None, handle_of ''sqlite3'' sample_tables []))))))"
proof -
  obtain res bs' d' where s: "serve sample_H ''fardrun'' 100 ''10.0.0.1:99'' 2 7
      (sample_request ''POST'' ''/workflows/w/state/edit'' ''{}'') (\<lambda>_. None, handle_of ''sqlite3'' sample_tables []) =
      (res, (bs', d'))" by (metis prod.exhaust)
  from daemon_append_only [OF r_into_rtranclp [of daemon_step, OF daemon_step.request [OF s]]] s show ?thesis by simp
qed

text \<open>
  C10: a request that is neither a POST nor the claim of a task changes nothing in the
  database, whatever path it names and whatever fails on the way.
\<close>
theorem reading_requests_change_nothing:
  assumes "rq_method r \<noteq> ''POST''" and "rq_path r \<noteq> ''/tasks/next''"
    and "serve H bin rl addr len t r (bs, d) = (res, (bs', d'))"
  shows "pool_tables d' = pool_tables d"
proof -
  let ?r = "MaxBytesReader maxRequestBodyBytes r"
  have m: "rq_method ?r \<noteq> ''POST''" "rq_path ?r \<noteq> ''/tasks/next''" using assms(1,2) by (simp_all add: MaxBytesReader_def)
  from serve_cases [OF assms(3)] show ?thesis
    using keepsD [OF app_reading [OF m], of "\<lambda>t. t = pool_tables d" d] by blast
qed

theorem reading_requests_change_nothing_witness:
  "pool_tables (snd (snd (serve sample_H ''fardrun'' 100 ''10.0.0.1:99'' 0 7
     (sample_request ''DELETE'' ''/workflows/w'' []) (\<lambda>_. None, handle_of ''sqlite3'' sample_tables [])))) = sample_tables"
proof -
  let ?r = "sample_request ''DELETE'' ''/workflows/w'' []"
  obtain res bs' d' where s: "serve sample_H ''fardrun'' 100 ''10.0.0.1:99'' 0 7 ?r
      (\<lambda>_. None, handle_of ''sqlite3'' sample_tables []) = (res, (bs', d'))" by (metis prod.exhaust)
  have "pool_tables d' = pool_tables (handle_of ''sqlite3'' sample_tables [])"
    by (rule reading_requests_change_nothing [OF _ _ s]) (simp_all add: sample_request_def)
  then show ?thesis using s by simp
qed



text \<open>
  C34: a client that keeps sending slightly faster than the limit is starved. Every refused
  request restarts the refill interval, so once its bucket is empty no request of a client
  whose requests are less than one refill interval apart is ever let through again.
\<close>
theorem rate_limit_starves:
  assumes "bs k = Some \<lparr>b_tokens = 0, b_lastFill = t\<rparr>" and "0 < rps"
    and "successively (\<lambda>a b. 0 \<le> b - a \<and> (b - a) * rps < 1000000000) (t # ts)"
  shows "decisions rps (map (Req k) ts) bs = map (\<lambda>_. (k, False)) ts"
  using assms(1,3)
proof (induction ts arbitrary: t bs)
  case (Cons u ts)
  have "(u - t) * rps div second = 0" using Cons.prems(2) assms(2) by (intro div_pos_pos_trivial) auto
  then have "refill rps u \<lparr>b_tokens = 0, b_lastFill = t\<rparr> = 0" using assms(2) by (simp add: refill_def wrap64_def)
  then have "take_token rps k u bs = (False, bs(k \<mapsto> \<lparr>b_tokens = 0, b_lastFill = u\<rparr>))"
    using Cons.prems(1) by (simp add: take_token_def Let_def)
  moreover have "successively (\<lambda>a b. 0 \<le> b - a \<and> (b - a) * rps < 1000000000) (u # ts)" using Cons.prems(2) by simp
  ultimately show ?case using Cons.IH [of "bs(k \<mapsto> \<lparr>b_tokens = 0, b_lastFill = u\<rparr>)" u] by (simp add: fun_upd_def)
qed simp

theorem rate_limit_starves_witness:
  "decisions 100 (map (Req ''c'') [9000000, 18000000, 27000000]) [''c'' \<mapsto> \<lparr>b_tokens = 0, b_lastFill = 0\<rparr>] =
     [(''c'', False), (''c'', False), (''c'', False)]"
  using rate_limit_starves [where t = 0 and rps = 100 and k = "''c''" and ts = "[9000000, 18000000, 27000000]"] by simp

end
