(* ===== verification/Sdk.thy ===== *)
theory Sdk
  imports Daemon
begin

section \<open>The Go client library: sdk/go/acp, sdk/go/adapters\<close>

text \<open>
  The client talks to a server given as a handler, so a call of the client is an operation
  on the server's database: the request is built, served, and the first JSON value of the
  answer decoded. A panic of the server closes the connection, an error of the call. Values
  put into a URL are taken not to need escaping, a nil raw message is the value null, and a
  null inside an answered list, a nil pointer in Go, is read as the zero value. Shown: the plan a client sends is the plan
  the store reads, and what a client makes of a claimed task.
\<close>

subsection \<open>client.go: types\<close>

record SdkPlanNode =
  sn_ID :: string
  sn_Title :: string
  sn_Agent :: string
  sn_Status :: string
  sn_Risk :: string
  sn_OutputSchema :: string

record SdkPlanEdge =
  se_From :: string
  se_To :: string
  se_Reason :: string

record SdkPlan =
  sp_Nodes :: "SdkPlanNode list"
  sp_Edges :: "SdkPlanEdge list"

record SdkTask =
  st_TaskID :: string
  st_WorkflowID :: string
  st_NodeID :: string
  st_Agent :: string
  st_Status :: string
  st_InputJSON :: json
  st_OutputJSON :: json
  st_AttemptCount :: int
  st_MaxAttempts :: int
  st_PriorityLane :: string

record SdkWorkflow =
  sw_WorkflowID :: string
  sw_Goal :: string
  sw_Owner :: string
  sw_Stage :: string
  sw_StateHash :: string
  sw_Plan :: "SdkPlan option"

record SdkBranch =
  sb_BranchID :: string
  sb_ParentID :: string
  sb_BranchPointSeq :: int
  sb_BranchPointHash :: string
  sb_Reason :: string
  sb_Kind :: string

record SdkReceipt =
  sr_Seq :: int
  sr_ReceiptDigest :: string
  sr_ReceiptJSON :: string

record Client =
  cl_apiKey :: string
  cl_server :: handler

subsection \<open>client.go: encoding\<close>

definition plan_node_json :: "SdkPlanNode \<Rightarrow> json" where
  "plan_node_json n = JObj [(''id'', JStr (sn_ID n)), (''title'', JStr (sn_Title n)), (''agent'', JStr (sn_Agent n)),
     (''status'', JStr (sn_Status n)), (''risk'', JStr (sn_Risk n)), (''output_schema'', JStr (sn_OutputSchema n))]"

definition plan_edge_json :: "SdkPlanEdge \<Rightarrow> json" where
  "plan_edge_json e = JObj ([(''from'', JStr (se_From e)), (''to'', JStr (se_To e))] @ omit_str ''reason'' (se_Reason e))"

definition plan_json :: "SdkPlan \<Rightarrow> json" where
  "plan_json p = JObj [(''nodes'', slice_json plan_node_json (sp_Nodes p)), (''edges'', slice_json plan_edge_json (sp_Edges p))]"

subsection \<open>client.go: requests\<close>

definition client_do :: "Client \<Rightarrow> request \<Rightarrow> json dbm" where
  "client_do c r =
     bindM (tryM (cl_server c r)) (\<lambda>res. case res of
       Inl e \<Rightarrow> failM (EWrap (''request '' @ rq_method r @ '' '' @ rq_path r) (EMsg ''EOF''))
     | Inr [] \<Rightarrow> failM (EMsg ''EOF'')
     | Inr ((code, body) # _) \<Rightarrow>
         if code \<ge> 400 then failM (EMsg (''ACP API '' @ rq_method r @ '' '' @ rq_path r @ '': '' @ show_int code @ '' '' @
           fstr (fst (decode_struct [(''error'', FStr)] body)) ''error''))
         else returnM body)"

definition client_request :: "Client \<Rightarrow> string \<Rightarrow> string \<Rightarrow> (string \<Rightarrow> string) \<Rightarrow> string \<Rightarrow> request" where
  "client_request c method path q body =
     \<lparr>rq_method = method, rq_path = path, rq_query = q, rq_authorization = ''Bearer '' @ cl_apiKey c, rq_body = body,
      rq_actor = None\<rparr>"

definition client_post :: "Client \<Rightarrow> string \<Rightarrow> (string \<times> json) list option \<Rightarrow> json dbm" where
  "client_post c path body =
     client_do c (client_request c ''POST'' path (\<lambda>_. [])
       (case body of None \<Rightarrow> [] | Some m \<Rightarrow> marshal (JObj (go_map m))))"

definition client_get :: "Client \<Rightarrow> string \<Rightarrow> (string \<Rightarrow> string) \<Rightarrow> json dbm" where
  "client_get c path q = client_do c (client_request c ''GET'' path q [])"

definition decodeM :: "(string \<times> fkind) list \<Rightarrow> json \<Rightarrow> struct dbm" where
  "decodeM fs j = (case decode_struct fs j of (r, ok) \<Rightarrow> if ok then returnM r else failM (EMsg ''json: cannot unmarshal''))"

definition isMap :: "json \<Rightarrow> unit dbm" where
  "isMap j = (case j of JObj m \<Rightarrow> returnM () | JNull \<Rightarrow> returnM () | _ \<Rightarrow> failM (EMsg ''json: cannot unmarshal''))"

definition listM :: "(json \<Rightarrow> 'a option) \<Rightarrow> json \<Rightarrow> 'a list dbm" where
  "listM f j = (case dec_list f (Some j) of None \<Rightarrow> failM (EMsg ''json: cannot unmarshal'') | Some xs \<Rightarrow> returnM xs)"

subsection \<open>client.go: operations\<close>

definition sdk_CreateWorkflow :: "Client \<Rightarrow> string \<Rightarrow> string \<Rightarrow> SdkPlan option \<Rightarrow> SdkWorkflow dbm" where
  "sdk_CreateWorkflow c goal owner plan =
     bindM (client_post c ''/workflows'' (Some ([(''goal'', JStr goal), (''owner'', JStr owner)] @
       (case plan of None \<Rightarrow> [] | Some p \<Rightarrow> [(''plan'', plan_json p)])))) (\<lambda>j.
     bindM (decodeM [(''ok'', FBool), (''workflow_id'', FStr), (''stage'', FStr), (''state_hash'', FStr)] j) (\<lambda>resp.
     returnM \<lparr>sw_WorkflowID = fstr resp ''workflow_id'', sw_Goal = goal, sw_Owner = owner, sw_Stage = fstr resp ''stage'',
       sw_StateHash = fstr resp ''state_hash'', sw_Plan = plan\<rparr>))"

definition sdk_EditState :: "Client \<Rightarrow> string \<Rightarrow> (string \<times> json) list list \<Rightarrow> unit dbm" where
  "sdk_EditState c w patches =
     bindM (client_post c (''/workflows/'' @ w @ ''/state/edit'')
       (Some [(''patches'', JArr (map (\<lambda>p. JObj (go_map p)) patches)), (''kind'', JStr ''human_state_edit'')])) isMap"

definition dec_receipt :: "json \<Rightarrow> SdkReceipt option" where
  "dec_receipt j = (case decode_struct [(''seq'', FInt), (''receipt_digest'', FStr), (''receipt_json'', FStr)] j of (r, ok) \<Rightarrow>
     if ok then Some \<lparr>sr_Seq = fint r ''seq'', sr_ReceiptDigest = fstr r ''receipt_digest'', sr_ReceiptJSON = fstr r ''receipt_json''\<rparr>
     else None)"

definition sdk_GetReceipts :: "Client \<Rightarrow> string \<Rightarrow> SdkReceipt list dbm" where
  "sdk_GetReceipts c w =
     bindM (client_get c (''/workflows/'' @ w @ ''/receipts'') (\<lambda>_. [])) (\<lambda>j.
     bindM (decodeM [(''receipts'', FAny), (''chain_verified'', FBool)] j) (\<lambda>resp.
     listM dec_receipt (fany resp ''receipts'')))"

definition sdk_Fork :: "Client \<Rightarrow> string \<Rightarrow> int \<Rightarrow> string \<Rightarrow> SdkBranch dbm" where
  "sdk_Fork c w seq reason =
     bindM (client_post c (''/workflows/'' @ w @ ''/fork'') (Some [(''branch_point_seq'', JInt seq), (''reason'', JStr reason)])) (\<lambda>j.
     bindM (decodeM [(''ok'', FBool), (''branch_id'', FStr), (''new_workflow_id'', FStr), (''parent_id'', FStr),
       (''branch_point_seq'', FInt), (''branch_point_hash'', FStr)] j) (\<lambda>resp.
     returnM \<lparr>sb_BranchID = fstr resp ''branch_id'', sb_ParentID = fstr resp ''parent_id'',
       sb_BranchPointSeq = fint resp ''branch_point_seq'', sb_BranchPointHash = fstr resp ''branch_point_hash'',
       sb_Reason = reason, sb_Kind = ''fork''\<rparr>))"

definition sdk_MarkNodeDone :: "Client \<Rightarrow> string \<Rightarrow> string \<Rightarrow> unit dbm" where
  "sdk_MarkNodeDone c w n = bindM (client_post c (''/workflows/'' @ w @ ''/plan/nodes/'' @ n @ ''/done'') None) isMap"

definition task_fields :: "(string \<times> fkind) list" where
  "task_fields = [(''task_id'', FStr), (''workflow_id'', FStr), (''node_id'', FStr), (''agent'', FStr), (''status'', FStr),
     (''input_json'', FAny), (''output_json'', FAny), (''attempt_count'', FInt), (''max_attempts'', FInt), (''priority_lane'', FStr)]"

definition task_of_struct :: "struct \<Rightarrow> SdkTask" where
  "task_of_struct r = \<lparr>st_TaskID = fstr r ''task_id'', st_WorkflowID = fstr r ''workflow_id'', st_NodeID = fstr r ''node_id'',
     st_Agent = fstr r ''agent'', st_Status = fstr r ''status'', st_InputJSON = fany r ''input_json'',
     st_OutputJSON = fany r ''output_json'', st_AttemptCount = fint r ''attempt_count'', st_MaxAttempts = fint r ''max_attempts'',
     st_PriorityLane = fstr r ''priority_lane''\<rparr>"

definition sdk_ClaimTask :: "Client \<Rightarrow> string \<Rightarrow> SdkTask option dbm" where
  "sdk_ClaimTask c agentID =
     bindM (client_get c ''/tasks/next'' (\<lambda>k. if k = ''agent'' then agentID else [])) (\<lambda>j.
     bindM (decodeM [(''task'', FAny)] j) (\<lambda>resp.
     if fany resp ''task'' = JNull then returnM None
     else bindM (decodeM task_fields (fany resp ''task'')) (\<lambda>r. returnM (Some (task_of_struct r)))))"

definition sdk_Heartbeat :: "Client \<Rightarrow> string \<Rightarrow> string \<Rightarrow> unit dbm" where
  "sdk_Heartbeat c taskID agentID = bindM (client_post c (''/tasks/'' @ taskID @ ''/heartbeat'') None) isMap"

definition sdk_CompleteTask :: "Client \<Rightarrow> string \<Rightarrow> string \<Rightarrow> string \<Rightarrow> unit dbm" where
  "sdk_CompleteTask c taskID output policyResult =
     bindM (client_post c (''/tasks/'' @ taskID @ ''/complete'')
       (Some [(''output'', JStr output), (''policy_result'', JStr policyResult)])) isMap"

definition sdk_FailTask :: "Client \<Rightarrow> string \<Rightarrow> string \<Rightarrow> unit dbm" where
  "sdk_FailTask c taskID reason =
     bindM (client_post c (''/tasks/'' @ taskID @ ''/fail'') (Some [(''reason'', JStr reason)])) isMap"

definition dec_sdk_node :: "json \<Rightarrow> SdkPlanNode option" where
  "dec_sdk_node j = (case decode_struct [(''id'', FStr), (''title'', FStr), (''agent'', FStr), (''status'', FStr), (''risk'', FStr),
       (''output_schema'', FStr)] j of (r, ok) \<Rightarrow>
     if ok then Some \<lparr>sn_ID = fstr r ''id'', sn_Title = fstr r ''title'', sn_Agent = fstr r ''agent'', sn_Status = fstr r ''status'',
       sn_Risk = fstr r ''risk'', sn_OutputSchema = fstr r ''output_schema''\<rparr> else None)"

definition dec_sdk_edge :: "json \<Rightarrow> SdkPlanEdge option" where
  "dec_sdk_edge j = (case decode_struct [(''from'', FStr), (''to'', FStr), (''reason'', FStr)] j of (r, ok) \<Rightarrow>
     if ok then Some \<lparr>se_From = fstr r ''from'', se_To = fstr r ''to'', se_Reason = fstr r ''reason''\<rparr> else None)"

definition dec_sdk_plan :: "json \<Rightarrow> SdkPlan option option" where
  "dec_sdk_plan j = (if j = JNull then Some None else
     (case decode_struct [(''nodes'', FAny), (''edges'', FAny)] j of (r, ok) \<Rightarrow>
       if \<not> ok then None else
       (case (dec_list dec_sdk_node (Some (fany r ''nodes'')), dec_list dec_sdk_edge (Some (fany r ''edges''))) of
          (Some ns, Some es) \<Rightarrow> Some (Some \<lparr>sp_Nodes = ns, sp_Edges = es\<rparr>)
        | _ \<Rightarrow> None)))"

definition dec_workflow :: "json \<Rightarrow> SdkWorkflow option" where
  "dec_workflow j = (case decode_struct [(''workflow_id'', FStr), (''goal'', FStr), (''owner'', FStr), (''stage'', FStr),
       (''state_hash'', FStr), (''plan'', FAny)] j of (r, ok) \<Rightarrow>
     if \<not> ok then None else
     (case dec_sdk_plan (fany r ''plan'') of
        None \<Rightarrow> None
      | Some plan \<Rightarrow> Some \<lparr>sw_WorkflowID = fstr r ''workflow_id'', sw_Goal = fstr r ''goal'', sw_Owner = fstr r ''owner'',
          sw_Stage = fstr r ''stage'', sw_StateHash = fstr r ''state_hash'', sw_Plan = plan\<rparr>))"

definition sdk_GetWorkflow :: "Client \<Rightarrow> string \<Rightarrow> SdkWorkflow dbm" where
  "sdk_GetWorkflow c w =
     bindM (client_get c (''/workflows/'' @ w) (\<lambda>_. [])) (\<lambda>j.
     case dec_workflow j of None \<Rightarrow> failM (EMsg ''json: cannot unmarshal'') | Some x \<Rightarrow> returnM x)"

definition sdk_ListWorkflows :: "Client \<Rightarrow> string \<Rightarrow> SdkWorkflow list dbm" where
  "sdk_ListWorkflows c stage =
     bindM (client_get c ''/workflows'' (\<lambda>k. if k = ''stage'' then stage else [])) (\<lambda>j.
     bindM (decodeM [(''workflows'', FAny)] j) (\<lambda>resp. listM dec_workflow (fany resp ''workflows'')))"

definition dec_branch :: "json \<Rightarrow> SdkBranch option" where
  "dec_branch j = (case decode_struct [(''branch_id'', FStr), (''parent_id'', FStr), (''branch_point_seq'', FInt),
       (''branch_point_hash'', FStr), (''reason'', FStr), (''kind'', FStr)] j of (r, ok) \<Rightarrow>
     if ok then Some \<lparr>sb_BranchID = fstr r ''branch_id'', sb_ParentID = fstr r ''parent_id'',
       sb_BranchPointSeq = fint r ''branch_point_seq'', sb_BranchPointHash = fstr r ''branch_point_hash'',
       sb_Reason = fstr r ''reason'', sb_Kind = fstr r ''kind''\<rparr> else None)"

definition sdk_ListBranches :: "Client \<Rightarrow> string \<Rightarrow> SdkBranch list dbm" where
  "sdk_ListBranches c w =
     bindM (client_get c (''/workflows/'' @ w @ ''/branches'') (\<lambda>_. [])) (\<lambda>j.
     bindM (decodeM [(''branches'', FAny), (''count'', FInt)] j) (\<lambda>resp. listM dec_branch (fany resp ''branches'')))"

definition dec_str :: "json \<Rightarrow> string option" where
  "dec_str j = (case j of JStr s \<Rightarrow> Some s | JNull \<Rightarrow> Some [] | _ \<Rightarrow> None)"

definition sdk_ExecutePlan :: "Client \<Rightarrow> string \<Rightarrow> ModelRoute list \<Rightarrow> string list dbm" where
  "sdk_ExecutePlan c w routes =
     bindM (client_post c (''/workflows/'' @ w @ ''/plan/execute'') (Some [(''routes'', slice_json route_json routes)])) (\<lambda>j.
     bindM (decodeM [(''ok'', FBool), (''enqueued'', FInt), (''task_ids'', FAny)] j) (\<lambda>resp.
     listM dec_str (fany resp ''task_ids'')))"

definition sdk_GetModelRoutes :: "Client \<Rightarrow> ModelRoute list dbm" where
  "sdk_GetModelRoutes c =
     bindM (client_get c ''/model-routes'' (\<lambda>_. [])) (\<lambda>j.
     bindM (decodeM [(''routes'', FAny)] j) (\<lambda>resp. listM dec_route (fany resp ''routes'')))"

definition sdk_Health :: "Client \<Rightarrow> unit dbm" where
  "sdk_Health c = bindM (client_get c ''/health'' (\<lambda>_. [])) isMap"

subsection \<open>worker.go\<close>

record WorkerConfig =
  wc_AgentID :: string
  wc_PollInterval :: int
  wc_HeartbeatInterval :: int
  wc_MaxConcurrent :: int

definition NewTaskWorker :: "WorkerConfig \<Rightarrow> WorkerConfig" where
  "NewTaskWorker cfg = cfg
     \<lparr>wc_PollInterval := (if wc_PollInterval cfg = 0 then 2 * second else wc_PollInterval cfg),
      wc_HeartbeatInterval := (if wc_HeartbeatInterval cfg = 0 then 30 * second else wc_HeartbeatInterval cfg),
      wc_MaxConcurrent := (if wc_MaxConcurrent cfg = 0 then 1 else wc_MaxConcurrent cfg)\<rparr>"

text \<open>The heartbeats sent while the handler runs, their errors only logged.\<close>

fun beat :: "Client \<Rightarrow> string \<Rightarrow> string \<Rightarrow> nat \<Rightarrow> unit dbm" where
  "beat c taskID agentID 0 = returnM ()"
| "beat c taskID agentID (Suc n) = bindM (tryM (sdk_Heartbeat c taskID agentID)) (\<lambda>_. beat c taskID agentID n)"

definition processOne :: "Client \<Rightarrow> WorkerConfig \<Rightarrow> (SdkTask \<Rightarrow> go_error + string) \<Rightarrow> (go_error \<Rightarrow> string) \<Rightarrow> nat \<Rightarrow> unit dbm" where
  "processOne c cfg handle text beats =
     bindM (tryM (sdk_ClaimTask c (wc_AgentID cfg))) (\<lambda>res. case res of
       Inl e \<Rightarrow> returnM ()
     | Inr None \<Rightarrow> returnM ()
     | Inr (Some task) \<Rightarrow>
         bindM (beat c (st_TaskID task) (wc_AgentID cfg) beats) (\<lambda>_.
         case handle task of
           Inl e \<Rightarrow> bindM (tryM (sdk_FailTask c (st_TaskID task) (text e))) (\<lambda>_. returnM ())
         | Inr output \<Rightarrow> bindM (tryM (sdk_CompleteTask c (st_TaskID task) output ''pass'')) (\<lambda>_. returnM ())))"

text \<open>
  The loop \<^verbatim>\<open>Run\<close> over what can happen next: the poll ticker fires, a goroutine returns, the
  context ends. \<open>wp_busy\<close> counts the values in the channel \<^verbatim>\<open>sem\<close>. A negative capacity of a
  channel and a ticker without a positive period are panics.
\<close>

datatype worker_event = TickerFires | GoroutineReturns | CtxDone

record WorkerPool =
  wp_busy :: nat
  wp_started :: nat
  wp_stopped :: bool

definition Run_start :: "WorkerConfig \<Rightarrow> go_error + WorkerPool" where
  "Run_start cfg =
     (if wc_MaxConcurrent cfg < 0 then Inl (EPanic ''makechan: size out of range'')
      else if wc_PollInterval cfg \<le> 0 then Inl (EPanic ''non-positive interval for NewTicker'')
      else Inr \<lparr>wp_busy = 0, wp_started = 0, wp_stopped = False\<rparr>)"

fun Run_step :: "WorkerConfig \<Rightarrow> worker_event \<Rightarrow> WorkerPool \<Rightarrow> WorkerPool" where
  "Run_step cfg CtxDone p = p\<lparr>wp_stopped := True\<rparr>"
| "Run_step cfg GoroutineReturns p = p\<lparr>wp_busy := wp_busy p - 1\<rparr>"
| "Run_step cfg TickerFires p =
     (if wp_stopped p then p
      else if int (wp_busy p) < wc_MaxConcurrent cfg then p\<lparr>wp_busy := Suc (wp_busy p), wp_started := Suc (wp_started p)\<rparr>
      else p)"

lemma worker_slots:
  assumes "Run_start (NewTaskWorker cfg) = Inr p0"
  shows "int (wp_busy (fold (Run_step (NewTaskWorker cfg)) evs p0)) \<le> wc_MaxConcurrent (NewTaskWorker cfg)"
proof -
  have step: "int (wp_busy (Run_step c ev p)) \<le> wc_MaxConcurrent c" if "int (wp_busy p) \<le> wc_MaxConcurrent c" for c ev p
    using that by (cases ev) auto
  have "int (wp_busy (fold (Run_step c) evs p)) \<le> wc_MaxConcurrent c" if "int (wp_busy p) \<le> wc_MaxConcurrent c" for c p
    using that by (induction evs arbitrary: p) (auto intro: step)
  then show ?thesis using assms by (auto simp: Run_start_def split: if_splits)
qed

lemma worker_stopped: "wp_stopped p \<Longrightarrow> wp_started (fold (Run_step cfg) evs p) = wp_started p"
proof (induction evs arbitrary: p)
  case (Cons ev evs)
  then show ?case by (cases ev) simp_all
qed simp

lemma worker_first_tick:
  "Run_start (NewTaskWorker cfg) = Inr p0 \<Longrightarrow> wp_started (Run_step (NewTaskWorker cfg) TickerFires p0) = 1"
  by (auto simp: Run_start_def NewTaskWorker_def split: if_splits)

subsection \<open>builder.go\<close>

record WorkflowBuilder =
  wb_workflowID :: string
  wb_goal :: string
  wb_owner :: string
  wb_plan :: "SdkPlan option"

definition NewWorkflow :: "string \<Rightarrow> string \<Rightarrow> WorkflowBuilder" where
  "NewWorkflow goal owner = \<lparr>wb_workflowID = [], wb_goal = goal, wb_owner = owner, wb_plan = None\<rparr>"

definition WithPlan :: "WorkflowBuilder \<Rightarrow> SdkPlan option \<Rightarrow> WorkflowBuilder" where
  "WithPlan b plan = b\<lparr>wb_plan := plan\<rparr>"

definition builder_Create :: "Client \<Rightarrow> WorkflowBuilder \<Rightarrow> WorkflowBuilder dbm" where
  "builder_Create c b =
     bindM (wrapM ''create workflow'' (sdk_CreateWorkflow c (wb_goal b) (wb_owner b) (wb_plan b))) (\<lambda>wkf.
     returnM (b\<lparr>wb_workflowID := sw_WorkflowID wkf\<rparr>))"

definition SetStage :: "Client \<Rightarrow> WorkflowBuilder \<Rightarrow> string \<Rightarrow> WorkflowBuilder dbm" where
  "SetStage c b stage =
     bindM (wrapM (''set stage '' @ stage) (sdk_EditState c (wb_workflowID b) [[(''path'', JStr ''stage''), (''value'', JStr stage)]])) (\<lambda>_. returnM b)"

definition SetVariable :: "Client \<Rightarrow> WorkflowBuilder \<Rightarrow> string \<Rightarrow> json \<Rightarrow> WorkflowBuilder dbm" where
  "SetVariable c b key v =
     bindM (wrapM (''set var '' @ key) (sdk_EditState c (wb_workflowID b) [[(''path'', JStr (''var.'' @ key)), (''value'', v)]])) (\<lambda>_. returnM b)"

definition builder_Fork :: "Client \<Rightarrow> WorkflowBuilder \<Rightarrow> int \<Rightarrow> string \<Rightarrow> WorkflowBuilder dbm" where
  "builder_Fork c b seq reason =
     bindM (wrapM (''fork at seq '' @ show_int seq) (sdk_Fork c (wb_workflowID b) seq reason)) (\<lambda>branch.
     returnM \<lparr>wb_workflowID = sb_BranchID branch, wb_goal = wb_goal b @ '' [fork]'', wb_owner = wb_owner b, wb_plan = None\<rparr>)"

definition builder_Receipts :: "Client \<Rightarrow> WorkflowBuilder \<Rightarrow> SdkReceipt list dbm" where
  "builder_Receipts c b = sdk_GetReceipts c (wb_workflowID b)"

subsection \<open>adapters.go\<close>

record LangGraphNode =
  lg_ID :: string
  lg_Type :: string
  lg_Metadata :: "(string \<times> json) list"

record LangGraphEdge =
  lg_From :: string
  lg_To :: string

record LangGraphEvent =
  lg_EType :: string
  lg_NodeID :: string
  lg_Output :: json
  lg_Tool :: string

record LangGraphRun =
  lg_RunID :: string
  lg_Nodes :: "LangGraphNode list"
  lg_Edges :: "LangGraphEdge list"
  lg_Events :: "LangGraphEvent list"

record CrewAITask =
  cr_ID :: string
  cr_Description :: string
  cr_AgentID :: string

record CrewAIEvent =
  cr_EType :: string
  cr_TaskID :: string
  cr_EAgentID :: string
  cr_Output :: json

record CrewAIRun =
  cr_CrewID :: string
  cr_Tasks :: "CrewAITask list"
  cr_Events :: "CrewAIEvent list"

record TemporalActivity =
  tp_ID :: string
  tp_Name :: string

record TemporalEvent =
  tp_EType :: string
  tp_ActivityID :: string
  tp_Output :: json

record TemporalRun =
  tp_RunID :: string
  tp_Workflow :: string
  tp_Activities :: "TemporalActivity list"
  tp_Events :: "TemporalEvent list"

record IngestResult =
  ir_WorkflowID :: string
  ir_Receipts :: int
  ir_Artifacts :: "string list"
  ir_Stage :: string

definition pending_node :: "string \<Rightarrow> string \<Rightarrow> string \<Rightarrow> SdkPlanNode" where
  "pending_node i title agent = \<lparr>sn_ID = i, sn_Title = title, sn_Agent = agent, sn_Status = ''pending'', sn_Risk = ''medium'',
     sn_OutputSchema = []\<rparr>"

definition langgraph_plan :: "LangGraphRun \<Rightarrow> SdkPlan" where
  "langgraph_plan run =
     \<lparr>sp_Nodes = map (\<lambda>n. pending_node (lg_ID n) (lg_Type n) (''langgraph:'' @ lg_ID n)) (lg_Nodes run),
      sp_Edges = map (\<lambda>e. \<lparr>se_From = lg_From e, se_To = lg_To e, se_Reason = ''langgraph edge''\<rparr>) (lg_Edges run)\<rparr>"

text \<open>The loop over the events, shared by the three adapters: one edit per event, numbered from 0.\<close>

fun ingest_events :: "Client \<Rightarrow> string \<Rightarrow> string \<Rightarrow> nat \<Rightarrow> (string \<times> json) list list \<Rightarrow> unit dbm" where
  "ingest_events c w var i [] = returnM ()"
| "ingest_events c w var i (ev # evs) =
     bindM (wrapM (''ingest event '' @ show_nat i)
       (sdk_EditState c w [[(''path'', JStr (var @ show_nat i)), (''value'', JObj (go_map ev))]])) (\<lambda>_. ingest_events c w var (Suc i) evs)"

definition finish_ingest :: "Client \<Rightarrow> string \<Rightarrow> IngestResult dbm" where
  "finish_ingest c w =
     bindM (wrapM ''mark complete'' (sdk_EditState c w [[(''path'', JStr ''stage''), (''value'', JStr ''complete'')]])) (\<lambda>_.
     bindM (tryM (sdk_GetReceipts c w)) (\<lambda>res.
     returnM \<lparr>ir_WorkflowID = w, ir_Receipts = (case res of Inl e \<Rightarrow> 0 | Inr rs \<Rightarrow> int (length rs)), ir_Artifacts = [], ir_Stage = ''complete''\<rparr>))"

definition ingest :: "Client \<Rightarrow> string \<Rightarrow> string \<Rightarrow> SdkPlan \<Rightarrow> string \<Rightarrow> (string \<times> json) list list \<Rightarrow> IngestResult dbm" where
  "ingest c goal owner plan var evs =
     bindM (wrapM ''create workflow'' (sdk_CreateWorkflow c goal owner (Some plan))) (\<lambda>wkf.
     bindM (ingest_events c (sw_WorkflowID wkf) var 0 evs) (\<lambda>_. finish_ingest c (sw_WorkflowID wkf)))"

definition IngestLangGraph :: "Client \<Rightarrow> string \<Rightarrow> LangGraphRun \<Rightarrow> IngestResult dbm" where
  "IngestLangGraph c owner run =
     ingest c (''LangGraph run: '' @ lg_RunID run) owner (langgraph_plan run) ''var.lg_event_''
       (map (\<lambda>e. [(''type'', JStr (lg_EType e)), (''node_id'', JStr (lg_NodeID e)), (''output'', JStr (marshal (lg_Output e)))])
         (lg_Events run))"

definition crewai_plan :: "CrewAIRun \<Rightarrow> SdkPlan" where
  "crewai_plan run =
     \<lparr>sp_Nodes = map (\<lambda>t. pending_node (cr_ID t) (cr_Description t) (''crewai:'' @ cr_AgentID t)) (cr_Tasks run), sp_Edges = []\<rparr>"

definition IngestCrewAI :: "Client \<Rightarrow> string \<Rightarrow> CrewAIRun \<Rightarrow> IngestResult dbm" where
  "IngestCrewAI c owner run =
     ingest c (''CrewAI run: '' @ cr_CrewID run) owner (crewai_plan run) ''var.crew_event_''
       (map (\<lambda>e. [(''type'', JStr (cr_EType e)), (''task_id'', JStr (cr_TaskID e)), (''agent_id'', JStr (cr_EAgentID e)),
           (''output'', JStr (marshal (cr_Output e)))]) (cr_Events run))"

definition temporal_plan :: "TemporalRun \<Rightarrow> SdkPlan" where
  "temporal_plan run =
     \<lparr>sp_Nodes = map (\<lambda>a. pending_node (tp_ID a) (tp_Name a) (''temporal:'' @ tp_ID a)) (tp_Activities run), sp_Edges = []\<rparr>"

definition IngestTemporal :: "Client \<Rightarrow> string \<Rightarrow> TemporalRun \<Rightarrow> IngestResult dbm" where
  "IngestTemporal c owner run =
     ingest c (''Temporal run: '' @ tp_RunID run @ '' ('' @ tp_Workflow run @ '')'') owner (temporal_plan run) ''var.temporal_event_''
       (map (\<lambda>e. [(''type'', JStr (tp_EType e)), (''activity_id'', JStr (tp_ActivityID e)), (''output'', JStr (marshal (tp_Output e)))])
         (tp_Events run))"

subsection \<open>A plan on its way from the client to the store\<close>

lemma canon_wf:
  "lit_json j \<Longrightarrow> wf_json (canon j)"
  "lit_elems vs \<Longrightarrow> wf_elems (canon_elems vs)"
  "lit_members kvs \<Longrightarrow> wf_members (canon_members kvs)"
  by (induction j and vs and kvs rule: lit_json_lit_elems_lit_members.induct) (auto intro: wf_go_map)

definition store_node :: "SdkPlanNode \<Rightarrow> PlanNode" where
  "store_node n = \<lparr>PN_ID = sn_ID n, PN_Title = sn_Title n, PN_Agent = sn_Agent n, PN_Status = sn_Status n, PN_Risk = sn_Risk n,
     PN_OutputSchema = sn_OutputSchema n\<rparr>"

definition store_edge :: "SdkPlanEdge \<Rightarrow> PlanEdge" where
  "store_edge e = \<lparr>PE_From = se_From e, PE_To = se_To e, PE_Reason = se_Reason e\<rparr>"

definition store_plan :: "SdkPlan \<Rightarrow> Plan" where
  "store_plan p = \<lparr>PL_Nodes = map store_node (sp_Nodes p), PL_Edges = map store_edge (sp_Edges p)\<rparr>"

lemma dec_node_canon: "dec_node (canon (plan_node_json n)) = Some (store_node n)"
  by (simp add: plan_node_json_def dec_node_def obj_of_def dec_string_def map_of_go_map store_node_def)

lemma dec_edge_canon: "dec_edge (canon (plan_edge_json e)) = Some (store_edge e)"
  by (simp add: plan_edge_json_def dec_edge_def obj_of_def dec_string_def map_of_go_map store_edge_def omit_str_def)

lemma dec_all_map: "(\<And>x. f (g x) = Some (h x)) \<Longrightarrow> dec_all f (map g xs) = Some (map h xs)"
  by (induction xs) auto

lemma dec_list_slice:
  "(\<And>x. f (canon (g x)) = Some (h x)) \<Longrightarrow> dec_list f (Some (canon (slice_json g xs))) = Some (map h xs)"
  by (simp add: dec_list_def slice_json_def canon_elems_map dec_all_map [of f "canon \<circ> g" h, unfolded comp_def] comp_def)

lemma dec_plan_canon: "dec_plan (Some (canon (plan_json p))) = Some (store_plan p)"
  using dec_list_slice [of dec_node plan_node_json store_node, OF dec_node_canon]
    dec_list_slice [of dec_edge plan_edge_json store_edge, OF dec_edge_canon]
  by (simp add: plan_json_def dec_plan_def obj_of_def map_of_go_map store_plan_def)

lemma lit_plan: "lit_json (plan_json p)"
  by (auto simp: plan_json_def slice_json_def lit_elems_iff plan_node_json_def plan_edge_json_def omit_str_def)

lemma plan_json_obj: "\<exists>m. canon (plan_json p) = JObj m"
  by (simp add: plan_json_def)

subsection \<open>Properties\<close>


definition sample_sdk_plan :: SdkPlan where
  "sample_sdk_plan = langgraph_plan \<lparr>lg_RunID = ''r'', lg_Nodes = [\<lparr>lg_ID = ''a'', lg_Type = ''tool'', lg_Metadata = []\<rparr>, \<lparr>lg_ID = ''b'', lg_Type = ''llm'', lg_Metadata = []\<rparr>],
     lg_Edges = [\<lparr>lg_From = ''a'', lg_To = ''b''\<rparr>], lg_Events = []\<rparr>"


subsubsection \<open>What a client makes of a claimed task\<close>

lemma lowers:
  "lower ''TaskID'' = ''taskid''" "lower ''WorkflowID'' = ''workflowid''" "lower ''NodeID'' = ''nodeid''" "lower ''Agent'' = ''agent''"
  "lower ''Status'' = ''status''" "lower ''Priority'' = ''priority''" "lower ''PriorityLane'' = ''prioritylane''"
  "lower ''InputJSON'' = ''inputjson''" "lower ''OutputJSON'' = ''outputjson''" "lower ''PolicyResultJSON'' = ''policyresultjson''"
  "lower ''ClaimedBy'' = ''claimedby''" "lower ''ClaimedAt'' = ''claimedat''" "lower ''LastHeartbeat'' = ''lastheartbeat''"
  "lower ''TimeoutSec'' = ''timeoutsec''" "lower ''AttemptCount'' = ''attemptcount''" "lower ''MaxAttempts'' = ''maxattempts''"
  "lower ''DeadLettered'' = ''deadlettered''" "lower ''CompletedAt'' = ''completedat''" "lower ''FailedReason'' = ''failedreason''"
  "lower ''CreatedAt'' = ''createdat''" "lower ''UpdatedAt'' = ''updatedat''" "lower ''task_id'' = ''task_id''"
  "lower ''workflow_id'' = ''workflow_id''" "lower ''node_id'' = ''node_id''" "lower ''agent'' = ''agent''" "lower ''status'' = ''status''"
  "lower ''input_json'' = ''input_json''" "lower ''output_json'' = ''output_json''" "lower ''attempt_count'' = ''attempt_count''"
  "lower ''max_attempts'' = ''max_attempts''" "lower ''priority_lane'' = ''priority_lane''"
  by code_simp+

lemma decode_task: "decode_struct task_fields (task_json t) = ([(''agent'', JStr (T_Agent t)), (''status'', JStr (T_Status t))], True)"
  by (simp add: task_fields_def task_json_def decode_struct_def member_def lowers)

lemma task_json_not_null: "task_json t \<noteq> JNull"
  by (simp add: task_json_def)

lemma decode_claim:
  "decode_struct [(''task'', FAny)] (JObj [(''ok'', JBool True), (''task'', task_json t)]) = ([(''task'', task_json t)], True)"
  by (simp add: decode_struct_def member_def task_json_def)

text \<open>The answers of the server to a claim, through authentication and the mux.\<close>

definition claim_answer :: "response \<Rightarrow> bool" where
  "claim_answer resp \<longleftrightarrow> (\<exists>code body. resp = [(code, body)] \<and>
     (code \<ge> 400 \<or> (\<exists>v. body = JObj (go_map [(''ok'', JBool True), (''task'', v)]) \<and> (v = JNull \<or> (\<exists>t. v = task_json t)))))"

lemma claim_answers:
  assumes "app H bin (client_request c ''GET'' ''/tasks/next'' q []) d = (Ok resp, d')"
  shows "claim_answer resp"
proof -
  let ?r = "client_request c ''GET'' ''/tasks/next'' q []"
  have err: "claim_answer (api_writeErr code msg)" if "code \<ge> 400" for code msg
    using that by (simp add: claim_answer_def api_writeErr_def writeJSON_def)
  have "claim_answer resp" if "mux H bin (contextWithActor ?r a) e = (Ok resp, d')" for a e
  proof (cases "q ''agent'' = []")
    case True
    then show ?thesis using that err [of 400]
      by (auto simp: mux_def Register_def contextWithActor_def client_request_def HasPrefix_def handleTaskNext_def claimNextTask_def
          returnM_def Let_def)
  next
    case False
    then have "orErr (ClaimNextTask (q ''agent'')) (db500 H) (\<lambda>task. returnM (writeJSON 200 [(''ok'', JBool True),
        (''task'', case task of None \<Rightarrow> JNull | Some t \<Rightarrow> task_json t)])) e = (Ok resp, d')"
      using that by (simp add: mux_def Register_def contextWithActor_def client_request_def HasPrefix_def handleTaskNext_def
          claimNextTask_def Let_def)
    then show ?thesis
    proof (cases rule: orErr_cases)
      case (err e)
      then show ?thesis by (simp add: claim_answer_def db500_def api_writeErr_def writeJSON_def)
    next
      case (ok task d1)
      then show ?thesis by (auto simp: returnM_def claim_answer_def writeJSON_def split: option.splits)
    qed
  qed
  moreover have "claim_answer [writeErr code msg]" if "code \<ge> 400" for code msg
    using that by (simp add: claim_answer_def writeErr_def)
  ultimately show ?thesis using assms
    by (auto simp: app_def Middleware_def Let_def bindM_Ok tryM_Ok returnM_def client_request_def split: if_splits sum.splits option.splits)
qed

lemma client_do_Ok:
  assumes "client_do c r d = (Ok j, d')"
  shows "\<exists>resp. cl_server c r d = (Ok resp, d') \<and> (\<exists>code more. resp = (code, j) # more \<and> \<not> code \<ge> 400)"
proof -
  obtain res d1 where t: "tryM (cl_server c r) d = (Ok res, d1)" and k: "(case res of Inl e \<Rightarrow> failM (EWrap (''request '' @ rq_method r @ '' '' @ rq_path r) (EMsg ''EOF''))
       | Inr [] \<Rightarrow> failM (EMsg ''EOF'')
       | Inr ((code, body) # _) \<Rightarrow> if code \<ge> 400 then failM (EMsg (''ACP API '' @ rq_method r @ '' '' @ rq_path r @ '': '' @ show_int code @ '' '' @
           fstr (fst (decode_struct [(''error'', FStr)] body)) ''error'')) else returnM body) d1 = (Ok j, d')"
    using assms unfolding client_do_def bindM_Ok by blast
  show ?thesis
  proof (cases res)
    case (Inl e)
    then show ?thesis using k by (simp add: failM_def)
  next
    case (Inr resp)
    then obtain code body more where "resp = (code, body) # more"
      using k by (cases resp) (auto simp: failM_def)
    then show ?thesis using t k Inr by (auto simp: tryM_Ok failM_def returnM_def split: if_splits)
  qed
qed

text \<open>
  C40: the client loses every task it claims. The server answers with the Go names of the
  fields and the client expects other names, so after a successful claim the client holds a
  task without task id, workflow id, node id and input, and can neither complete nor fail it.
\<close>
theorem sdk_claim_loses_task:
  assumes "cl_server c = app H bin" and "sdk_ClaimTask c agent d = (Ok (Some t), d')"
  shows "st_TaskID t = [] \<and> st_WorkflowID t = [] \<and> st_NodeID t = [] \<and> st_InputJSON t = JNull"
proof -
  obtain j d1 where g: "client_get c ''/tasks/next'' (\<lambda>k. if k = ''agent'' then agent else []) d = (Ok j, d1)"
    and rest: "bindM (decodeM [(''task'', FAny)] j) (\<lambda>resp. if fany resp ''task'' = JNull then returnM None
      else bindM (decodeM task_fields (fany resp ''task'')) (\<lambda>r. returnM (Some (task_of_struct r)))) d1 = (Ok (Some t), d')"
    using assms(2) by (auto simp: sdk_ClaimTask_def bindM_Ok)
  obtain resp where a: "app H bin (client_request c ''GET'' ''/tasks/next'' (\<lambda>k. if k = ''agent'' then agent else []) []) d = (Ok resp, d1)"
    and j: "\<exists>code more. resp = (code, j) # more \<and> \<not> code \<ge> 400"
    using client_do_Ok [OF g [unfolded client_get_def]] assms(1) by auto
  obtain v where v: "j = JObj (go_map [(''ok'', JBool True), (''task'', v)])" "v = JNull \<or> (\<exists>x. v = task_json x)"
    using claim_answers [OF a] j by (auto simp: claim_answer_def)
  have "go_map [(''ok'', JBool True), (''task'', v)] = [(''ok'', JBool True), (''task'', v)]" by (rule go_map_sorted) simp
  then have dm: "decode_struct [(''task'', FAny)] j = (if v = JNull then [] else [(''task'', v)], True)"
    using v(2) by (auto simp: v(1) decode_struct_def member_def task_json_def)
  show ?thesis
  proof (cases "v = JNull")
    case True
    then show ?thesis using rest dm by (simp add: decodeM_def bindM_Ok returnM_def fany_def)
  next
    case False
    then obtain x where x: "v = task_json x" using v(2) by blast
    then have "t = task_of_struct [(''agent'', JStr (T_Agent x)), (''status'', JStr (T_Status x))]"
      using rest dm False by (auto simp: decodeM_def bindM_Ok returnM_def fany_def decode_task)
    then show ?thesis by (simp add: task_of_struct_def fstr_def fany_def)
  qed
qed

definition sample_client :: Client where
  "sample_client = \<lparr>cl_apiKey = ''k'', cl_server = app sample_H ''fardrun''\<rparr>"

definition sample_served :: dbs where
  "sample_served = handle_of ''sqlite3'' (sample_queue\<lparr>t_actors := [actor_row_of plain_crypto (handle_of ''sqlite3'' sample_queue []) sample_actor ''k'']\<rparr>) []"

theorem sdk_claim_loses_task_witness:
  "\<exists>t d'. sdk_ClaimTask sample_client ''a'' sample_served = (Ok (Some t), d') \<and> st_TaskID t = [] \<and> st_InputJSON t = JNull"
proof -
  have q: "quiet sample_served" by (simp add: sample_served_def quiet_handle)
  have "map_outcome_val (map_option AC_ActorID) (fst (ResolveAPIKey plain_crypto ''k'' sample_served)) = Ok (Some ''ann'')" by code_simp
  then obtain a where a: "ResolveAPIKey plain_crypto ''k'' sample_served = (Ok (Some a), sample_served)"
    using q by (auto simp: ResolveAPIKey_def)
  have "map_outcome_val (map_option T_TaskID) (fst (ClaimNextTask ''a'' sample_served)) = Ok (Some ''t2'')" by code_simp
  then obtain x d' where x: "ClaimNextTask ''a'' sample_served = (Ok (Some x), d')"
    by (cases "ClaimNextTask ''a'' sample_served"; cases "fst (ClaimNextTask ''a'' sample_served)") auto
  have g: "go_map [(''ok'', JBool True), (''task'', task_json x)] = [(''ok'', JBool True), (''task'', task_json x)]"
    by (rule go_map_sorted) simp
  have "app sample_H ''fardrun'' (client_request sample_client ''GET'' ''/tasks/next'' (\<lambda>k. if k = ''agent'' then ''a'' else []) [])
      sample_served = (Ok (writeJSON 200 [(''ok'', JBool True), (''task'', task_json x)]), d')"
    by (simp add: app_def Middleware_def client_request_def sample_client_def extractKey_def TrimPrefix_def sample_H_def bindM_def tryM_def a
        mux_def Register_def contextWithActor_def HasPrefix_def handleTaskNext_def claimNextTask_def Let_def
        orErr_Ok [where m = "ClaimNextTask ''a''", OF x] returnM_def)
  then have "\<exists>t. sdk_ClaimTask sample_client ''a'' sample_served = (Ok (Some t), d')"
    by (simp add: sdk_ClaimTask_def client_get_def client_do_def sample_client_def client_request_def bindM_def tryM_def writeJSON_def g
        returnM_def decodeM_def decode_claim task_json_not_null fany_def decode_task)
  then obtain t where c: "sdk_ClaimTask sample_client ''a'' sample_served = (Ok (Some t), d')" by blast
  have "cl_server sample_client = app sample_H ''fardrun''" by (simp add: sample_client_def)
  from sdk_claim_loses_task [OF this c] c show ?thesis by blast
qed

end
