(* ===== verification/History.thy ===== *)
theory History
  imports Daemon
begin

section \<open>The chains of the whole service\<close>

text \<open>
  That no run of the daemon on Postgres breaks a receipt or delta chain, from the empty
  database on, whatever clients send and the engine fails, as long as the bridge's programs
  give a transition the sequence number after that of the state they are given
  (\<open>bridge_steps\<close>). The store does not check the number it is given, so this is a property of
  all handlers together: a handler hands the newest snapshot to the bridge, and the invariant
  \<open>hist_ok\<close> relates the number in that snapshot's state to the receipts and deltas that are
  already there. The handlers are taken through small triples \<open>pg_run\<close> with one postcondition
  for a result and one for an error; those that leave the history alone are instances of
  \<open>side_statements\<close>.
\<close>

subsection \<open>The invariant\<close>

text \<open>The member \<open>seq\<close> of a state.\<close>

definition json_seq :: "string \<Rightarrow> int option" where
  "json_seq s = (case unmarshal_map s of None \<Rightarrow> None
     | Some m \<Rightarrow> (case map_of m ''seq'' of Some (JInt i) \<Rightarrow> Some i | _ \<Rightarrow> None))"

definition refs_ok :: "tables \<Rightarrow> bool" where
  "refs_ok t \<longleftrightarrow> list_all (\<lambda>r. key_used wf_id (rc_workflow_id r) (t_workflows t)) (t_receipts t) \<and>
     list_all (\<lambda>r. key_used wf_id (dl_workflow_id r) (t_workflows t)) (t_deltas t) \<and>
     list_all (\<lambda>r. key_used wf_id (sn_workflow_id r) (t_workflows t)) (t_snapshots t)"

text \<open>The number after \<open>j\<close> is taken, or it is after all numbers of the workflow.\<close>

definition next_ok :: "string \<Rightarrow> int \<Rightarrow> tables \<Rightarrow> bool" where
  "next_ok w j t \<longleftrightarrow> key_used rc_key (w, j + 1) (t_receipts t) \<or>
     list_all (\<lambda>r. rc_workflow_id r = w \<longrightarrow> rc_seq r \<le> j) (t_receipts t) \<and>
     list_all (\<lambda>r. dl_workflow_id r = w \<longrightarrow> dl_seq r \<le> j) (t_deltas t)"

abbreviation newest :: "string \<Rightarrow> tables \<Rightarrow> snapshot_row option" where
  "newest w \<equiv> latest_snapshot_row (\<lambda>x. sn_workflow_id x = w)"

definition hist_ok :: "tables \<Rightarrow> bool" where
  "hist_ok t \<longleftrightarrow> history_ok t \<and> refs_ok t \<and>
     (\<forall>w r j. newest w t = Some r \<longrightarrow> json_seq (sn_state_json r) = Some j \<longrightarrow> next_ok w j t)"

lemma newest_frame: "t_snapshots t' = t_snapshots t \<Longrightarrow> newest w t' = newest w t"
  by (simp add: latest_snapshot_row_def)

lemma newest_replace:
  assumes "keys_ok t" and "t_snapshots t' = replace_row sn_key x (t_snapshots t)" and "newest w t' = Some r"
  shows "r = x \<or> newest w t = Some r"
proof (cases "r = x")
  case False
  note r = latest_snapshot_Some [OF assms(3)]
  then have in_t: "r \<in> set (t_snapshots t)" "sn_key r \<noteq> sn_key x" and x: "sn_workflow_id x = w \<Longrightarrow> sn_seq x \<le> sn_seq r"
    using False by (auto simp: assms(2) replace_row_def)
  have "newest w t = Some r"
  proof (rule latest_snapshot_unique [OF assms(1) in_t(1)])
    fix y assume y: "y \<in> set (t_snapshots t)" "sn_workflow_id y = w"
    show "sn_seq y \<le> sn_seq r"
      using r x y by (cases "sn_key y = sn_key x") (auto simp: assms(2) replace_row_def)
  qed (use r in simp_all)
  then show ?thesis ..
qed simp

lemma newest_used: "refs_ok t \<Longrightarrow> newest w t = Some r \<Longrightarrow> key_used wf_id w (t_workflows t)"
  by (auto simp: refs_ok_def list_all_iff dest!: latest_snapshot_Some)

lemma hist_empty: "hist_ok empty_tables"
  using keys_ok_empty
  by (auto simp: hist_ok_def history_ok_def receipts_linked_def deltas_linked_def refs_ok_def
      empty_tables_def latest_snapshot_row_def)

text \<open>Changes that leave receipts, deltas and snapshots alone.\<close>

lemma hist_frame:
  assumes "hist_ok t" and "keys_ok t'" and "t_receipts t' = t_receipts t" and "t_deltas t' = t_deltas t"
    and "t_snapshots t' = t_snapshots t" and "\<And>w. key_used wf_id w (t_workflows t) \<Longrightarrow> key_used wf_id w (t_workflows t')"
  shows "hist_ok t'"
proof -
  have "history_ok t'" using assms(1-4) by (auto simp: hist_ok_def intro: history_frame)
  moreover have "refs_ok t'" using assms(1,3-6) by (auto simp: hist_ok_def refs_ok_def list_all_iff)
  moreover have "newest w t' = newest w t" for w by (rule newest_frame [OF assms(5)])
  ultimately show ?thesis using assms(1,3,4) by (simp add: hist_ok_def next_ok_def)
qed

text \<open>A new snapshot.\<close>

lemma hist_upsert:
  assumes h: "hist_ok t" and u: "key_used wf_id (sn_workflow_id x) (t_workflows t)"
    and n: "\<And>j. json_seq (sn_state_json x) = Some j \<Longrightarrow> next_ok (sn_workflow_id x) j t"
    and t': "t' = t\<lparr>t_snapshots := replace_row sn_key x (t_snapshots t)\<rparr>"
  shows "hist_ok t'"
proof -
  have k: "keys_ok t" using h by (simp add: hist_ok_def history_ok_def)
  have "keys_ok t'" using k by (simp add: keys_ok_def t' distinct_replace_row)
  then have "history_ok t'" using h by (auto simp: hist_ok_def t' intro: history_frame)
  moreover have "refs_ok t'" using h u by (auto simp: hist_ok_def refs_ok_def t' list_all_iff replace_row_def)
  moreover have "next_ok w j t'" if "newest w t' = Some r" "json_seq (sn_state_json r) = Some j" for w r j
  proof -
    have "t_snapshots t' = replace_row sn_key x (t_snapshots t)" by (simp add: t')
    from newest_replace [OF k this that(1)] have "next_ok w j t"
    proof
      assume "r = x"
      with n that latest_snapshot_Some [OF that(1)] show ?thesis by simp
    qed (use h that(2) in \<open>auto simp: hist_ok_def\<close>)
    then show ?thesis by (simp add: next_ok_def t')
  qed
  ultimately show ?thesis by (simp add: hist_ok_def)
qed

lemma next_ok_unborn: "refs_ok t \<Longrightarrow> \<not> key_used wf_id w (t_workflows t) \<Longrightarrow> next_ok w j t"
  by (auto simp: refs_ok_def next_ok_def list_all_iff)

text \<open>A transition with the number after that of the state it started from.\<close>

lemma hist_transition:
  assumes h: "hist_ok t" and s: "newest w t = Some r" "json_seq (sn_state_json r) = Some j"
    and res: "TR_Seq res = j + 1" "json_seq (TR_StateJSON res) = Some (j + 1)"
    and ok: "transition_ok fk w res t"
    and l: "pr = latest_receipt_digest w t" "pd = latest_delta_hash w t"
  shows "hist_ok (transition_tables w res djson dhash pr pd ts t)"
proof -
  let ?t = "transition_tables w res djson dhash pr pd ts t"
  have k: "keys_ok t" using h by (simp add: hist_ok_def history_ok_def)
  have "next_ok w j t" using h s by (auto simp: hist_ok_def)
  then have lt: "\<And>x. x \<in> set (t_receipts t) \<Longrightarrow> rc_workflow_id x = w \<Longrightarrow> rc_seq x \<le> j"
    "\<And>x. x \<in> set (t_deltas t) \<Longrightarrow> dl_workflow_id x = w \<Longrightarrow> dl_seq x \<le> j"
    using ok res(1) by (auto simp: next_ok_def transition_ok_def list_all_iff)
  have hi: "history_ok ?t"
    using transition_history_above [of t fk w res pr pd djson dhash ts] h ok l lt res(1)
    by (force simp: hist_ok_def)
  have "key_used wf_id w (t_workflows t)" using h s by (auto simp: hist_ok_def intro: newest_used)
  then have "refs_ok ?t" using h
    by (auto simp: hist_ok_def refs_ok_def transition_tables_def list_all_iff replace_row_def new_receipt_def new_delta_def
        new_snapshot_def key_used_def map_update_where simp flip: set_map)
  moreover have "next_ok v i ?t" if v: "newest v ?t = Some x" "json_seq (sn_state_json x) = Some i" for v x i
  proof -
    have "t_snapshots ?t = replace_row sn_key (new_snapshot w res ts) (t_snapshots t)" by (simp add: transition_tables_def)
    from newest_replace [OF k this v(1)] show ?thesis
    proof
      assume x: "x = new_snapshot w res ts"
      then have "v = w" "i = j + 1"
        using latest_snapshot_Some [OF v(1)] v(2) res(2) by (simp_all add: new_snapshot_def)
      then show ?thesis using lt res(1)
        by (fastforce simp: next_ok_def transition_tables_def list_all_iff new_receipt_def new_delta_def)
    next
      assume x: "newest v t = Some x"
      then have "next_ok v i t" using h v(2) by (auto simp: hist_ok_def)
      moreover have "i = j" if "v = w" using that x s v(2) by simp
      ultimately show ?thesis using res(1)
        by (auto simp: next_ok_def transition_tables_def new_receipt_def new_delta_def key_used_def)
    qed
  qed
  ultimately show ?thesis using hi by (simp add: hist_ok_def)
qed

subsection \<open>Triples on Postgres\<close>

text \<open>
  From committed tables with \<open>P\<close>, a result \<open>a\<close> leaves \<open>Q a\<close>; an error, or a call that never
  returns, leaves \<open>E\<close>.
\<close>

definition pg_run :: "(tables \<Rightarrow> bool) \<Rightarrow> 'a dbm \<Rightarrow> ('a \<Rightarrow> tables \<Rightarrow> bool) \<Rightarrow> (tables \<Rightarrow> bool) \<Rightarrow> bool" where
  "pg_run P m Q E \<longleftrightarrow> (\<forall>d r d'. IsPostgres d \<longrightarrow> P (pool_tables d) \<longrightarrow> m d = (r, d') \<longrightarrow>
     IsPostgres d' \<and> (case r of Ok a \<Rightarrow> Q a (pool_tables d') | _ \<Rightarrow> E (pool_tables d')))"

abbreviation hist_safe :: "'a dbm \<Rightarrow> bool" where
  "hist_safe m \<equiv> pg_run hist_ok m (\<lambda>_. hist_ok) hist_ok"

lemma pg_runD:
  "pg_run P m Q E \<Longrightarrow> IsPostgres d \<Longrightarrow> P (pool_tables d) \<Longrightarrow> m d = (r, d') \<Longrightarrow>
   IsPostgres d' \<and> (case r of Ok a \<Rightarrow> Q a (pool_tables d') | _ \<Rightarrow> E (pool_tables d'))"
  by (auto simp: pg_run_def)

lemma pg_runI:
  "(\<And>d r d'. IsPostgres d \<Longrightarrow> P (pool_tables d) \<Longrightarrow> m d = (r, d') \<Longrightarrow>
     IsPostgres d' \<and> (case r of Ok a \<Rightarrow> Q a (pool_tables d') | _ \<Rightarrow> E (pool_tables d'))) \<Longrightarrow> pg_run P m Q E"
  by (simp add: pg_run_def)

lemma pg_keeps: "keeps I m \<Longrightarrow> pg_run I m (\<lambda>_. I) I"
proof (rule pg_runI)
  fix d r d' assume k: "keeps I m" and d: "IsPostgres d" "I (pool_tables d)" and m: "m d = (r, d')"
  from keepsE [OF k m] d show "IsPostgres d' \<and> (case r of Ok a \<Rightarrow> I (pool_tables d') | _ \<Rightarrow> I (pool_tables d'))"
    by (simp add: IsPostgres_def split: outcome.split)
qed

lemma pg_pre: "pg_run P m Q E \<Longrightarrow> (\<And>t. P' t \<Longrightarrow> P t) \<Longrightarrow> pg_run P' m Q E"
  by (auto simp: pg_run_def)

lemma pg_post: "pg_run P m Q E \<Longrightarrow> (\<And>a t. Q a t \<Longrightarrow> Q' a t) \<Longrightarrow> (\<And>t. E t \<Longrightarrow> E' t) \<Longrightarrow> pg_run P m Q' E'"
proof (rule pg_runI)
  fix d r d'
  assume q: "\<And>a t. Q a t \<Longrightarrow> Q' a t" "\<And>t. E t \<Longrightarrow> E' t" and "pg_run P m Q E" "IsPostgres d" "P (pool_tables d)" "m d = (r, d')"
  from pg_runD [OF this(3-6)] q
  show "IsPostgres d' \<and> (case r of Ok a \<Rightarrow> Q' a (pool_tables d') | _ \<Rightarrow> E' (pool_tables d'))"
    by (cases r) simp_all
qed

lemma pg_return: "(\<And>t. P t \<Longrightarrow> Q a t) \<Longrightarrow> pg_run P (returnM a) Q E"
  by (auto simp: pg_run_def returnM_def)

lemma pg_fail: "(\<And>t. P t \<Longrightarrow> E t) \<Longrightarrow> pg_run P (failM e) Q E"
  by (auto simp: pg_run_def failM_def)

lemma pg_bind:
  assumes "pg_run P m R E" and "\<And>a. pg_run (R a) (k a) Q E"
  shows "pg_run P (bindM m k) Q E"
proof (rule pg_runI)
  fix d r d' assume d: "IsPostgres d" "P (pool_tables d)" and b: "bindM m k d = (r, d')"
  obtain x d1 where m: "m d = (x, d1)" by (cases "m d")
  from pg_runD [OF assms(1) d m] b m pg_runD [OF assms(2)]
  show "IsPostgres d' \<and> (case r of Ok a \<Rightarrow> Q a (pool_tables d') | _ \<Rightarrow> E (pool_tables d'))"
    by (cases x) auto
qed

lemma pg_wrap:
  assumes "pg_run P m Q E"
  shows "pg_run P (wrapM msg m) Q E"
proof (rule pg_runI)
  fix d r d' assume d: "IsPostgres d" "P (pool_tables d)" and w: "wrapM msg m d = (r, d')"
  obtain x d1 where m: "m d = (x, d1)" by (cases "m d")
  from pg_runD [OF assms d m] w m
  show "IsPostgres d' \<and> (case r of Ok a \<Rightarrow> Q a (pool_tables d') | _ \<Rightarrow> E (pool_tables d'))" by (cases x) auto
qed

lemma pg_try:
  assumes "pg_run P m Q E"
  shows "pg_run P (tryM m) (\<lambda>res t. case res of Inl e \<Rightarrow> E t | Inr a \<Rightarrow> Q a t) E"
proof (rule pg_runI)
  fix d r d' assume d: "IsPostgres d" "P (pool_tables d)" and w: "tryM m d = (r, d')"
  obtain x d1 where m: "m d = (x, d1)" by (cases "m d")
  from pg_runD [OF assms d m] w m
  show "IsPostgres d' \<and> (case r of Ok a \<Rightarrow> (case a of Inl e \<Rightarrow> E (pool_tables d') | Inr b \<Rightarrow> Q b (pool_tables d'))
      | _ \<Rightarrow> E (pool_tables d'))" by (cases x) (auto simp: tryM_def)
qed

lemma pg_orErr:
  assumes "pg_run P m R I" and "\<And>a. pg_run (R a) (k a) (\<lambda>_. I) I"
  shows "pg_run P (orErr m f k) (\<lambda>_. I) I"
  unfolding orErr_def
proof (rule pg_bind [OF pg_try [OF assms(1)]])
  fix res show "pg_run (\<lambda>t. case res of Inl e \<Rightarrow> I t | Inr a \<Rightarrow> R a t)
      (case res of Inl e \<Rightarrow> (case e of EPanic s \<Rightarrow> failM e | _ \<Rightarrow> returnM (f e)) | Inr a \<Rightarrow> k a) (\<lambda>_. I) I"
    using assms(2) by (cases res) (auto split: go_error.split intro: pg_return pg_fail)
qed

lemma pg_orMissing:
  assumes "pg_run P m (\<lambda>v t. I t \<and> (\<forall>x. v = Some x \<longrightarrow> R x t)) I" and "\<And>x. pg_run (R x) (k x) (\<lambda>_. I) I"
  shows "pg_run P (orMissing m c s k) (\<lambda>_. I) I"
  unfolding orMissing_def
proof (rule pg_orErr [OF assms(1)])
  fix v show "pg_run (\<lambda>t. I t \<and> (\<forall>x. v = Some x \<longrightarrow> R x t))
      (case v of None \<Rightarrow> returnM (api_writeErr c s) | Some x \<Rightarrow> k x) (\<lambda>_. I) I"
    by (cases v) (auto intro: pg_return pg_pre [OF assms(2)])
qed

lemma pg_if: "(c \<Longrightarrow> pg_run P a Q E) \<Longrightarrow> (\<not> c \<Longrightarrow> pg_run P b Q E) \<Longrightarrow> pg_run P (if c then a else b) Q E"
  by simp

lemma pg_let: "(\<And>x. x = v \<Longrightarrow> pg_run P (f x) Q E) \<Longrightarrow> pg_run P (let x = v in f x) Q E"
  by simp

lemma pg_prod: "(\<And>x y. v = (x, y) \<Longrightarrow> pg_run P (f x y) Q E) \<Longrightarrow> pg_run P (case v of (x, y) \<Rightarrow> f x y) Q E"
  by (simp split: prod.split)

lemma pg_option:
  "(v = None \<Longrightarrow> pg_run P a Q E) \<Longrightarrow> (\<And>x. v = Some x \<Longrightarrow> pg_run P (f x) Q E) \<Longrightarrow>
   pg_run P (case v of None \<Rightarrow> a | Some x \<Rightarrow> f x) Q E"
  by (simp split: option.split)

lemma pg_withActor: "(\<And>a. pg_run P (k a) Q E) \<Longrightarrow> (\<And>t. P t \<Longrightarrow> E t) \<Longrightarrow> pg_run P (withActor v k) Q E"
  unfolding withActor_def by (intro pg_option pg_fail)

lemma pg_query: "pg_run P (query f) (\<lambda>v t. P t \<and> v = f t) P"
proof (rule pg_runI)
  fix d r d' assume d: "IsPostgres d" "P (pool_tables d)" and q: "query f d = (r, d')"
  have "pool_tables d' = pool_tables d" "driver d' = driver d"
    using query_same [OF q] driver_framed [OF framed_query q] by simp_all
  with d q query_OkD [of f d] show "IsPostgres d' \<and> (case r of Ok a \<Rightarrow> P (pool_tables d') \<and> a = f (pool_tables d') | _ \<Rightarrow> P (pool_tables d'))"
    by (auto simp: IsPostgres_def split: outcome.split)
qed

lemma pg_row:
  assumes "\<And>r. pg_run (\<lambda>t. hist_ok t \<and> newest w t = Some r) (k (scanSnapshot r)) Q E"
  shows "pg_run (\<lambda>t. hist_ok t \<and> Some x = map_option scanSnapshot (newest w t)) (k x) Q E"
proof (rule pg_runI)
  fix d r d' assume d: "IsPostgres d" "hist_ok (pool_tables d) \<and> Some x = map_option scanSnapshot (newest w (pool_tables d))"
    and k: "k x d = (r, d')"
  from d(2) obtain row where row: "hist_ok (pool_tables d) \<and> newest w (pool_tables d) = Some row" "x = scanSnapshot row"
    by (cases "newest w (pool_tables d)") auto
  from pg_runD [OF assms d(1) row(1)] k row(2)
  show "IsPostgres d' \<and> (case r of Ok a \<Rightarrow> Q a (pool_tables d') | _ \<Rightarrow> E (pool_tables d'))" by blast
qed

text \<open>A handler that goes on only with the newest snapshot.\<close>

lemma pg_newest:
  assumes "\<And>r. pg_run (\<lambda>t. hist_ok t \<and> newest w t = Some r) (k (scanSnapshot r)) (\<lambda>_. hist_ok) hist_ok"
  shows "hist_safe (orMissing (GetLatestSnapshot w) c s k)"
proof (rule pg_orMissing [where R = "\<lambda>x t. hist_ok t \<and> Some x = map_option scanSnapshot (newest w t)"])
  show "pg_run hist_ok (GetLatestSnapshot w)
      (\<lambda>v t. hist_ok t \<and> (\<forall>x. v = Some x \<longrightarrow> hist_ok t \<and> Some x = map_option scanSnapshot (newest w t))) hist_ok"
    unfolding GetLatestSnapshot_def by (rule pg_post [OF pg_query]) auto
qed (rule pg_row [OF assms])

subsection \<open>Commits\<close>

text \<open>A result with the number after that of the state in the snapshot \<open>r\<close>.\<close>

definition steps_on :: "snapshot_row \<Rightarrow> TransitionResult \<Rightarrow> bool" where
  "steps_on r res \<longleftrightarrow> (\<exists>j. json_seq (sn_state_json r) = Some j \<and> TR_Seq res = j + 1 \<and> json_seq (TR_StateJSON res) = Some (j + 1))"

interpretation untouched: statement_invariant "\<lambda>_. True"
  by unfold_locales simp_all

lemma pg_step:
  assumes "keeps (\<lambda>_. True) m"
    and "\<And>d r d'. IsPostgres d \<Longrightarrow> P (pool_tables d) \<Longrightarrow> m d = (r, d') \<Longrightarrow>
      (case r of Ok a \<Rightarrow> Q a (pool_tables d') | _ \<Rightarrow> E (pool_tables d'))"
  shows "pg_run P m Q E"
  using assms(2) keepsE [OF assms(1)] by (intro pg_runI) (simp add: IsPostgres_def)

lemma hist_add_artifact: "hist_ok t \<Longrightarrow> hist_ok (add_artifact p ts t)"
  by (rule hist_frame) (auto simp: hist_ok_def history_ok_def keys_add_artifact)

lemma hist_resolve_gate: "hist_ok t \<Longrightarrow> hist_ok (resolve_gate k rs who ts t)"
  by (rule hist_frame) (auto simp: hist_ok_def history_ok_def keys_resolve_gate)

lemma hist_block:
  "hist_ok t \<Longrightarrow> hist_ok (t\<lparr>t_workflows := update_where (\<lambda>r. wf_id r = w) (block_workflow res ts) (t_workflows t)\<rparr>)"
proof (rule hist_frame, assumption)
  let ?ws = "update_where (\<lambda>r. wf_id r = w) (block_workflow res ts) (t_workflows t)"
  have ids: "map wf_id ?ws = map wf_id (t_workflows t)" by (rule map_update_where) (simp add: block_workflow_def)
  assume "hist_ok t"
  then show "keys_ok (t\<lparr>t_workflows := ?ws\<rparr>)" using ids by (simp add: hist_ok_def history_ok_def keys_ok_def)
  show "key_used wf_id v (t_workflows (t\<lparr>t_workflows := ?ws\<rparr>))" if "key_used wf_id v (t_workflows t)" for v
    using that by (simp add: key_used_def ids flip: set_map)
qed simp_all

lemma pg_CommitTransition:
  assumes "steps_on r (CP_Result p)"
  shows "pg_run (\<lambda>t. hist_ok t \<and> newest (CP_WorkflowID p) t = Some r) (CommitTransition C p) (\<lambda>_. hist_ok) hist_ok"
proof (rule pg_step [OF untouched.keeps_CommitTransition])
  fix d x d' assume d: "hist_ok (pool_tables d) \<and> newest (CP_WorkflowID p) (pool_tables d) = Some r"
    and c: "CommitTransition C p d = (x, d')"
  obtain j where j: "json_seq (sn_state_json r) = Some j" "TR_Seq (CP_Result p) = j + 1"
    "json_seq (TR_StateJSON (CP_Result p)) = Some (j + 1)" using assms by (auto simp: steps_on_def)
  show "case x of Ok a \<Rightarrow> hist_ok (pool_tables d') | _ \<Rightarrow> hist_ok (pool_tables d')"
    using commit_transition_step [OF c] d j
    by (auto simp: commit_guard_def commit_spec_def intro: hist_transition split: outcome.splits)
qed

lemma pg_CommitArtifact:
  assumes "steps_on r (AP_Result p)"
  shows "pg_run (\<lambda>t. hist_ok t \<and> newest (AP_WorkflowID p) t = Some r) (CommitArtifact C p) (\<lambda>_. hist_ok) hist_ok"
proof (rule pg_step [OF untouched.keeps_CommitArtifact])
  fix d x d' assume pg: "IsPostgres d" and d: "hist_ok (pool_tables d) \<and> newest (AP_WorkflowID p) (pool_tables d) = Some r"
    and c: "CommitArtifact C p d = (x, d')"
  obtain j where j: "json_seq (sn_state_json r) = Some j" "TR_Seq (AP_Result p) = j + 1"
    "json_seq (TR_StateJSON (AP_Result p)) = Some (j + 1)" using assms by (auto simp: steps_on_def)
  let ?t = "add_artifact p (now d) (pool_tables d)"
  have t: "hist_ok ?t" "newest (AP_WorkflowID p) ?t = Some r"
    using d hist_add_artifact newest_frame [of ?t "pool_tables d"] by auto
  show "case x of Ok a \<Rightarrow> hist_ok (pool_tables d') | _ \<Rightarrow> hist_ok (pool_tables d')"
  proof (cases "\<exists>u. x = Ok u")
    case True
    then obtain pr pd where "reads True (pool_tables d) (AP_WorkflowID p) pr pd"
      "transition_ok (fk_on d) (AP_WorkflowID p) (AP_Result p) (pool_tables d)"
      "pool_tables d' = artifact_spec C p (now d) pr pd (pool_tables d)"
      using commit_artifact_step [OF c] pg by auto
    then have "hist_ok (pool_tables d')"
      using hist_transition [OF t j, where fk = "fk_on d"] by (simp add: artifact_spec_def reads_def)
    with True show ?thesis by auto
  qed (use commit_artifact_step [OF c] d in \<open>auto split: outcome.splits\<close>)
qed

lemma pg_CommitGateResolution:
  assumes "TR_OK res \<Longrightarrow> steps_on r res"
  shows "pg_run (\<lambda>t. hist_ok t \<and> newest w t = Some r) (CommitGateResolution C w token resolution who res every) (\<lambda>_. hist_ok) hist_ok"
proof (rule pg_step [OF untouched.keeps_CommitGateResolution])
  fix d x d' assume pg: "IsPostgres d" and d: "hist_ok (pool_tables d) \<and> newest w (pool_tables d) = Some r"
    and c: "CommitGateResolution C w token resolution who res every d = (x, d')"
  let ?t = "resolve_gate token resolution who (now d) (pool_tables d)"
  have t: "hist_ok ?t" "newest w ?t = Some r"
    using d hist_resolve_gate newest_frame [of ?t "pool_tables d"] by auto
  show "case x of Ok a \<Rightarrow> hist_ok (pool_tables d') | _ \<Rightarrow> hist_ok (pool_tables d')"
  proof (cases "\<exists>u. x = Ok u")
    case True
    then obtain pr pd where s: "TR_OK res \<longrightarrow> reads True (pool_tables d) w pr pd \<and> transition_ok (fk_on d) w res (pool_tables d)"
      "pool_tables d' = gate_spec C w token resolution who res (now d) pr pd (pool_tables d)"
      using commit_gate_step [OF c] pg by auto
    have "hist_ok (pool_tables d')"
    proof (cases "TR_OK res")
      case ok: True
      then obtain j where "json_seq (sn_state_json r) = Some j" "TR_Seq res = j + 1" "json_seq (TR_StateJSON res) = Some (j + 1)"
        using assms by (auto simp: steps_on_def)
      from hist_transition [OF t this, where fk = "fk_on d"] s ok show ?thesis by (simp add: gate_spec_def Let_def reads_def)
    next
      case False
      with s(2) hist_block [OF t(1)] show ?thesis by (simp add: gate_spec_def Let_def)
    qed
    with True show ?thesis by auto
  qed (use commit_gate_step [OF c] d in \<open>auto split: outcome.splits\<close>)
qed

subsection \<open>Operations that start or mark a workflow\<close>

lemma pg_SaveSnapshot:
  assumes "\<And>t. P t \<Longrightarrow> hist_ok t \<and> key_used wf_id (S_WorkflowID x) (t_workflows t)"
    and "\<And>t j. P t \<Longrightarrow> json_seq (S_StateJSON x) = Some j \<Longrightarrow> next_ok (S_WorkflowID x) j t"
  shows "pg_run P (Tx (SaveSnapshot x)) (\<lambda>_. hist_ok) hist_ok"
proof (rule pg_step [OF keeps_Tx [OF untouched.body_SaveSnapshot]])
  fix d r d' assume p: "P (pool_tables d)" and t: "Tx (SaveSnapshot x) d = (r, d')"
  have "case r of Ok a \<Rightarrow> (\<exists>fk ts. insertOrReplaceSnapshot fk \<lparr>sn_workflow_id = S_WorkflowID x, sn_seq = S_Seq x,
        sn_state_json = S_StateJSON x, sn_state_hash = S_StateHash x, sn_created_at = ts\<rparr> (pool_tables d) = Inr (1, pool_tables d'))
    | _ \<Rightarrow> pool_tables d' = pool_tables d"
    by (rule tx.run_step [OF framed_SaveSnapshot _ t]) (blast dest: SaveSnapshot_Ok)
  moreover have "hist_ok t'" if "insertOrReplaceSnapshot fk \<lparr>sn_workflow_id = S_WorkflowID x, sn_seq = S_Seq x,
      sn_state_json = S_StateJSON x, sn_state_hash = S_StateHash x, sn_created_at = ts\<rparr> (pool_tables d) = Inr (1, t')" for fk ts t'
    by (rule hist_upsert [where t = "pool_tables d" and x = "\<lparr>sn_workflow_id = S_WorkflowID x, sn_seq = S_Seq x,
        sn_state_json = S_StateJSON x, sn_state_hash = S_StateHash x, sn_created_at = ts\<rparr>"])
      (use assms p that in \<open>auto simp: insertOrReplaceSnapshot_def split: if_splits\<close>)
  ultimately show "case r of Ok a \<Rightarrow> hist_ok (pool_tables d') | _ \<Rightarrow> hist_ok (pool_tables d')"
    using assms(1) [OF p] by (cases r) auto
qed

lemma pg_CreateWorkflow:
  "pg_run hist_ok (CreateWorkflow x)
     (\<lambda>_ t. hist_ok t \<and> key_used wf_id (W_WorkflowID x) (t_workflows t) \<and> (\<forall>j. next_ok (W_WorkflowID x) j t)) hist_ok"
proof (rule pg_step [OF untouched.keeps_CreateWorkflow])
  fix d r d' assume h: "hist_ok (pool_tables d)" and c: "CreateWorkflow x d = (r, d')"
  obtain y d1 where e: "exec (stmt_insert_workflow (workflow_row_of x (now d))) d = (y, d1)"
    by (cases "exec (stmt_insert_workflow (workflow_row_of x (now d))) d")
  have d1: "d' = d1" using c e by (cases y) (auto simp: CreateWorkflow_def returnM_def)
  show "case r of Ok a \<Rightarrow> hist_ok (pool_tables d') \<and> key_used wf_id (W_WorkflowID x) (t_workflows (pool_tables d')) \<and>
      (\<forall>j. next_ok (W_WorkflowID x) j (pool_tables d')) | _ \<Rightarrow> hist_ok (pool_tables d')"
  proof (cases y)
    case (Ok n)
    let ?t = "pool_tables d"
    have i: "\<not> key_used wf_id (W_WorkflowID x) (t_workflows ?t)"
      "pool_tables d' = ?t\<lparr>t_workflows := t_workflows ?t @ [workflow_row_of x (now d)]\<rparr>"
      using exec_pool [OF e] Ok
      by (auto simp: d1 stmt_insert_workflow_def insert_row_def workflow_row_of_def split: option.splits if_splits)
    have "keys_ok (pool_tables d')" using i h
      by (auto simp: hist_ok_def history_ok_def keys_ok_def key_used_def workflow_row_of_def)
    then have "hist_ok (pool_tables d')" by (rule hist_frame [OF h]) (auto simp: i key_used_def)
    moreover have "next_ok (W_WorkflowID x) j (pool_tables d')" for j
      using next_ok_unborn [OF _ i(1)] h by (simp add: hist_ok_def next_ok_def i(2))
    ultimately show ?thesis by (simp add: i key_used_def workflow_row_of_def split: outcome.split)
  qed (use exec_pool [OF e] c e h in \<open>auto simp: CreateWorkflow_def\<close>)
qed

lemma hist_fork: "hist_ok t \<Longrightarrow> fork_free p t \<Longrightarrow> hist_ok (fork_tables p parent h j s ts t)"
proof -
  assume h: "hist_ok t" and f: "fork_free p t"
  let ?t = "t\<lparr>t_workflows := t_workflows t @ [forked_workflow p parent s ts], t_branches := t_branches t @ [branch_row_of (fork_branch p h) ts]\<rparr>"
  let ?x = "\<lparr>sn_workflow_id = FP_NewWorkflowID p, sn_seq = 0, sn_state_json = j, sn_state_hash = s, sn_created_at = ts\<rparr>"
  have new: "wf_id (forked_workflow p parent s ts) = FP_NewWorkflowID p"
    "br_branch_id (branch_row_of (fork_branch p h) ts) = FP_NewWorkflowID p"
    by (simp_all add: forked_workflow_def branch_row_of_def fork_branch_def)
  have "keys_ok ?t" using h f by (auto simp: hist_ok_def history_ok_def keys_ok_def fork_free_def key_used_def new)
  then have t: "hist_ok ?t" by (rule hist_frame [OF h]) (auto simp: key_used_def)
  have "next_ok (FP_NewWorkflowID p) i t" for i using next_ok_unborn h f by (auto simp: hist_ok_def fork_free_def)
  then show ?thesis
    by (intro hist_upsert [OF t, where x = ?x]) (simp_all add: fork_tables_def next_ok_def key_used_def new)
qed

lemma pg_CommitFork: "pg_run hist_ok (CommitFork p j s) (\<lambda>_. hist_ok) hist_ok"
proof (rule pg_step [OF untouched.keeps_CommitFork])
  fix d r d' assume "hist_ok (pool_tables d)" and "CommitFork p j s d = (r, d')"
  then show "case r of Ok a \<Rightarrow> hist_ok (pool_tables d') | _ \<Rightarrow> hist_ok (pool_tables d')"
    using CommitFork_step [of p j s d] by (auto simp: fork_effect_def intro: hist_fork split: outcome.splits)
qed

text \<open>Marking a node keeps the number in the state.\<close>

lemma json_seq_mark:
  assumes "unmarshal_map s = Some state" and "map_of state ''plan'' = Some (JObj plan)"
  shows "json_seq (marshal (JObj (map_put ''plan'' (JObj (mark_plan i plan)) state))) = json_seq s"
proof -
  have w: "wf_json (JObj state)" using unmarshal_map_wf [OF assms(1)] .
  have "wf_json (JObj (map_put ''plan'' (JObj (mark_plan i plan)) state))"
    using w wf_mark_plan [OF wf_map_of [OF w assms(2)]] by (rule wf_map_put)
  from unmarshal_map_marshal [OF this] show ?thesis by (simp add: json_seq_def assms(1) map_of_map_put)
qed

lemma pg_mark_and_save:
  "pg_run (\<lambda>t. hist_ok t \<and> newest w t = Some r) (mark_and_save w i (scanSnapshot r)) (\<lambda>_. hist_ok) hist_ok"
proof (cases "\<exists>state plan. unmarshal_map (sn_state_json r) = Some state \<and> map_of state ''plan'' = Some (JObj plan)")
  case True
  then obtain state plan where st: "unmarshal_map (sn_state_json r) = Some state" "map_of state ''plan'' = Some (JObj plan)"
    by blast
  let ?x = "\<lparr>S_WorkflowID = w, S_Seq = wrap64 (sn_seq r + 1),
      S_StateJSON = marshal (JObj (map_put ''plan'' (JObj (mark_plan i plan)) state)),
      S_StateHash = ''sha256:plan-node-'' @ i @ ''-done'', S_CreatedAt = None\<rparr>"
  have q: "json_seq (S_StateJSON ?x) = json_seq (sn_state_json r)" using json_seq_mark [OF st] by (simp del: marshal.simps)
  have "pg_run (\<lambda>t. hist_ok t \<and> newest w t = Some r) (Tx (SaveSnapshot ?x)) (\<lambda>_. hist_ok) hist_ok"
    by (rule pg_SaveSnapshot) (simp_all only: q, auto simp: hist_ok_def newest_used)
  then show ?thesis using st by (simp add: mark_and_save_def scanSnapshot_def del: marshal.simps)
next
  case False
  have f: "pg_run (\<lambda>t. hist_ok t \<and> newest w t = Some r) (failM e) (\<lambda>_. hist_ok) hist_ok" for e :: go_error and w
    by (rule pg_fail) simp
  from False show ?thesis
    by (auto simp: mark_and_save_def scanSnapshot_def f split: option.split json.split)
qed

lemma pg_MarkPlanNodeDone: "hist_safe (MarkPlanNodeDone w i)"
  unfolding MarkPlanNodeDone_def GetLatestSnapshot_def
proof (rule pg_bind [OF pg_wrap [OF pg_query]])
  fix v
  let ?P = "\<lambda>t. hist_ok t \<and> v = map_option scanSnapshot (newest w t)"
  show "pg_run ?P (case v of None \<Rightarrow> failM (EMsg ''get snapshot: %!w(<nil>)'') | Some s \<Rightarrow> mark_and_save w i s) (\<lambda>_. hist_ok) hist_ok"
  proof (cases v)
    case (Some s)
    show ?thesis unfolding Some option.case by (rule pg_row [OF pg_mark_and_save])
  qed (auto intro: pg_fail)
qed

text \<open>The statements on tasks, dead letters and anchors.\<close>

interpretation hist_side: side_statements hist_ok
proof unfold_locales
  fix fk r t n t' assume "stmt_insert_task fk r t = Inr (n, t')" and h: "hist_ok t"
  then show "hist_ok t'"
    by (intro hist_frame [OF h])
      (use h keys_insert_task in \<open>auto simp: hist_ok_def history_ok_def stmt_insert_task_def split: if_splits\<close>)
next
  fix r t n t' assume "stmt_insert_anchor r t = Inr (n, t')" and h: "hist_ok t"
  then show "hist_ok t'"
    by (intro hist_frame [OF h])
      (use h keys_insert_anchor in \<open>auto simp: hist_ok_def history_ok_def stmt_insert_anchor_def split: option.splits\<close>)
next
  fix pg r t n t' assume "stmt_ignore_dead_letter pg r t = Inr (n, t')" and h: "hist_ok t"
  then show "hist_ok t'"
    by (intro hist_frame [OF h])
      (use h keys_ignore_dead_letter in \<open>auto simp: hist_ok_def history_ok_def stmt_ignore_dead_letter_def split: if_splits\<close>)
next
  fix R h' t n t' assume "stmt_update_task R h' t = Inr (n, t')" "\<And>x. tk_task_id (h' x) = tk_task_id x" and h: "hist_ok t"
  then show "hist_ok t'"
    by (intro hist_frame [OF h])
      (use h keys_update_task in \<open>auto simp: hist_ok_def history_ok_def stmt_update_task_def\<close>)
qed

subsection \<open>The contract of the bridge\<close>

definition transition_programs :: "string list" where
  "transition_programs = [''transition.fard'', ''commit_artifact.fard'', ''gate_resume.fard'']"

text \<open>An accepted transition carries the number after that of the state it was given, and so does its state.\<close>

definition bridge_steps :: "Handlers \<Rightarrow> bool" where
  "bridge_steps H \<longleftrightarrow> (\<forall>program \<in> set transition_programs. \<forall>text m sj raw res.
     unmarshal text = Some (JObj m) \<longrightarrow> map_of m ''state_json'' = Some (JStr sj) \<longrightarrow>
     h_fardrun H program text = Inr raw \<longrightarrow> unwrap_result raw = Inr (Some (JObj res)) \<longrightarrow> member res ''ok'' = Some (JBool True) \<longrightarrow>
     (\<exists>j s. json_seq sj = Some j \<and> int64_range (j + 1) \<and> member res ''seq'' = Some (JInt (j + 1)) \<and>
        member res ''state_json'' = Some (JStr s) \<and> json_seq s = Some (j + 1)))"

lemma decode_fields_Cons:
  "fst (decode_fields ((k, f) # fs) m) = (case member m k of None \<Rightarrow> fst (decode_fields fs m)
     | Some v \<Rightarrow> if v \<noteq> JNull \<and> fits f v then (k, v) # fst (decode_fields fs m) else fst (decode_fields fs m))"
  by (cases "decode_fields fs m") (simp split: option.split json.split)

lemma decode_fields_keys: "fst ` set (fst (decode_fields fs m)) \<subseteq> fst ` set fs"
proof (induction fs)
  case (Cons kf fs)
  then show ?case by (cases kf) (auto simp del: decode_fields.simps simp: decode_fields_Cons split: option.split)
qed simp

lemma decode_field:
  assumes "distinct (map fst fs)" and "map_of fs k = Some f"
  shows "map_of (fst (decode_fields fs m)) k =
    (case member m k of None \<Rightarrow> None | Some v \<Rightarrow> if v \<noteq> JNull \<and> fits f v then Some v else None)"
  using assms
proof (induction fs)
  case (Cons kf fs)
  obtain k' f' where kf: "kf = (k', f')" by (cases kf)
  show ?case
  proof (cases "k = k'")
    case True
    have "map_of (fst (decode_fields fs m)) k' = None"
      using decode_fields_keys [of fs m] Cons.prems(1) by (auto simp: map_of_eq_None_iff kf)
    then show ?thesis using True Cons.prems(2) by (auto simp del: decode_fields.simps simp: kf decode_fields_Cons split: option.splits)
  next
    case False
    then have "map_of (fst (decode_fields (kf # fs) m)) k = map_of (fst (decode_fields fs m)) k"
      by (auto simp del: decode_fields.simps simp: kf decode_fields_Cons split: option.splits)
    with Cons False show ?thesis by (simp add: kf del: decode_fields.simps)
  qed
qed simp

lemma go_map_lit: "lit_members kvs \<Longrightarrow> lit_members (go_map kvs)"
  using set_go_map [of kvs] by (auto simp: lit_members_iff)

lemma map_of_canon: "map_of (canon_members kvs) k = map_option canon (map_of kvs k)"
  by (induction kvs) (auto simp: canon_members_map)

lemma canon_go_map: "canon (JObj (go_map kvs)) = JObj (canon_members (go_map kvs))"
proof -
  have "map fst (canon_members m) = map fst m" for m by (induction m) (auto simp: canon_members_map)
  then have "sorted_keys (canon_members (go_map kvs))" using sorted_go_map [of kvs] by simp
  from go_map_sorted [OF this] show ?thesis by simp
qed

lemma bridge_step:
  assumes "bridge_steps H" and "program \<in> set transition_programs" and "RunAndUnmarshal H program input fs = (res, e)"
    and "fbool res ''ok''" and "lit_members input" and "map_of (rev input) ''state_json'' = Some (JStr (S_StateJSON (scanSnapshot r)))"
    and "distinct (map fst fs)" and "map_of fs ''ok'' = Some FBool" "map_of fs ''seq'' = Some FInt" "map_of fs ''state_json'' = Some FStr"
  shows "steps_on r (result_of res pol)"
proof -
  let ?text = "marshal (JObj (go_map input))"
  have "lit_json (JObj (go_map input))" using go_map_lit [OF assms(5)] by simp
  then have u: "unmarshal ?text = Some (JObj (canon_members (go_map input)))" by (simp only: unmarshal_canon canon_go_map)
  have st: "map_of (canon_members (go_map input)) ''state_json'' = Some (JStr (sn_state_json r))"
    using assms(6) by (simp add: map_of_canon map_of_go_map scanSnapshot_def)
  obtain raw m where raw: "h_fardrun H program ?text = Inr raw" "unwrap_result raw = Inr (Some (JObj m))" "fst (decode_fields fs m) = res"
    using assms(3,4) by (auto simp: RunAndUnmarshal_def bridge_Run_def decode_struct_def fbool_def simp del: marshal.simps
        split: sum.splits option.splits json.splits prod.splits)
  note f = decode_field [OF assms(7), where m = m, unfolded raw(3)]
  have "member m ''ok'' = Some (JBool True)"
    using assms(4) f [OF assms(8)] by (auto simp: fbool_def split: option.splits if_splits)
  with assms(1,2) u st raw obtain j s where "json_seq (sn_state_json r) = Some j" "int64_range (j + 1)"
    "member m ''seq'' = Some (JInt (j + 1))" "member m ''state_json'' = Some (JStr s)" "json_seq s = Some (j + 1)"
    unfolding bridge_steps_def by blast
  then show ?thesis using f [OF assms(9)] f [OF assms(10)]
    by (simp add: steps_on_def result_of_def fint_def fstr_def)
qed

subsection \<open>Handlers\<close>

text \<open>What the handlers send to the bridge is read back.\<close>

lemma lit_strings: "lit_json (case v of None \<Rightarrow> JNull | Some l \<Rightarrow> JArr (map JStr l))"
  by (auto simp: lit_elems_iff split: option.split)

lemma lit_actor: "lit_json (actor_json a)"
  using lit_strings by (auto simp: actor_json_def lit_members_iff omit_strings_def lit_elems_iff split: option.split if_splits)

lemma decode_fields_values: "v \<in> snd ` set (fst (decode_fields fs m)) \<Longrightarrow> v \<in> snd ` set m"
proof (induction fs)
  case (Cons kf fs)
  have "v \<in> snd ` set m" if mem: "member m k = Some v" for k
  proof (cases "map_of m k")
    case None
    then obtain kv where "find (\<lambda>kv. lower (fst kv) = lower k) m = Some kv" "v = snd kv"
      using mem None by (auto simp: member_def)
    then show ?thesis by (auto simp: find_Some_iff)
  next
    case (Some x)
    then show ?thesis using mem map_of_SomeD [OF Some] by (force simp: member_def)
  qed
  with Cons show ?case
    by (cases kf) (auto simp del: decode_fields.simps simp: decode_fields_Cons split: option.splits if_splits)
qed simp

lemma patch_lit: "wf_json j \<Longrightarrow> dec_patch j = Some p \<Longrightarrow> lit_json (patch_json p)"
proof -
  assume w: "wf_json j" and d: "dec_patch j = Some p"
  have v: "lit_json (fany (fst (decode_fields fs m)) k)" if "j = JObj m" for fs m k
  proof (cases "map_of (fst (decode_fields fs m)) k")
    case (Some x)
    then have "x \<in> snd ` set m" using decode_fields_values [of x fs m] by (force dest: map_of_SomeD)
    then have "lit_json x" using w that wf_canon(1) by (auto simp: wf_members_iff)
    then show ?thesis by (simp add: fany_def Some)
  qed (simp add: fany_def)
  have "(\<exists>m. j = JObj m \<and> snd p = fany (fst (decode_fields [(''path'', FStr), (''value'', FAny)] m)) ''value'') \<or> snd p = JNull"
    using d by (cases j) (auto simp: dec_patch_def decode_struct_def fany_def simp del: decode_fields.simps
        split: prod.splits if_splits)
  then have "lit_json (snd p)" using v by (auto simp del: decode_fields.simps)
  then show ?thesis using go_map_lit [of "[(''path'', JStr (fst p)), (''value'', snd p)]"] by (simp add: patch_json_def)
qed

lemma dec_all_lit: "wf_elems vs \<Longrightarrow> dec_all dec_patch vs = Some ps \<Longrightarrow> lit_elems (map patch_json ps)"
  by (induction vs arbitrary: ps) (auto split: option.splits intro: patch_lit)

lemma patches_lit: "dec_patches r = Some ps \<Longrightarrow> lit_json (patches_json (map_option (map patch_json) ps))"
proof -
  assume d: "dec_patches r = Some ps"
  have "lit_elems (map patch_json l)" if l: "ps = Some l" for l
  proof -
    obtain m vs where u: "unmarshal (rq_body r) = Some (JObj m)" and "map_of m ''patches'' = Some (JArr vs)" "dec_all dec_patch vs = Some l"
      using d l by (auto simp: dec_patches_def split: option.splits json.splits)
    with wf_map_of [OF unmarshal_wf [OF u]] dec_all_lit show ?thesis by fastforce
  qed
  then show ?thesis by (auto simp: patches_json_def split: option.split)
qed

lemma hist_safe_pre: "hist_safe m \<Longrightarrow> pg_run (\<lambda>t. hist_ok t \<and> P t) m (\<lambda>_. hist_ok) hist_ok"
  by (erule pg_pre) simp

lemma pg_done: "(\<And>t. P t \<Longrightarrow> hist_ok t) \<Longrightarrow> pg_run P (returnM a) (\<lambda>_. hist_ok) hist_ok"
  by (rule pg_return)

lemma pg_orErr_done: "pg_run P m (\<lambda>_. hist_ok) hist_ok \<Longrightarrow> pg_run P (orErr m f (\<lambda>x. returnM (g x))) (\<lambda>_. hist_ok) hist_ok"
  by (rule pg_orErr) (auto intro: pg_return)

lemma hist_editState:
  assumes "bridge_steps H"
  shows "hist_safe (editState H i r)"
proof -
  have "pg_run (\<lambda>t. hist_ok t \<and> newest i t = Some row)
      (CommitTransition (h_crypto H) (edit_params H i a patches res)) (\<lambda>_. hist_ok) hist_ok"
    if "dec_patches r = Some patches" "edit_run H (ActorFromContext r) patches (scanSnapshot row) = (res, None)" "fbool res ''ok''"
    for row a patches res
  proof -
    have "steps_on row (result_of res (fbool res ''policy_ok''))"
      by (rule bridge_step [OF assms _ that(2) [unfolded edit_run_def] that(3)])
        (use lit_actor patches_lit [OF that(1)] in \<open>simp_all add: transition_programs_def result_fields_def\<close>)
    then show ?thesis using pg_CommitTransition [of row "edit_params H i a patches res"] by (simp add: edit_params_def)
  qed
  then show ?thesis unfolding editState_def
    by (intro pg_if pg_let pg_option pg_newest pg_prod pg_withActor pg_orErr_done pg_done) simp_all
qed

lemma hist_commitArtifact:
  assumes "bridge_steps H"
  shows "hist_safe (commitArtifact H i r)"
proof -
  have "steps_on row (result_of res False)"
    if "res = fst (RunAndUnmarshal H ''commit_artifact.fard'' [(''state_json'', JStr (S_StateJSON (scanSnapshot row))),
          (''actor'', actor_json (ActorFromContext r)), (''artifact_json'', JStr (rq_body r)),
          (''tool_version'', JStr ''tool-gateway-1.0.0'')] (result_fields @ [(''digest'', FStr)]))" "fbool res ''ok''" for row res
    by (rule bridge_step [OF assms _ surjective_pairing, where fs = "result_fields @ [(''digest'', FStr)]"
          and program = "''commit_artifact.fard''" and input = "[(''state_json'', JStr (S_StateJSON (scanSnapshot row))),
          (''actor'', actor_json (ActorFromContext r)), (''artifact_json'', JStr (rq_body r)),
          (''tool_version'', JStr ''tool-gateway-1.0.0'')]", folded that(1)])
      (use lit_actor that(2) in \<open>simp_all add: transition_programs_def result_fields_def\<close>)
  then show ?thesis unfolding commitArtifact_def
    by (intro pg_if pg_let pg_newest pg_withActor pg_orErr_done pg_done)
      (auto intro: pg_CommitArtifact [where p = "\<lparr>AP_WorkflowID = i, AP_ArtifactJSON = j, AP_ArtifactDigest = g, AP_Result = x,
          AP_ActorID = w, AP_SnapshotEvery = n\<rparr>" for j g x w n, simplified])
qed

lemma hist_resumeGate:
  assumes "bridge_steps H"
  shows "hist_safe (resumeGate H w token r)"
proof -
  have "TR_OK (result_of res False) \<Longrightarrow> steps_on row (result_of res False)"
    if "RunAndUnmarshal H ''gate_resume.fard'' [(''state_json'', JStr (S_StateJSON (scanSnapshot row))),
         (''actor'', actor_json (ActorFromContext r)), (''token'', JStr token), (''resolution'', JStr resolution),
         (''tool_version'', JStr ''human'')] (result_fields @ [(''error'', FStr)]) = (res, e)" for row res e resolution
    by (rule bridge_step [OF assms _ that])
      (use lit_actor in \<open>simp_all add: transition_programs_def result_fields_def result_of_def\<close>)
  note commit = pg_CommitGateResolution [OF this]
  have gate: "pg_run hist_ok (GetGate token) (\<lambda>v t. hist_ok t \<and> (\<forall>x. v = Some x \<longrightarrow> hist_ok t)) hist_ok"
    by (rule pg_post [OF pg_keeps [OF keeps_reads(11)]]) auto
  show ?thesis unfolding resumeGate_def
    by (intro pg_if pg_let pg_prod pg_orMissing [OF gate] pg_newest pg_option pg_withActor pg_orErr_done pg_done commit) simp_all
qed

lemma hist_safeD: "hist_safe m \<Longrightarrow> IsPostgres d \<Longrightarrow> hist_ok (pool_tables d) \<Longrightarrow> m d = (r, d') \<Longrightarrow> IsPostgres d' \<and> hist_ok (pool_tables d')"
  using pg_runD [of hist_ok m "\<lambda>_. hist_ok" hist_ok d r d'] by (cases r) auto

lemma pg_env: "(\<And>d. m d = g (h d) d) \<Longrightarrow> (\<And>e. pg_run P (g e) Q E) \<Longrightarrow> pg_run P m Q E"
  by (simp add: pg_run_def)

lemma hist_createWorkflow: "hist_safe (createWorkflow H r)"
proof (rule pg_env [where h = now and g = "\<lambda>ts. createWorkflow_at H ts r"])
  have save: "pg_run (\<lambda>t. hist_ok t \<and> key_used wf_id w (t_workflows t) \<and> (\<forall>j. next_ok w j t))
      (Tx (SaveSnapshot \<lparr>S_WorkflowID = w, S_Seq = 0, S_StateJSON = j, S_StateHash = s, S_CreatedAt = None\<rparr>)) (\<lambda>_. hist_ok) hist_ok"
    for w j s by (rule pg_SaveSnapshot) simp_all
  show "hist_safe (createWorkflow_at H ts r)" for ts
    unfolding createWorkflow_at_def
    by (intro pg_option pg_prod pg_if pg_let pg_orErr [OF pg_CreateWorkflow] pg_orErr_done pg_done pg_fail)
      (simp_all add: save)
qed (simp add: createWorkflow_def)

lemma hist_forkWorkflow: "hist_safe (forkWorkflow H w r)"
  unfolding forkWorkflow_def
  by (intro pg_if pg_prod pg_let pg_newest pg_option pg_orErr_done hist_safe_pre [OF pg_CommitFork] pg_done) simp_all

lemma hist_markNodeDone: "hist_safe (markNodeDone H w n r)"
  unfolding markNodeDone_def by (intro pg_if pg_orErr_done pg_MarkPlanNodeDone pg_done)

lemmas hist_side_handlers = hist_side.side_handlers [THEN pg_keeps]

lemma hist_Register:
  assumes "bridge_steps H" and "\<And>r. hist_safe (other r)"
  shows "hist_safe (Register H other r)"
proof -
  note handlers = hist_editState [OF assms(1)] hist_commitArtifact [OF assms(1)] hist_resumeGate [OF assms(1)]
    hist_createWorkflow hist_forkWorkflow hist_markNodeDone hist_side_handlers
  have "hist_safe (workflow_default H i sub r)" for i sub
    unfolding workflow_default_def by (intro pg_if) (auto intro: handlers pg_done split: list.split)
  then have "hist_safe (handleWorkflow H r)"
    unfolding handleWorkflow_def by (intro pg_prod pg_if pg_done pg_bind [where R = "\<lambda>_. hist_ok"] handlers)
  moreover have "hist_safe (handleInbox H r)" "hist_safe (handleDeadLetter H r)"
    unfolding handleInbox_def handleDeadLetter_def
    by (intro pg_keeps keeps_if keeps_return keeps_orErr keeps_reads hist_side.keeps_read_handlers)+
  ultimately show ?thesis using assms(2)
    unfolding Register_def handleWorkflows_def handleTaskNext_def handleTask_def
    by (intro pg_let pg_if pg_prod handlers pg_done)
qed

lemma hist_app:
  assumes "bridge_steps H"
  shows "hist_safe (app H bin r)"
proof -
  have mux: "hist_safe (mux H bin r)" for r
    unfolding mux_def by (intro hist_Register [OF assms] pg_if pg_keeps [OF keeps_mux_other(1)] pg_keeps [OF keeps_mux_other(2)] pg_done)
  have key: "hist_safe (tryM (ResolveAPIKey C k))" for C k
  proof (rule pg_env [where h = "\<lambda>d. hashAPIKey C d k" and
        g = "\<lambda>h. tryM (query (\<lambda>t. map_option scanActor (find_row ac_api_key_hash h (t_actors t))))"])
    show "hist_safe (tryM (query (\<lambda>t. map_option scanActor (find_row ac_api_key_hash h (t_actors t)))))" for h
      by (intro pg_keeps keeps_try keeps_query)
  qed (simp add: ResolveAPIKey_def tryM_def)
  show ?thesis unfolding app_def Middleware_def
    by (intro pg_if pg_let pg_bind [OF key] mux pg_done) (auto intro: mux pg_done split: sum.split option.split)
qed

subsection \<open>Runs of the daemon\<close>

text \<open>The steps of \<open>daemon_step\<close> in which the bridge follows its contract.\<close>

inductive history_step :: "buckets \<times> dbs \<Rightarrow> buckets \<times> dbs \<Rightarrow> bool" where
  request: "bridge_steps H \<Longrightarrow> serve H bin rl addr len t r st = (res, st') \<Longrightarrow> history_step st st'"
| requeue: "RequeueLoop_tick d = (res, d') \<Longrightarrow> history_step (bs, d) (bs, d')"
| evict: "history_step (bs, d) (cleanup t bs, d)"
| time: "history_step (bs, d) (bs, d\<lparr>clock := c, faults := fs\<rparr>)"

definition history_inv :: "buckets \<times> dbs \<Rightarrow> bool" where
  "history_inv st \<longleftrightarrow> IsPostgres (snd st) \<and> hist_ok (pool_tables (snd st))"

lemma history_step_inv: "history_step st st' \<Longrightarrow> history_inv st \<Longrightarrow> history_inv st'"
proof (induction rule: history_step.induct)
  case (request H bin rl addr len t r st res st')
  obtain bs d bs' d' where st: "st = (bs, d)" "st' = (bs', d')" by (cases st; cases st')
  have d: "IsPostgres d" "hist_ok (pool_tables d)" using request.prems by (simp_all add: history_inv_def st)
  from serve_cases [OF request.hyps(2) [unfolded st]] show ?case
    using d hist_safeD [OF hist_app [OF request.hyps(1)] d] by (auto simp: history_inv_def st)
next
  case (requeue d res d' bs)
  then show ?case
    using hist_safeD [OF pg_keeps [OF hist_side.keeps_RequeueLoop_tick] _ _ requeue.hyps] by (simp add: history_inv_def)
qed (auto simp: history_inv_def IsPostgres_def pool_tables_def split: option.splits)

text \<open>A database in which no workflow was recorded yet; actors may have been seeded.\<close>

definition no_history :: "tables \<Rightarrow> bool" where
  "no_history t \<longleftrightarrow> keys_ok t \<and> t_workflows t = [] \<and> t_receipts t = [] \<and> t_deltas t = [] \<and> t_snapshots t = []"

interpretation daemon_history: stepping_system "\<lambda>st. IsPostgres (snd st) \<and> no_history (pool_tables (snd st))" history_step history_inv
proof
  show "history_inv st" if "IsPostgres (snd st) \<and> no_history (pool_tables (snd st))" for st
    using that by (auto simp: history_inv_def no_history_def hist_ok_def history_ok_def receipts_linked_def deltas_linked_def
        refs_ok_def latest_snapshot_row_def)
qed (blast intro: history_step_inv)

subsection \<open>A bridge that follows the contract\<close>

text \<open>It adds one to the number of the state it is given, starts with zero, and keeps nothing else.\<close>

definition counting_answer :: "int \<Rightarrow> (string \<times> json) list" where
  "counting_answer n = [(''ok'', JBool True), (''receipt_digest'', JStr (''r'' @ show_int n)), (''receipt_json'', JStr ''{}''),
     (''seq'', JInt n), (''state_hash'', JStr (''h'' @ show_int n)), (''state_json'', JStr (marshal (JObj [(''seq'', JInt n)])))]"

definition counting_fardrun :: "string \<Rightarrow> string \<Rightarrow> go_error + string" where
  "counting_fardrun program text =
     (case unmarshal text of
        Some (JObj m) \<Rightarrow> (case map_of m ''state_json'' of
            Some (JStr sj) \<Rightarrow> (case json_seq sj of
                Some j \<Rightarrow> if int64_range (j + 1) then Inr (marshal (JObj [(''result'', JObj (counting_answer (j + 1)))]))
                  else Inl (EMsg ''overflow'')
              | None \<Rightarrow> Inl (EMsg ''no seq''))
          | _ \<Rightarrow> Inr (marshal (JObj [(''result'', JObj (counting_answer 0))])))
      | _ \<Rightarrow> Inl (EMsg ''no input''))"

definition counting_H :: Handlers where
  "counting_H = \<lparr>h_fardrun = counting_fardrun, h_uuid = ''u1'', h_crypto = plain_crypto, h_snapshotEvery = 10,
     h_dberr = (\<lambda>e. ''db''), h_trunc = (\<lambda>s. 0)\<rparr>"

lemma json_seq_counting: "json_seq (marshal (JObj [(''seq'', JInt n)])) = Some n"
  using unmarshal_map_marshal [of "[(''seq'', JInt n)]"] by (simp add: json_seq_def)

lemma counting_steps: "bridge_steps counting_H"
  unfolding bridge_steps_def
proof (intro ballI allI impI)
  fix program input m sj raw res
  assume t: "unmarshal input = Some (JObj m)" "map_of m ''state_json'' = Some (JStr sj)" "h_fardrun counting_H program input = Inr raw"
    and u: "unwrap_result raw = Inr (Some (JObj res))"
  obtain j where j: "json_seq sj = Some j" "int64_range (j + 1)"
    and raw: "raw = marshal (JObj [(''result'', JObj (counting_answer (j + 1)))])"
    using t by (auto simp: counting_H_def counting_fardrun_def simp del: marshal.simps split: option.splits if_splits)
  have "wf_json (JObj [(''result'', JObj (counting_answer (j + 1)))])" by (simp add: counting_answer_def)
  from unmarshal_marshal [OF this] u have "res = counting_answer (j + 1)"
    by (simp add: raw unwrap_result_def member_def del: marshal.simps)
  then have "member res ''seq'' = Some (JInt (j + 1))"
    "member res ''state_json'' = Some (JStr (marshal (JObj [(''seq'', JInt (j + 1))])))"
    by (simp_all add: counting_answer_def member_def del: marshal.simps)
  with j json_seq_counting show "\<exists>j s. json_seq sj = Some j \<and> int64_range (j + 1) \<and> member res ''seq'' = Some (JInt (j + 1)) \<and>
      member res ''state_json'' = Some (JStr s) \<and> json_seq s = Some (j + 1)" by blast
qed

definition post :: "string \<Rightarrow> string \<Rightarrow> buckets \<times> dbs \<Rightarrow> buckets \<times> dbs" where
  "post path body st = snd (serve counting_H ''fardrun'' 0 ''10.0.0.1:99'' 0 7 (sample_request ''POST'' path body) st)"

lemma post_step: "history_step\<^sup>*\<^sup>* st0 st \<Longrightarrow> history_step\<^sup>*\<^sup>* st0 (post path body st)"
  unfolding post_def by (erule rtranclp.rtrancl_into_rtrancl, rule history_step.request [OF counting_steps surjective_pairing])

text \<open>A client creates a workflow and edits it twice.\<close>

definition two_edits :: "buckets \<times> dbs" where
  "two_edits = post ''/workflows/w/state/edit'' ''{}'' (post ''/workflows/w/state/edit'' ''{}''
     (post ''/workflows'' (marshal (JObj [(''goal'', JStr ''g''), (''owner'', JStr ''o''), (''workflow_id'', JStr ''w'')]))
       (\<lambda>_. None, handle_of ''pgx'' seeded_tables [])))"

lemma two_edits_reached: "history_step\<^sup>*\<^sup>* (\<lambda>_. None, handle_of ''pgx'' seeded_tables []) two_edits"
  unfolding two_edits_def by (intro post_step rtranclp.rtrancl_refl)

lemma two_edits_receipts: "map rc_prev_receipt_digest (t_receipts (pool_tables (snd two_edits))) = [None, Some ''r1'']"
  by code_simp

subsection \<open>Property\<close>

text \<open>
  C4: no run of the daemon on Postgres breaks a chain. From a database in which no workflow was
  recorded yet, any sequence of requests, requeue ticks, evictions and clock moves, under any
  engine failures, leaves the keys unique and the receipts and the deltas of every workflow
  linked, one chain each, provided the bridge gives an accepted transition the sequence number
  after that of the state it was given; whatever else it answers, and although forks, marked
  plan nodes and refused gates change snapshots and workflow rows outside the chains.
\<close>
theorem daemon_keeps_chains:
  assumes "IsPostgres d" and "no_history (pool_tables d)" and "history_step\<^sup>*\<^sup>* (bs, d) (bs', d')"
  shows "keys_ok (pool_tables d') \<and>
    (\<forall>w. linked_from rc_receipt_digest rc_prev_receipt_digest None (receipts_of w (pool_tables d'))) \<and>
    (\<forall>w. linked_from dl_delta_hash dl_prev_delta_hash None (deltas_of w (pool_tables d')))"
  using daemon_history.inv_reachable [OF _ assms(3)] assms(1,2)
  by (simp add: history_inv_def hist_ok_def history_ok_def receipts_linked_all deltas_linked_all)

theorem daemon_keeps_chains_witness:
  "linked_from rc_receipt_digest rc_prev_receipt_digest None (receipts_of ''w'' (pool_tables (snd two_edits))) \<and>
    map rc_prev_receipt_digest (t_receipts (pool_tables (snd two_edits))) = [None, Some ''r1'']"
proof -
  obtain bs' d' where t: "two_edits = (bs', d')" by (cases two_edits)
  have p: "IsPostgres (handle_of ''pgx'' seeded_tables [])" by (simp add: IsPostgres_def handle_of_def)
  have n: "no_history (pool_tables (handle_of ''pgx'' seeded_tables []))"
    by (simp add: no_history_def seeded_tables_def keys_ok_def empty_tables_def)
  from daemon_keeps_chains [OF p n two_edits_reached [unfolded t]] two_edits_receipts show ?thesis by (simp add: t)
qed

end
