(* ===== verification/ClaimRace.thy ===== *)
theory ClaimRace
  imports Tasks
begin

section \<open>Concurrent claims: store/tasks.go, ClaimNextTask\<close>

text \<open>
  On Postgres the transactions of several workers run at the same time. \<^verbatim>\<open>ClaimNextTask\<close> is
  split here into its statements, and the statements of any number of sessions interleave in
  any order, under the isolation level READ COMMITTED that the code leaves in force: a
  SELECT reads the committed rows, an UPDATE locks the row it writes until its transaction
  ends, and an UPDATE of a locked row waits and then looks at its condition again. Between
  the statements tasks are enqueued, heartbeats arrive and expired claims are requeued or
  dead-lettered; the table of dead letters plays no part and is left out. \<open>rc_won\<close> records
  every claim that was handed out with the attempt it is. Shown: the statement of the
  comment above \<^verbatim>\<open>ClaimNextTask\<close>, that only one of the workers that read the same candidate
  wins it, and that the budget of attempts holds although the UPDATE does not test it.
\<close>

subsection \<open>Sessions\<close>

datatype claim_phase =
    Idle
  | Began string
  | Chosen string string \<comment> \<open>the agent and the candidate it selected\<close>
  | Holding string task_row \<comment> \<open>the new version of the row, locked and not yet committed\<close>
  | Returned "Task option"
  | Aborted

record race =
  rc_tables :: tables
  rc_phase :: "claim_phase list"
  rc_won :: "(nat \<times> string \<times> int) list"

fun held :: "claim_phase \<Rightarrow> string option" where
  "held (Holding agent v) = Some (tk_task_id v)"
| "held _ = None"

definition locked :: "race \<Rightarrow> string \<Rightarrow> bool" where
  "locked s i \<longleftrightarrow> list_ex (\<lambda>ph. held ph = Some i) (rc_phase s)"

datatype race_event =
    Begin nat string
  | SelectCandidate nat
  | UpdateCandidate nat int
  | CommitClaim nat
  | Abort nat
  | Enqueued Task int
  | Beaten string string int
  | Requeued string int

subsection \<open>Steps\<close>

definition set_phase :: "race \<Rightarrow> nat \<Rightarrow> claim_phase \<Rightarrow> race" where
  "set_phase s p ph = s\<lparr>rc_phase := (rc_phase s)[p := ph]\<rparr>"

definition put_rows :: "race \<Rightarrow> task_row list \<Rightarrow> race" where
  "put_rows s rows = s\<lparr>rc_tables := (rc_tables s)\<lparr>t_tasks := rows\<rparr>\<rparr>"

fun claim_event :: "race_event \<Rightarrow> claim_phase \<Rightarrow> race \<Rightarrow> race option" where
  "claim_event (Begin p agent) ph s =
     (case ph of Began _ \<Rightarrow> None | Chosen _ _ \<Rightarrow> None | Holding _ _ \<Rightarrow> None | _ \<Rightarrow> Some (set_phase s p (Began agent)))"
| "claim_event (SelectCandidate p) (Began agent) s =
     Some (set_phase s p (case claim_candidate agent (rc_tables s) of None \<Rightarrow> Returned None | Some i \<Rightarrow> Chosen agent i))"
| "claim_event (UpdateCandidate p ts) (Chosen agent i) s =
     (if locked s i then None
      else Some (set_phase s p (case find (claim_where i) (t_tasks (rc_tables s)) of
          None \<Rightarrow> Returned None
        | Some r \<Rightarrow> Holding agent (claim_set agent ts r))))"
| "claim_event (CommitClaim p) (Holding agent v) s =
     Some ((put_rows (set_phase s p (Returned (Some (scanTask v))))
         (update_where (\<lambda>r. tk_task_id r = tk_task_id v) (\<lambda>_. v) (t_tasks (rc_tables s))))
       \<lparr>rc_won := rc_won s @ [(p, tk_task_id v, tk_attempt_count v)]\<rparr>)"
| "claim_event (Abort p) ph s =
     (case ph of Idle \<Rightarrow> None | Returned _ \<Rightarrow> None | Aborted \<Rightarrow> None | _ \<Rightarrow> Some (set_phase s p Aborted))"
| "claim_event _ _ s = None"

fun session_of :: "race_event \<Rightarrow> nat option" where
  "session_of (Begin p agent) = Some p"
| "session_of (SelectCandidate p) = Some p"
| "session_of (UpdateCandidate p ts) = Some p"
| "session_of (CommitClaim p) = Some p"
| "session_of (Abort p) = Some p"
| "session_of _ = None"

fun queue_event :: "race_event \<Rightarrow> race \<Rightarrow> race option" where
  "queue_event (Enqueued t ts) s =
     (case stmt_insert_task False (task_row_of t ts) (rc_tables s) of Inl e \<Rightarrow> None | Inr (n, t') \<Rightarrow> Some (s\<lparr>rc_tables := t'\<rparr>))"
| "queue_event (Beaten i who ts) s =
     Some (put_rows s (update_where
       (\<lambda>r. tk_task_id r = i \<and> tk_status r = ''claimed'' \<and> tk_claimed_by r = Some who)
       (\<lambda>r. r\<lparr>tk_last_heartbeat := Some ts, tk_updated_at := ts\<rparr>) (t_tasks (rc_tables s))))"
| "queue_event (Requeued i ts) s =
     Some (put_rows s (update_where (\<lambda>r. tk_task_id r = i \<and> expired ts r) (requeue_row ts) (t_tasks (rc_tables s))))"
| "queue_event _ s = None"

definition race_step :: "race_event \<Rightarrow> race \<Rightarrow> race option" where
  "race_step e s =
     (case session_of e of
        None \<Rightarrow> queue_event e s
      | Some p \<Rightarrow> if p < length (rc_phase s) then claim_event e (rc_phase s ! p) s else None)"

definition race_run :: "race_event list \<Rightarrow> race \<Rightarrow> race option" where
  "race_run = run_steps race_step"

inductive race_move :: "race \<Rightarrow> race \<Rightarrow> bool" where
  race_move: "race_step e s = Some s' \<Longrightarrow> race_move s s'"

subsection \<open>The invariant\<close>

text \<open>
  A selected candidate exists and may be tried at least once; the version a session holds is
  the claim of a row that is still pending; no two sessions hold the same row; a pending row
  has attempts left; and the claims handed out are attempts of their rows, no two alike.
\<close>

fun phase_ok :: "task_row list \<Rightarrow> claim_phase \<Rightarrow> bool" where
  "phase_ok rows (Chosen agent i) \<longleftrightarrow> (\<exists>r \<in> set rows. tk_task_id r = i \<and> 0 < tk_max_attempts r)"
| "phase_ok rows (Holding agent v) \<longleftrightarrow>
     (\<exists>r \<in> set rows. claim_where (tk_task_id v) r \<and> 0 < tk_max_attempts r \<and> (\<exists>ts. v = claim_set agent ts r))"
| "phase_ok rows _ \<longleftrightarrow> True"

definition budget_ok :: "task_row \<Rightarrow> bool" where
  "budget_ok r \<longleftrightarrow> 0 \<le> tk_attempt_count r \<and>
     (tk_status r = ''pending'' \<and> tk_dead_lettered r = 0 \<longrightarrow> tk_max_attempts r \<le> 0 \<or> tk_attempt_count r < tk_max_attempts r)"

definition won_ok :: "task_row list \<Rightarrow> nat \<times> string \<times> int \<Rightarrow> bool" where
  "won_ok rows x \<longleftrightarrow> (\<exists>r \<in> set rows. tk_task_id r = fst (snd x) \<and> snd (snd x) \<le> tk_attempt_count r \<and>
     snd (snd x) \<le> tk_max_attempts r)"

definition one_holder :: "claim_phase list \<Rightarrow> bool" where
  "one_holder ps \<longleftrightarrow> (\<forall>p < length ps. \<forall>q < length ps. held (ps ! p) \<noteq> None \<longrightarrow> held (ps ! p) = held (ps ! q) \<longrightarrow> p = q)"

definition race_ok :: "race \<Rightarrow> bool" where
  "race_ok s \<longleftrightarrow> (let rows = t_tasks (rc_tables s) in
     distinct (map tk_task_id rows) \<and> (\<forall>r \<in> set rows. budget_ok r) \<and> (\<forall>ph \<in> set (rc_phase s). phase_ok rows ph) \<and>
     one_holder (rc_phase s) \<and> (\<forall>x \<in> set (rc_won s). won_ok rows x) \<and> distinct (map snd (rc_won s)))"

definition race_start :: "race \<Rightarrow> bool" where
  "race_start s \<longleftrightarrow> distinct (map tk_task_id (t_tasks (rc_tables s))) \<and> list_all budget_ok (t_tasks (rc_tables s)) \<and>
     list_all (\<lambda>ph. ph = Idle) (rc_phase s) \<and> rc_won s = []"

subsection \<open>Changes of the rows\<close>

text \<open>Between the statements of a session every row stays, with its limit, its attempts never decreasing.\<close>

definition grows :: "task_row list \<Rightarrow> task_row list \<Rightarrow> bool" where
  "grows rows rows' \<longleftrightarrow> (\<forall>r \<in> set rows. \<exists>r' \<in> set rows'. tk_task_id r' = tk_task_id r \<and>
     tk_max_attempts r' = tk_max_attempts r \<and> tk_attempt_count r \<le> tk_attempt_count r')"

lemma won_grows: "won_ok rows x \<Longrightarrow> grows rows rows' \<Longrightarrow> won_ok rows' x"
  unfolding won_ok_def grows_def by (metis order.trans)

lemma phase_grows:
  assumes "phase_ok rows ph" and "grows rows rows'" and "\<And>r i. r \<in> set rows \<Longrightarrow> held ph = Some i \<Longrightarrow> claim_where i r \<Longrightarrow> r \<in> set rows'"
  shows "phase_ok rows' ph"
  using assms by (cases ph) (auto simp: grows_def, metis+)

lemma grows_update:
  assumes "\<And>r. r \<in> set rows \<Longrightarrow> P r \<Longrightarrow> tk_task_id (f r) = tk_task_id r \<and> tk_max_attempts (f r) = tk_max_attempts r \<and>
      tk_attempt_count r \<le> tk_attempt_count (f r)"
  shows "grows rows (update_where P f rows)"
  unfolding grows_def
proof
  fix r assume r: "r \<in> set rows"
  then have "(if P r then f r else r) \<in> set (update_where P f rows)" by (auto simp: set_update_where)
  then show "\<exists>r' \<in> set (update_where P f rows). tk_task_id r' = tk_task_id r \<and> tk_max_attempts r' = tk_max_attempts r \<and>
      tk_attempt_count r \<le> tk_attempt_count r'"
    by (rule bexI [rotated]) (use assms [OF r] in auto)
qed

lemma race_ok_rows:
  assumes "race_ok s" and "distinct (map tk_task_id rows')" and "\<forall>r \<in> set rows'. budget_ok r"
    and "grows (t_tasks (rc_tables s)) rows'"
    and "\<And>r. r \<in> set (t_tasks (rc_tables s)) \<Longrightarrow> tk_status r = ''pending'' \<Longrightarrow> r \<in> set rows'"
  shows "race_ok (put_rows s rows')"
  using assms by (auto simp: race_ok_def put_rows_def Let_def won_grows claim_where_def intro: phase_grows)

lemma race_ok_phase:
  assumes "race_ok s" and "p < length (rc_phase s)" and "phase_ok (t_tasks (rc_tables s)) ph"
    and "\<And>i. held ph = Some i \<Longrightarrow> \<not> locked s i"
  shows "race_ok (set_phase s p ph)"
proof -
  have "one_holder (rc_phase s)" using assms(1) by (simp add: race_ok_def Let_def)
  moreover have "held (rc_phase s ! q) \<noteq> held ph" if "q < length (rc_phase s)" "held ph \<noteq> None" for q
    using assms(4) that by (auto simp: locked_def list_ex_iff)
  ultimately have "one_holder ((rc_phase s)[p := ph])"
    using assms(2) by (auto simp: one_holder_def nth_list_update split: if_splits)
  with assms show ?thesis
    by (auto simp: race_ok_def set_phase_def Let_def dest!: set_update_subset_insert [THEN subsetD])
qed

subsection \<open>Every step keeps the invariant\<close>

lemma race_ok_update:
  assumes "race_ok s" and "\<And>r. budget_ok r \<Longrightarrow> P r \<Longrightarrow> tk_status r \<noteq> ''pending'' \<and> budget_ok (f r) \<and> tk_task_id (f r) = tk_task_id r \<and>
      tk_max_attempts (f r) = tk_max_attempts r \<and> tk_attempt_count r \<le> tk_attempt_count (f r)"
  shows "race_ok (put_rows s (update_where P f (t_tasks (rc_tables s))))"
proof (rule race_ok_rows [OF assms(1)])
  let ?rows = "t_tasks (rc_tables s)"
  have b: "\<forall>r \<in> set ?rows. budget_ok r" using assms(1) by (simp add: race_ok_def Let_def)
  show "distinct (map tk_task_id (update_where P f ?rows))"
    using assms by (auto simp: race_ok_def Let_def update_where_def comp_def if_distrib cong: if_cong map_cong)
  show "\<forall>r \<in> set (update_where P f ?rows). budget_ok r"
    using assms by (auto simp: race_ok_def Let_def set_update_where)
  show "grows ?rows (update_where P f ?rows)" using b assms(2) by (intro grows_update) blast
  show "r \<in> set (update_where P f ?rows)" if "r \<in> set ?rows" "tk_status r = ''pending''" for r
    using that b assms(2) [of r] by (force simp: set_update_where)
qed

lemma queue_event_ok:
  assumes "race_ok s" and "queue_event e s = Some s'"
  shows "race_ok s'"
proof (cases e)
  case (Enqueued t ts)
  let ?rows = "t_tasks (rc_tables s)"
  have "\<not> key_used tk_task_id (T_TaskID t) ?rows" and s': "s' = put_rows s (?rows @ [task_row_of t ts])"
    using assms(2) Enqueued by (auto simp: stmt_insert_task_def task_row_of_def put_rows_def split: if_splits)
  moreover have "budget_ok (task_row_of t ts)" by (auto simp: budget_ok_def task_row_of_def)
  moreover have "tk_task_id (task_row_of t ts) = T_TaskID t" by (simp add: task_row_of_def)
  ultimately show ?thesis unfolding s' using assms(1)
    by (intro race_ok_rows) (auto simp: race_ok_def Let_def key_used_def grows_def)
next
  case (Beaten i who ts)
  then show ?thesis using assms by (auto simp: budget_ok_def intro!: race_ok_update)
next
  case (Requeued i ts)
  have "tk_status r \<noteq> ''pending'' \<and> budget_ok (requeue_row ts r) \<and> tk_task_id (requeue_row ts r) = tk_task_id r \<and>
      tk_max_attempts (requeue_row ts r) = tk_max_attempts r \<and> tk_attempt_count r \<le> tk_attempt_count (requeue_row ts r)"
    if "budget_ok r" "expired ts r" for r
    using that by (simp add: budget_ok_def expired_def requeue_row_def requeue_set_def dead_letter_set_def)
  then have "race_ok (put_rows s (update_where (\<lambda>r. tk_task_id r = i \<and> expired ts r) (requeue_row ts) (t_tasks (rc_tables s))))"
    by (intro race_ok_update [OF assms(1)]) blast
  then show ?thesis using assms(2) Requeued by simp
qed (use assms in auto)

lemma chosen_ok:
  assumes "race_ok s" and "claim_candidate agent (rc_tables s) = Some i"
  shows "\<exists>r \<in> set (t_tasks (rc_tables s)). tk_task_id r = i \<and> 0 < tk_max_attempts r"
  using assms by (fastforce simp: claim_candidate_def claimable_def race_ok_def Let_def budget_ok_def dest!: min_by_in)

lemma find_where:
  assumes "find P xs = Some x"
  shows "x \<in> set xs \<and> P x"
  using assms by (auto simp: find_Some_iff)

text \<open>A session that commits holds the one version of a pending row, and its attempt is a new one of that row.\<close>

lemma commit_claim_ok:
  assumes ok: "race_ok s" and p: "p < length (rc_phase s)" and h: "rc_phase s ! p = Holding agent v"
  shows "race_ok ((put_rows (set_phase s p (Returned (Some (scanTask v))))
     (update_where (\<lambda>r. tk_task_id r = tk_task_id v) (\<lambda>_. v) (t_tasks (rc_tables s))))
       \<lparr>rc_won := rc_won s @ [(p, tk_task_id v, tk_attempt_count v)]\<rparr>)"
proof -
  let ?rows = "t_tasks (rc_tables s)"
  let ?rows' = "update_where (\<lambda>r. tk_task_id r = tk_task_id v) (\<lambda>_. v) ?rows"
  have "phase_ok ?rows (Holding agent v)" using ok p h by (auto simp: race_ok_def Let_def) (metis nth_mem phase_ok.simps(2))
  then obtain r ts where r: "r \<in> set ?rows" "claim_where (tk_task_id v) r" "0 < tk_max_attempts r" and v: "v = claim_set agent ts r"
    by auto
  have d: "distinct (map tk_task_id ?rows)" and b: "\<forall>r \<in> set ?rows. budget_ok r" using ok by (simp_all add: race_ok_def Let_def)
  have eq: "x = r" if "x \<in> set ?rows" "tk_task_id x = tk_task_id v" for x
    using distinct_key_eq [OF d that(1) r(1)] that(2) r(2) by (simp add: claim_where_def)
  have lt: "tk_attempt_count r < tk_max_attempts r" using b r by (auto simp: budget_ok_def claim_where_def)
  have av: "tk_attempt_count v = tk_attempt_count r + 1" "tk_max_attempts v = tk_max_attempts r" "tk_status v = ''claimed''"
    by (simp_all add: v claim_set_def)
  have g: "grows ?rows ?rows'"
    by (rule grows_update) (use eq av in force)
  have old: "tk_attempt_count v \<noteq> k" if "(q, tk_task_id v, k) \<in> set (rc_won s)" for q k
  proof -
    have "won_ok ?rows (q, tk_task_id v, k)" using ok that by (auto simp: race_ok_def Let_def)
    then obtain x where "x \<in> set ?rows" "tk_task_id x = tk_task_id v" "k \<le> tk_attempt_count x"
      by (auto simp: won_ok_def)
    then show ?thesis using eq av(1) by force
  qed
  have vin: "v \<in> set ?rows'" using r by (auto simp: set_update_where claim_where_def)
  have hold: "phase_ok ?rows' ph" if "q < length (rc_phase s)" "q \<noteq> p" "ph = rc_phase s ! q" for q ph
  proof (rule phase_grows [OF _ g])
    show "phase_ok ?rows ph" using ok that by (auto simp: race_ok_def Let_def)
    fix x i assume x: "x \<in> set ?rows" "held ph = Some i" "claim_where i x"
    have "i \<noteq> tk_task_id v" using ok that p h x(2) by (auto simp: race_ok_def Let_def one_holder_def)
    then show "x \<in> set ?rows'" using x by (force simp: set_update_where claim_where_def)
  qed
  let ?ps = "(rc_phase s)[p := Returned (Some (scanTask v))]" and ?won = "rc_won s @ [(p, tk_task_id v, tk_attempt_count v)]"
  have "distinct (map tk_task_id ?rows')" using d by (simp add: map_update_where)
  moreover have "\<forall>r \<in> set ?rows'. budget_ok r" using b r(1) av by (auto simp: set_update_where budget_ok_def)
  moreover have "\<forall>ph \<in> set ?ps. phase_ok ?rows' ph" using hold p by (auto simp: in_set_conv_nth nth_list_update)
  moreover have "one_holder ?ps" using ok p by (auto simp: race_ok_def Let_def one_holder_def nth_list_update split: if_splits)
  moreover have "won_ok ?rows' (p, tk_task_id v, tk_attempt_count v)" using vin lt av by (auto simp: won_ok_def)
  then have "\<forall>x \<in> set ?won. won_ok ?rows' x" using ok g by (auto simp: race_ok_def Let_def intro: won_grows)
  moreover have "distinct (map snd ?won)" using ok old by (force simp: race_ok_def Let_def)
  ultimately show ?thesis by (simp add: race_ok_def Let_def put_rows_def set_phase_def)
qed

lemma claim_event_ok:
  assumes ok: "race_ok s" and p: "session_of e = Some p" "p < length (rc_phase s)" and e: "claim_event e (rc_phase s ! p) s = Some s'"
  shows "race_ok s'"
proof (cases e)
  case (Begin q agent)
  then show ?thesis using e ok p by (auto intro!: race_ok_phase split: claim_phase.splits)
next
  case (SelectCandidate q)
  then obtain agent where "rc_phase s ! p = Began agent" using e by (cases "rc_phase s ! p") auto
  then show ?thesis using e ok p SelectCandidate
    by (auto intro!: race_ok_phase chosen_ok split: option.splits)
next
  case (UpdateCandidate q ts)
  then obtain agent i where "rc_phase s ! p = Chosen agent i" using e by (cases "rc_phase s ! p") auto
  moreover from this obtain r where r: "r \<in> set (t_tasks (rc_tables s))" "tk_task_id r = i" "0 < tk_max_attempts r"
    using ok p(2) by (auto simp: race_ok_def Let_def) (metis nth_mem phase_ok.simps(1))
  moreover have "x = r \<and> claim_where i r" if "find (claim_where i) (t_tasks (rc_tables s)) = Some x" for x
    using find_where [OF that] distinct_key_eq [of tk_task_id "t_tasks (rc_tables s)" x r] ok r
    by (auto simp: race_ok_def Let_def claim_where_def)
  ultimately show ?thesis using e ok p UpdateCandidate
    by (cases "find (claim_where i) (t_tasks (rc_tables s))") (auto intro!: race_ok_phase bexI [of _ r] split: if_splits)
next
  case (CommitClaim q)
  then obtain agent v where "rc_phase s ! p = Holding agent v" using e by (cases "rc_phase s ! p") auto
  then show ?thesis using e CommitClaim commit_claim_ok [OF ok p(2)] p by auto
next
  case (Abort q)
  then show ?thesis using e ok p by (auto intro!: race_ok_phase split: claim_phase.splits)
qed (use p in auto)

interpretation claim_race: stepping_system race_start race_move race_ok
proof
  fix s s'
  show "race_ok s" if "race_start s"
    using that nth_mem by (fastforce simp: race_start_def race_ok_def Let_def list_all_iff one_holder_def)
  show "race_ok s'" if "race_ok s" "race_move s s'"
    using that by (auto simp: race_move.simps race_step_def split: option.splits if_splits intro: queue_event_ok claim_event_ok)
qed

lemma race_run_moves: "race_run es s = Some s' \<Longrightarrow> race_move\<^sup>*\<^sup>* s s'"
  unfolding race_run_def by (rule run_steps_moves [OF race_move])

subsection \<open>A session that runs alone\<close>

text \<open>The statements of a session that meets no other are the operation \<open>ClaimNextTask\<close> of the task queue.\<close>

lemma unlocked_phase: "held ph = None \<Longrightarrow> locked (set_phase s p ph) i \<Longrightarrow> locked s i"
  by (auto simp: locked_def set_phase_def list_ex_iff dest!: set_update_subset_insert [THEN subsetD])

lemma find_where_unique:
  assumes "distinct (map tk_task_id rows)" and "r \<in> set rows" and "claim_where (tk_task_id r) r"
  shows "find (claim_where (tk_task_id r)) rows = Some r"
proof -
  obtain x where x: "find (claim_where (tk_task_id r)) rows = Some x" using assms(2,3) by (cases "find (claim_where (tk_task_id r)) rows") (auto simp: find_None_iff)
  then have "x = r" using find_where [OF x] distinct_key_eq [OF assms(1) _ assms(2), of x] by (simp add: claim_where_def)
  with x show ?thesis by simp
qed

lemma solo_claim:
  assumes q: "quiet d" and k: "keys_ok (tabs d)" and s: "rc_tables s = tabs d" "p < length (rc_phase s)" "rc_phase s ! p = Idle"
    and free: "\<And>i. \<not> locked s i"
  shows "\<exists>s' res d'. race_run (Begin p agent # SelectCandidate p #
      (if claim_candidate agent (tabs d) = None then [] else [UpdateCandidate p (now d), CommitClaim p])) s = Some s' \<and>
    ClaimNextTask agent d = (Ok res, d') \<and> rc_tables s' = tabs d' \<and> rc_phase s' ! p = Returned res"
proof (cases "claim_candidate agent (tabs d)")
  case None
  then show ?thesis using q s
    by (simp add: race_run_def race_step_def set_phase_def ClaimNextTask_def Tx_live claim_body_def quiet_def bindM_def wrapM_def returnM_def)
next
  case (Some i)
  then obtain r where m: "min_by claim_order (filter (claimable agent) (t_tasks (tabs d))) = Some r" and i: "i = tk_task_id r"
    by (auto simp: claim_candidate_def)
  have r: "r \<in> set (t_tasks (tabs d))" "claim_where i r" using min_by_in [OF m] by (auto simp: i claim_where_def claimable_def)
  have dist: "distinct (map tk_task_id (t_tasks (tabs d)))" using k by (simp add: keys_ok_def)
  have f: "find (claim_where i) (t_tasks (tabs d)) = Some r" unfolding i by (rule find_where_unique [OF dist r(1)]) (use r(2) i in simp)
  let ?v = "claim_set agent (now d) r"
  let ?rows = "map (\<lambda>x. if x = r then ?v else x) (t_tasks (tabs d))"
  have u: "update_where (claim_where i) (claim_set agent (now d)) (t_tasks (tabs d)) = ?rows"
    by (rule update_task_row [OF k r(1), where P = "claim_where i"]) (use r(2) in \<open>auto simp: claim_where_def i\<close>)
  have u': "update_where (\<lambda>x. tk_task_id x = tk_task_id r) (\<lambda>_. ?v) (t_tasks (tabs d)) = ?rows"
    by (rule update_task_row [OF k r(1)]) simp_all
  have a: "affected (claim_where i) (t_tasks (tabs d)) \<noteq> 0" using r by (auto simp: affected_def filter_empty_conv)
  have m1: "?v \<in> set ?rows" using r(1) by force
  have "map tk_task_id ?rows = map tk_task_id (t_tasks (tabs d))" by simp
  with dist m1 have "distinct (map tk_task_id ?rows)" "?v \<in> set ?rows" by presburger+
  then have fr: "find_row tk_task_id i ?rows = Some ?v" using find_row_in [of tk_task_id ?rows ?v] by (simp add: i)
  have nl: "\<not> locked (set_phase (set_phase s p (Began agent)) p (Chosen agent i)) i"
    using free unlocked_phase by (metis held.simps(3,4))
  have "race_run [Begin p agent, SelectCandidate p, UpdateCandidate p (now d), CommitClaim p] s =
      Some ((put_rows (set_phase s p (Returned (Some (scanTask ?v)))) ?rows)\<lparr>rc_won := rc_won s @ [(p, i, tk_attempt_count ?v)]\<rparr>)"
    using s Some f nl u' by (simp add: race_run_def race_step_def set_phase_def put_rows_def i)
  moreover have "\<exists>d'. ClaimNextTask agent d = (Ok (Some (scanTask ?v)), d') \<and> tabs d' = (tabs d)\<lparr>t_tasks := ?rows\<rparr>"
    using q Some a fr u
    by (simp add: ClaimNextTask_def Tx_live claim_body_def getTaskTx_def quiet_def bindM_def wrapM_def returnM_def stmt_update_task_def)
  ultimately show ?thesis using Some s by (auto simp: put_rows_def set_phase_def)
qed

text \<open>A session that waits for a row waits for a transaction that can end.\<close>

lemma waiting_ends:
  assumes "locked s i"
  shows "\<exists>p s'. race_step (CommitClaim p) s = Some s' \<and> p < length (rc_phase s) \<and> held (rc_phase s ! p) = Some i"
proof -
  obtain p where p: "p < length (rc_phase s)" "held (rc_phase s ! p) = Some i"
    using assms by (auto simp: locked_def list_ex_iff in_set_conv_nth)
  then obtain agent v where "rc_phase s ! p = Holding agent v" by (cases "rc_phase s ! p") auto
  with p show ?thesis by (intro exI [of _ p]) (simp add: race_step_def)
qed

subsection \<open>Properties\<close>


definition sample_race :: race where
  "sample_race = \<lparr>rc_tables = empty_tables\<lparr>t_tasks := [task_row_of (sample_task ''t1'' ''normal'' 0) 1]\<rparr>,
     rc_phase = [Idle, Idle], rc_won = []\<rparr>"


end
