(* ===== verification/CommitRace.thy ===== *)
theory CommitRace
  imports Commit
begin

section \<open>Concurrent commits: store/commit.go\<close>

text \<open>
  On Postgres the transactions of several requests run at the same time. \<^verbatim>\<open>CommitTransition\<close>,
  \<^verbatim>\<open>CommitArtifact\<close> and the accepted case of \<^verbatim>\<open>CommitGateResolution\<close> are split here into their
  statements, and those of any number of sessions interleave in any order under READ COMMITTED: a SELECT reads the committed rows; an INSERT, an
  upsert or an UPDATE waits while another transaction has written the same key or row, and
  then fails on a key that is committed. A session starts where its handler does, with the
  state it reads and the answer of the bridge, whose sequence number is the one after the
  state's. (A snapshot that \<^verbatim>\<open>MarkPlanNodeDone\<close> saved carries a number its state does not, and a
  session that starts from such a snapshot is outside this model.) Nothing in the three operations locks the workflow they read. Shown: whatever the
  interleaving, the committed rows are those of the operations run one after the other in the
  order of their commits, so the chains stay linked; and a session that has written its
  receipt neither waits nor fails any more.
\<close>

subsection \<open>Jobs\<close>

datatype job =
    TransitionJob CommitParams
  | ArtifactJob ArtifactCommitParams
  | GateJob string string string string TransitionResult \<comment> \<open>workflow, token, resolution and who resolves\<close>

fun job_workflow :: "job \<Rightarrow> string" where
  "job_workflow (TransitionJob p) = CP_WorkflowID p"
| "job_workflow (ArtifactJob p) = AP_WorkflowID p"
| "job_workflow (GateJob w token resolution who res) = w"

fun job_result :: "job \<Rightarrow> TransitionResult" where
  "job_result (TransitionJob p) = CP_Result p"
| "job_result (ArtifactJob p) = AP_Result p"
| "job_result (GateJob w token resolution who res) = res"

definition job_seq :: "job \<Rightarrow> int" where
  "job_seq j = TR_Seq (job_result j)"

fun run_job :: "crypto \<Rightarrow> job \<Rightarrow> unit dbm" where
  "run_job C (TransitionJob p) = CommitTransition C p"
| "run_job C (ArtifactJob p) = CommitArtifact C p"
| "run_job C (GateJob w token resolution who res) = CommitGateResolution C w token resolution who res 0"

text \<open>What a transaction has written when it commits, with the links it read.\<close>

fun job_write :: "crypto \<Rightarrow> job \<Rightarrow> string option \<Rightarrow> string option \<Rightarrow> int \<Rightarrow> tables \<Rightarrow> tables" where
  "job_write C (TransitionJob p) pr pd ts t =
     transition_tables (CP_WorkflowID p) (CP_Result p)
       (deltaJSON_of C (ct_body p) [(''patches'', JStr (marshal (patches_json (CP_Patches p))))])
       (deltaHash_of C (ct_body p)) pr pd ts t"
| "job_write C (ArtifactJob p) pr pd ts t = artifact_spec C p ts pr pd t"
| "job_write C (GateJob w token resolution who res) pr pd ts t =
     transition_tables w res (deltaJSON_of C (gateDeltaBody who res) []) (deltaHash_of C (gateDeltaBody who res)) pr pd ts
       (resolve_gate token resolution who ts t)"

text \<open>A resolution that the bridge refused writes no receipt and is no job here.\<close>

fun accepted_job :: "job \<Rightarrow> bool" where
  "accepted_job (GateJob w token resolution who res) = TR_OK res"
| "accepted_job _ = True"

subsection \<open>Sessions\<close>

datatype commit_phase =
    Free
  | Asked job \<comment> \<open>the bridge has answered\<close>
  | Started job \<comment> \<open>the first statement of the transaction\<close>
  | SawReceipt job "string option"
  | SawBoth job "string option" "string option"
  | Writing job "string option" "string option" int nat \<comment> \<open>with the number of the writes done\<close>
  | Over bool

record commits =
  cr_tables :: tables
  cr_phase :: "commit_phase list"
  cr_log :: "(job \<times> int) list"

datatype lock = LReceipt string int | LDigest string | LDelta string int | LSnapshot string int | LWorkflow string

text \<open>The four writes of a transaction with the keys and rows they lock.\<close>

definition job_locks :: "job \<Rightarrow> lock list list" where
  "job_locks j = (let w = job_workflow j; k = job_seq j in
     [[LReceipt w k, LDigest (TR_ReceiptDigest (job_result j))], [LDelta w k], [LSnapshot w k], [LWorkflow w]])"

fun locks_held :: "commit_phase \<Rightarrow> lock list" where
  "locks_held (Writing j pr pd ts n) = concat (take n (job_locks j))"
| "locks_held _ = []"

definition must_wait :: "commits \<Rightarrow> nat \<Rightarrow> lock list \<Rightarrow> bool" where
  "must_wait s p ls \<longleftrightarrow> list_ex (\<lambda>q. q \<noteq> p \<and> list_ex (\<lambda>l. l \<in> set (locks_held (cr_phase s ! q))) ls) [0..<length (cr_phase s)]"

definition write_accepted :: "job \<Rightarrow> nat \<Rightarrow> tables \<Rightarrow> bool" where
  "write_accepted j n t \<longleftrightarrow>
     (n = 0 \<longrightarrow> \<not> key_used rc_key (job_workflow j, job_seq j) (t_receipts t) \<and>
        \<not> key_used rc_receipt_digest (TR_ReceiptDigest (job_result j)) (t_receipts t) \<and> fk_workflow True t (job_workflow j)) \<and>
     (n = 1 \<longrightarrow> \<not> key_used dl_key (job_workflow j, job_seq j) (t_deltas t))"

fun first_accepted :: "job \<Rightarrow> tables \<Rightarrow> bool" where
  "first_accepted (TransitionJob p) t = key_used wf_id (CP_WorkflowID p) (t_workflows t)"
| "first_accepted (ArtifactJob p) t \<longleftrightarrow>
     key_used ar_digest (AP_ArtifactDigest p) (t_artifacts t) \<or> fk_workflow True t (AP_WorkflowID p)"
| "first_accepted (GateJob w token resolution who res) t = True"

subsection \<open>Steps\<close>

datatype commit_event =
    AskBridge nat job | FirstStatement nat | ReadReceipt nat | ReadDelta nat | WriteNext nat int | CommitTx nat | RollbackTx nat

definition put_phase :: "commits \<Rightarrow> nat \<Rightarrow> commit_phase \<Rightarrow> commits" where
  "put_phase s p ph = s\<lparr>cr_phase := (cr_phase s)[p := ph]\<rparr>"

definition newest_seq :: "string \<Rightarrow> tables \<Rightarrow> int option" where
  "newest_seq w t = map_option sn_seq (latest_snapshot_row (\<lambda>r. sn_workflow_id r = w) t)"

definition write_step :: "commits \<Rightarrow> nat \<Rightarrow> job \<Rightarrow> string option \<Rightarrow> string option \<Rightarrow> int \<Rightarrow> nat \<Rightarrow> commits option" where
  "write_step s p j pr pd ts n =
     (if n \<ge> 4 \<or> must_wait s p (job_locks j ! n) then None
      else Some (put_phase s p (if write_accepted j n (cr_tables s) then Writing j pr pd ts (n + 1) else Over False)))"

fun session_event :: "crypto \<Rightarrow> commit_event \<Rightarrow> commit_phase \<Rightarrow> commits \<Rightarrow> commits option" where
  "session_event C (AskBridge p j) ph s =
     (if (ph = Free \<or> ph = Over True \<or> ph = Over False) \<and> accepted_job j \<and>
         newest_seq (job_workflow j) (cr_tables s) = Some (job_seq j - 1)
      then Some (put_phase s p (Asked j)) else None)"
| "session_event C (FirstStatement p) (Asked j) s =
     Some (put_phase s p (if first_accepted j (cr_tables s) then Started j else Over False))"
| "session_event C (ReadReceipt p) (Started j) s =
     Some (put_phase s p (SawReceipt j (latest_receipt_digest (job_workflow j) (cr_tables s))))"
| "session_event C (ReadDelta p) (SawReceipt j pr) s =
     Some (put_phase s p (SawBoth j pr (latest_delta_hash (job_workflow j) (cr_tables s))))"
| "session_event C (WriteNext p ts) (SawBoth j pr pd) s = write_step s p j pr pd ts 0"
| "session_event C (WriteNext p _) (Writing j pr pd ts n) s = write_step s p j pr pd ts n"
| "session_event C (CommitTx p) (Writing j pr pd ts n) s =
     (if n < 4 then None
      else Some ((put_phase s p (Over True))\<lparr>cr_tables := job_write C j pr pd ts (cr_tables s), cr_log := cr_log s @ [(j, ts)]\<rparr>))"
| "session_event C (RollbackTx p) ph s = (if ph = Free \<or> ph = Over True then None else Some (put_phase s p (Over False)))"
| "session_event C _ _ s = None"

fun event_session :: "commit_event \<Rightarrow> nat" where
  "event_session (AskBridge p j) = p"
| "event_session (FirstStatement p) = p"
| "event_session (ReadReceipt p) = p"
| "event_session (ReadDelta p) = p"
| "event_session (WriteNext p ts) = p"
| "event_session (CommitTx p) = p"
| "event_session (RollbackTx p) = p"

definition commit_step :: "crypto \<Rightarrow> commit_event \<Rightarrow> commits \<Rightarrow> commits option" where
  "commit_step C e s =
     (let p = event_session e in if p < length (cr_phase s) then session_event C e (cr_phase s ! p) s else None)"

inductive commit_move :: "crypto \<Rightarrow> commits \<Rightarrow> commits \<Rightarrow> bool" for C where
  commit_move: "commit_step C e s = Some s' \<Longrightarrow> commit_move C s s'"

definition commit_run :: "crypto \<Rightarrow> commit_event list \<Rightarrow> commits \<Rightarrow> commits option" where
  "commit_run C = run_steps (commit_step C)"

lemma commit_run_moves: "commit_run C es s = Some s' \<Longrightarrow> (commit_move C)\<^sup>*\<^sup>* s s'"
  unfolding commit_run_def by (rule run_steps_moves [OF commit_move])

subsection \<open>The operations one after the other\<close>

definition pg_at :: "tables \<Rightarrow> int \<Rightarrow> dbs" where
  "pg_at t ts = (handle_of ''pgx'' t [])\<lparr>clock := ts\<rparr>"

fun serial :: "crypto \<Rightarrow> (job \<times> int) list \<Rightarrow> tables \<Rightarrow> tables option" where
  "serial C [] t = Some t"
| "serial C ((j, ts) # js) t =
     (case run_job C j (pg_at t ts) of (Ok u, d) \<Rightarrow> serial C js (pool_tables d) | _ \<Rightarrow> None)"

lemma serial_append:
  "serial C (js @ [(j, ts)]) t = (case serial C js t of None \<Rightarrow> None | Some t' \<Rightarrow> serial C [(j, ts)] t')"
  by (induction js arbitrary: t) (auto split: prod.splits outcome.splits)

lemma commit_gate_live:
  assumes "quiet d" and "TR_OK res" and "transition_ok (fk_on d) w res (tabs d)"
  shows "CommitGateResolution C w token resolution who res every d = (Ok (), d\<lparr>tabs := gate_spec C w token resolution who res (now d)
     (latest_receipt_digest w (tabs d)) (latest_delta_hash w (tabs d)) (tabs d)\<rparr>)"
proof -
  let ?d = "in_tx d" and ?t = "resolve_gate token resolution who (now d) (tabs d)"
  let ?b = "gateDeltaBody who res"
  have f: "faults ?d = []" "\<not> tx_aborted ?d" using assms(1) by (simp_all add: quiet_def)
  have ws: "writes (fk_on d) w res (deltaJSON_of C ?b []) (deltaHash_of C ?b) (latest_receipt_digest w (tabs d))
      (latest_delta_hash w (tabs d)) (now d) (?d\<lparr>tabs := ?t\<rparr>) (?d\<lparr>tabs := gate_spec C w token resolution who res (now d)
        (latest_receipt_digest w (tabs d)) (latest_delta_hash w (tabs d)) (tabs d)\<rparr>)"
    using writes_live [of "fk_on d" w res "?d\<lparr>tabs := ?t\<rparr>"] assms(2,3) f by (simp add: gate_spec_def Let_def)
  have g: "txExec (stmt_update_gate (\<lambda>g. gt_token g = token) (resolve_gate_row resolution (now d) who)) ?d =
      (Ok (affected (\<lambda>g. gt_token g = token) (t_gates (tabs d))), ?d\<lparr>tabs := ?t\<rparr>)"
    using f by (simp add: stmt_update_gate_def resolve_gate_def)
  have "commit_gate_body C w token resolution who res (fk_on d) (now d) ?d = (Ok (), ?d\<lparr>tabs := gate_spec C w token resolution who res
      (now d) (latest_receipt_digest w (tabs d)) (latest_delta_hash w (tabs d)) (tabs d)\<rparr>)"
    unfolding commit_gate_body_def
    using f g ws assms(2) by (auto simp: Let_def readIgnored_live writes_def returnM_def)
  with Tx_live_Ok [OF assms(1)] show ?thesis by (simp add: CommitGateResolution_def)
qed

lemma job_runs:
  assumes "accepted_job j" and "transition_ok True (job_workflow j) (job_result j) t"
  shows "serial C [(j, ts)] t = Some (job_write C j (latest_receipt_digest (job_workflow j) t) (latest_delta_hash (job_workflow j) t) ts t)"
proof -
  have q: "quiet (pg_at t ts)" "fk_on (pg_at t ts)" "tabs (pg_at t ts) = t" "now (pg_at t ts) = ts"
      "saved (pg_at t ts) = None"
    by (simp_all add: pg_at_def quiet_def handle_of_def now_def)
  show ?thesis
  proof (cases j)
    case (TransitionJob p)
    with assms have "commit_guard p (fk_on (pg_at t ts)) (tabs (pg_at t ts))"
      by (simp add: q commit_guard_def transition_ok_def fk_workflow_def)
    from commit_transition_live [OF q(1) this, of C] TransitionJob q show ?thesis
      by (simp add: commit_spec_def pool_tables_def)
  next
    case (ArtifactJob p)
    with assms have "transition_ok (fk_on (pg_at t ts)) (AP_WorkflowID p) (AP_Result p) (tabs (pg_at t ts))" by (simp add: q)
    from commit_artifact_live [OF q(1) this, of C] ArtifactJob q show ?thesis
      by (simp add: pool_tables_def)
  next
    case (GateJob w token resolution who res)
    with assms have "TR_OK res" "transition_ok (fk_on (pg_at t ts)) w res (tabs (pg_at t ts))" by (simp_all add: q)
    from commit_gate_live [OF q(1) this, of C] GateJob q assms(1) show ?thesis
      by (simp add: pool_tables_def gate_spec_def Let_def)
  qed
qed

subsection \<open>The invariant\<close>

text \<open>
  A job in flight asked for the number after a snapshot, and if there is a snapshot with its
  number by now then there is a receipt too; the links it read are the latest ones unless its
  number is taken; once it has written its receipt its number is free. Every receipt and delta
  has a snapshot that is not older.
\<close>

definition has_snapshot :: "string \<Rightarrow> int \<Rightarrow> tables \<Rightarrow> bool" where
  "has_snapshot w k t \<longleftrightarrow> (\<exists>r \<in> set (t_snapshots t). sn_workflow_id r = w \<and> k \<le> sn_seq r)"

definition seq_taken :: "job \<Rightarrow> tables \<Rightarrow> bool" where
  "seq_taken j t \<longleftrightarrow> key_used rc_key (job_workflow j, job_seq j) (t_receipts t)"

definition seen :: "job \<Rightarrow> tables \<Rightarrow> bool" where
  "seen j t \<longleftrightarrow> accepted_job j \<and> has_snapshot (job_workflow j) (job_seq j - 1) t \<and> (has_snapshot (job_workflow j) (job_seq j) t \<longrightarrow> seq_taken j t)"

fun session_ok :: "tables \<Rightarrow> commit_phase \<Rightarrow> bool" where
  "session_ok t (Asked j) \<longleftrightarrow> seen j t"
| "session_ok t (Started j) \<longleftrightarrow> seen j t"
| "session_ok t (SawReceipt j pr) \<longleftrightarrow> seen j t \<and> (seq_taken j t \<or> pr = latest_receipt_digest (job_workflow j) t)"
| "session_ok t (SawBoth j pr pd) \<longleftrightarrow> seen j t \<and>
     (seq_taken j t \<or> pr = latest_receipt_digest (job_workflow j) t \<and> pd = latest_delta_hash (job_workflow j) t)"
| "session_ok t (Writing j pr pd ts n) \<longleftrightarrow> seen j t \<and> 1 \<le> n \<and> \<not> seq_taken j t \<and>
     \<not> key_used rc_receipt_digest (TR_ReceiptDigest (job_result j)) (t_receipts t) \<and> fk_workflow True t (job_workflow j) \<and>
     pr = latest_receipt_digest (job_workflow j) t \<and> pd = latest_delta_hash (job_workflow j) t"
| "session_ok t _ \<longleftrightarrow> True"

definition capped :: "tables \<Rightarrow> bool" where
  "capped t \<longleftrightarrow> list_all (\<lambda>r. has_snapshot (rc_workflow_id r) (rc_seq r) t) (t_receipts t) \<and>
     list_all (\<lambda>r. has_snapshot (dl_workflow_id r) (dl_seq r) t) (t_deltas t)"

definition locks_apart :: "commit_phase list \<Rightarrow> bool" where
  "locks_apart phs \<longleftrightarrow> (\<forall>p < length phs. \<forall>q < length phs. p \<noteq> q \<longrightarrow> set (locks_held (phs ! p)) \<inter> set (locks_held (phs ! q)) = {})"

definition commit_inv :: "crypto \<Rightarrow> tables \<Rightarrow> commits \<Rightarrow> bool" where
  "commit_inv C t0 s \<longleftrightarrow> history_ok (cr_tables s) \<and> capped (cr_tables s) \<and> (\<forall>ph \<in> set (cr_phase s). session_ok (cr_tables s) ph) \<and>
     locks_apart (cr_phase s) \<and> serial C (cr_log s) t0 = Some (cr_tables s)"

definition commit_start :: "commits \<Rightarrow> bool" where
  "commit_start s \<longleftrightarrow> history_ok (cr_tables s) \<and> capped (cr_tables s) \<and> list_all (\<lambda>ph. ph = Free) (cr_phase s) \<and> cr_log s = []"

lemma inv_put_phase:
  assumes "commit_inv C t0 s" and "p < length (cr_phase s)" and "session_ok (cr_tables s) ph"
    and "\<And>q. q < length (cr_phase s) \<Longrightarrow> q \<noteq> p \<Longrightarrow> set (locks_held ph) \<inter> set (locks_held (cr_phase s ! q)) = {}"
  shows "commit_inv C t0 (put_phase s p ph)"
proof -
  have la: "locks_apart (cr_phase s)" using assms(1) by (simp add: commit_inv_def)
  have "locks_apart ((cr_phase s)[p := ph])"
    unfolding locks_apart_def length_list_update
  proof (intro allI impI)
    fix a b assume ab: "a < length (cr_phase s)" "b < length (cr_phase s)" "a \<noteq> b"
    then show "set (locks_held ((cr_phase s)[p := ph] ! a)) \<inter> set (locks_held ((cr_phase s)[p := ph] ! b)) = {}"
      using la assms(4) [of a] assms(4) [of b] unfolding locks_apart_def
      by (cases "a = p"; cases "b = p") (simp_all add: nth_list_update Int_commute)
  qed
  with assms show ?thesis by (auto simp: commit_inv_def put_phase_def dest!: set_update_subset_insert [THEN subsetD])
qed

lemma newest_seq_snapshot:
  assumes "newest_seq w t = Some m"
  shows "has_snapshot w x t \<longleftrightarrow> x \<le> m"
proof -
  obtain r where r: "min_by (\<lambda>r. - sn_seq r) (filter (\<lambda>r. sn_workflow_id r = w) (t_snapshots t)) = Some r" "m = sn_seq r"
    using assms by (auto simp: newest_seq_def latest_snapshot_row_def)
  have "r \<in> set (t_snapshots t)" "sn_workflow_id r = w" using min_by_in [OF r(1)] by auto
  moreover have "sn_seq y \<le> sn_seq r" if "y \<in> set (t_snapshots t)" "sn_workflow_id y = w" for y
    using min_by_le [OF r(1), of y] that by auto
  ultimately show ?thesis using r(2) by (force simp: has_snapshot_def)
qed

lemma concat_take_Suc: "n < length xss \<Longrightarrow> set (concat (take (n + 1) xss)) = set (concat (take n xss)) \<union> set (xss ! n)"
  by (simp add: take_Suc_conv_app_nth)

lemma length_job_locks [simp]: "length (job_locks j) = 4"
  by (simp add: job_locks_def Let_def)

lemma no_wait:
  assumes "\<not> must_wait s p ls" and "q < length (cr_phase s)" and "q \<noteq> p"
  shows "set ls \<inter> set (locks_held (cr_phase s ! q)) = {}"
  using assms by (auto simp: must_wait_def list_ex_iff)

lemma inv_write_step:
  assumes inv: "commit_inv C t0 s" and p: "p < length (cr_phase s)" and w: "write_step s p j pr pd ts n = Some s'"
    and ph: "n = 0 \<and> cr_phase s ! p = SawBoth j pr pd \<or> n > 0 \<and> cr_phase s ! p = Writing j pr pd ts n"
  shows "commit_inv C t0 s'"
proof -
  let ?ph = "if write_accepted j n (cr_tables s) then Writing j pr pd ts (n + 1) else Over False"
  have n: "n < 4" and nw: "\<not> must_wait s p (job_locks j ! n)" and s': "s' = put_phase s p ?ph"
    using w by (auto simp: write_step_def split: if_splits)
  have old: "session_ok (cr_tables s) (cr_phase s ! p)" using inv p by (simp add: commit_inv_def)
  have "session_ok (cr_tables s) ?ph"
    using old ph by (auto simp: write_accepted_def seq_taken_def)
  moreover have "set (locks_held ?ph) \<inter> set (locks_held (cr_phase s ! q)) = {}" if q: "q < length (cr_phase s)" "q \<noteq> p" for q
  proof -
    have "set (concat (take n (job_locks j))) \<inter> set (locks_held (cr_phase s ! q)) = {}"
      using ph inv p q by (auto simp: commit_inv_def locks_apart_def) (metis IntI empty_iff locks_held.simps(1) set_concat UN_I)
    then show ?thesis using no_wait [OF nw q] n
      by (auto simp del: set_concat simp: concat_take_Suc [unfolded Suc_eq_plus1 [symmetric]])
  qed
  ultimately show ?thesis unfolding s' by (intro inv_put_phase [OF inv p])
qed

subsection \<open>A commit\<close>

lemma job_write_rows:
  "t_receipts (job_write C j pr pd ts t) = t_receipts t @ [new_receipt (job_workflow j) (job_result j) pr ts]"
  "\<exists>dj dh. t_deltas (job_write C j pr pd ts t) = t_deltas t @ [new_delta (job_workflow j) (job_seq j) dj dh pd ts]"
  "t_snapshots (job_write C j pr pd ts t) = replace_row sn_key (new_snapshot (job_workflow j) (job_result j) ts) (t_snapshots t)"
  "map wf_id (t_workflows (job_write C j pr pd ts t)) = map wf_id (t_workflows t)"
  by (cases j; auto simp: transition_tables_def artifact_spec_def job_seq_def map_update_where)+

lemma job_write_history:
  assumes "history_ok t" and "transition_ok True (job_workflow j) (job_result j) t" and "fresh_seq (job_workflow j) (job_seq j) t"
  shows "history_ok (job_write C j (latest_receipt_digest (job_workflow j) t) (latest_delta_hash (job_workflow j) t) ts t)"
proof (cases j)
  case (TransitionJob p)
  with assms show ?thesis by (auto simp: job_seq_def intro: transition_history)
next
  case (ArtifactJob p)
  with assms show ?thesis unfolding ArtifactJob job_write.simps artifact_spec_def
    by (intro transition_history [where fk = True]) (auto simp: job_seq_def history_add_artifact)
next
  case (GateJob w token resolution who res)
  with assms show ?thesis unfolding GateJob job_write.simps
    by (intro transition_history [where fk = True]) (auto simp: job_seq_def history_resolve_gate)
qed

lemma has_snapshot_write: "has_snapshot v k (job_write C j pr pd ts t) \<longleftrightarrow> has_snapshot v k t \<or> v = job_workflow j \<and> k \<le> job_seq j"
  by (force simp: has_snapshot_def job_write_rows replace_row_def new_snapshot_def job_seq_def)

lemma taken_write: "seq_taken i (job_write C j pr pd ts t) \<longleftrightarrow> seq_taken i t \<or> job_workflow i = job_workflow j \<and> job_seq i = job_seq j"
  by (auto simp: seq_taken_def key_used_def job_write_rows new_receipt_def job_seq_def)

lemma digest_write: "key_used rc_receipt_digest d (t_receipts (job_write C j pr pd ts t)) \<longleftrightarrow>
    key_used rc_receipt_digest d (t_receipts t) \<or> d = TR_ReceiptDigest (job_result j)"
  by (auto simp: key_used_def job_write_rows new_receipt_def)

lemma workflow_write: "fk_workflow True (job_write C j pr pd ts t) w \<longleftrightarrow> fk_workflow True t w"
proof -
  have "wf_id ` set (t_workflows (job_write C j pr pd ts t)) = wf_id ` set (t_workflows t)"
    using job_write_rows(4) [of C j pr pd ts t] by (metis list.set_map)
  then show ?thesis by (simp add: fk_workflow_def key_used_def)
qed

lemma latest_write:
  assumes "v \<noteq> job_workflow j"
  shows "latest_receipt_digest v (job_write C j pr pd ts t) = latest_receipt_digest v t"
    "latest_delta_hash v (job_write C j pr pd ts t) = latest_delta_hash v t"
proof -
  show "latest_receipt_digest v (job_write C j pr pd ts t) = latest_receipt_digest v t"
    using assms by (simp add: latest_receipt_digest_def job_write_rows new_receipt_def)
  obtain dj dh where "t_deltas (job_write C j pr pd ts t) = t_deltas t @ [new_delta (job_workflow j) (job_seq j) dj dh pd ts]"
    using job_write_rows(2) by blast
  with assms show "latest_delta_hash v (job_write C j pr pd ts t) = latest_delta_hash v t"
    by (simp add: latest_delta_hash_def new_delta_def)
qed

text \<open>Of two jobs that a free number after the newest snapshot has been given to, both have the same one.\<close>

lemma seen_same_seq:
  assumes "seen i t" "seen j t" "\<not> seq_taken i t" "\<not> seq_taken j t" "job_workflow i = job_workflow j"
  shows "job_seq i = job_seq j"
proof -
  have le: "job_seq a \<le> job_seq b" if "seen a t" "seen b t" "\<not> seq_taken b t" "job_workflow a = job_workflow b" for a b
  proof (rule ccontr)
    assume "\<not> job_seq a \<le> job_seq b"
    with that(1,4) have "has_snapshot (job_workflow b) (job_seq b) t" by (auto simp: seen_def has_snapshot_def)
    with that(2,3) show False by (simp add: seen_def)
  qed
  from le [of i j] le [of j i] assms show ?thesis by simp
qed

lemma seen_write:
  assumes "seen i t" and "seen j t" and "\<not> seq_taken j t"
  shows "seen i (job_write C j pr pd ts t)"
proof (cases "job_workflow i = job_workflow j \<and> \<not> seq_taken i t")
  case True
  with seen_same_seq [OF assms(1,2) _ assms(3)] assms(1) show ?thesis
    by (auto simp: seen_def has_snapshot_write taken_write)
next
  case False
  with assms(1) show ?thesis by (auto simp: seen_def has_snapshot_write taken_write)
qed

text \<open>What a session has read stays right, or its number is taken now.\<close>

lemma reads_write:
  assumes "seen i t" and "seen j t" and "\<not> seq_taken j t"
  shows "seq_taken i (job_write C j pr pd ts t) \<or> \<not> seq_taken i t \<and> job_workflow i \<noteq> job_workflow j"
  using seen_same_seq [OF assms(1,2) _ assms(3)] by (auto simp: taken_write)

lemma session_write:
  assumes "session_ok t ph" and j: "seen j t" "\<not> seq_taken j t"
    and "LDigest (TR_ReceiptDigest (job_result j)) \<notin> set (locks_held ph)" "LReceipt (job_workflow j) (job_seq j) \<notin> set (locks_held ph)"
  shows "session_ok (job_write C j pr pd ts t) ph"
proof (cases ph)
  case (Writing i pr' pd' ts' n)
  then have i: "seen i t" "\<not> seq_taken i t" and n: "1 \<le> n" using assms(1) by auto
  from n obtain m where "n = Suc m" by (cases n) auto
  with Writing assms(4,5) have l: "TR_ReceiptDigest (job_result i) \<noteq> TR_ReceiptDigest (job_result j)"
      "(job_workflow i, job_seq i) \<noteq> (job_workflow j, job_seq j)"
    by (auto simp: job_locks_def Let_def)
  then have "\<not> seq_taken i (job_write C j pr pd ts t)" using i by (simp add: taken_write)
  with reads_write [OF i(1) j, of C pr pd ts] l Writing assms(1) show ?thesis
    by (simp add: digest_write workflow_write latest_write seen_write [OF i(1) j])
next
  case (SawReceipt i pr')
  with assms reads_write [OF _ j, of i C pr pd ts] show ?thesis by (auto simp: seen_write latest_write)
next
  case (SawBoth i pr' pd')
  with assms reads_write [OF _ j, of i C pr pd ts] show ?thesis by (auto simp: seen_write latest_write)
qed (use assms in \<open>auto simp: seen_write\<close>)

lemma inv_commit:
  assumes inv: "commit_inv C t0 s" and p: "p < length (cr_phase s)" and ph: "cr_phase s ! p = Writing j pr pd ts n"
  shows "commit_inv C t0 ((put_phase s p (Over True))\<lparr>cr_tables := job_write C j pr pd ts (cr_tables s), cr_log := cr_log s @ [(j, ts)]\<rparr>)"
proof -
  let ?t = "cr_tables s" and ?w = "job_workflow j"
  let ?t' = "job_write C j pr pd ts ?t"
  have h: "history_ok ?t" and cap: "capped ?t" and ok: "\<forall>ph \<in> set (cr_phase s). session_ok ?t ph" and la: "locks_apart (cr_phase s)"
    and ser: "serial C (cr_log s) t0 = Some ?t" using inv by (auto simp: commit_inv_def)
  have "session_ok ?t (Writing j pr pd ts n)" using ok p ph by (metis nth_mem)
  then have j: "seen j ?t" "\<not> seq_taken j ?t" and n: "1 \<le> n" and dg: "\<not> key_used rc_receipt_digest (TR_ReceiptDigest (job_result j)) (t_receipts ?t)"
    and wf: "fk_workflow True ?t ?w" and pr: "pr = latest_receipt_digest ?w ?t" and pd: "pd = latest_delta_hash ?w ?t" by auto
  have acc: "accepted_job j" and "\<not> has_snapshot ?w (job_seq j) ?t" using j by (auto simp: seen_def)
  then have fresh: "fresh_seq ?w (job_seq j) ?t"
    using cap by (fastforce simp: fresh_seq_def capped_def list_all_iff has_snapshot_def)
  then have "\<not> key_used dl_key (?w, job_seq j) (t_deltas ?t)" by (auto simp: key_used_def fresh_seq_def list_all_iff)
  with j dg wf have tok: "transition_ok True ?w (job_result j) ?t" by (simp add: transition_ok_def seq_taken_def job_seq_def)
  have hist: "history_ok ?t'" unfolding pr pd by (rule job_write_history [OF h tok fresh])
  obtain dj dh where dl: "t_deltas ?t' = t_deltas ?t @ [new_delta ?w (job_seq j) dj dh pd ts]" using job_write_rows(2) by blast
  have "capped ?t'" using cap
    by (auto simp: capped_def list_all_iff has_snapshot_write job_write_rows(1) dl new_receipt_def new_delta_def job_seq_def)
  moreover have "serial C (cr_log s @ [(j, ts)]) t0 = Some ?t'"
    unfolding serial_append ser option.case unfolding pr pd by (rule job_runs [OF acc tok])
  moreover have "locks_apart ((cr_phase s)[p := Over True])"
    using la p by (auto simp: locks_apart_def nth_list_update)
  moreover have "session_ok ?t' ph'" if "ph' \<in> set ((cr_phase s)[p := Over True])" for ph'
  proof -
    from that obtain q where q: "q < length (cr_phase s)" "ph' = (if q = p then Over True else cr_phase s ! q)"
      by (auto simp: in_set_conv_nth nth_list_update split: if_splits)
    show ?thesis
    proof (cases "q = p")
      case False
      have "set (locks_held (cr_phase s ! p)) \<inter> set (locks_held (cr_phase s ! q)) = {}" using la p q False by (auto simp: locks_apart_def)
      moreover have "LDigest (TR_ReceiptDigest (job_result j)) \<in> set (locks_held (cr_phase s ! p))"
        "LReceipt ?w (job_seq j) \<in> set (locks_held (cr_phase s ! p))"
        using n by (cases n; simp add: ph job_locks_def Let_def)+
      ultimately show ?thesis using q False ok by (intro session_write [OF _ j]) auto
    qed (use q in simp)
  qed
  ultimately show ?thesis using hist by (simp add: commit_inv_def put_phase_def)
qed

lemma session_event_ok:
  assumes inv: "commit_inv C t0 s" and p: "event_session e = p" "p < length (cr_phase s)" and e: "session_event C e (cr_phase s ! p) s = Some s'"
  shows "commit_inv C t0 s'"
proof -
  have old: "session_ok (cr_tables s) (cr_phase s ! p)" using inv p by (simp add: commit_inv_def)
  have plain: "commit_inv C t0 (put_phase s p ph)" if "session_ok (cr_tables s) ph" "locks_held ph = []" for ph
    using that by (intro inv_put_phase [OF inv p(2)]) simp_all
  show ?thesis
  proof (cases e)
    case (AskBridge q j)
    then have "seen j (cr_tables s)" "s' = put_phase s p (Asked j)"
      using e p(1) by (auto simp: seen_def newest_seq_snapshot split: if_splits)
    then show ?thesis using plain by simp
  next
    case (FirstStatement q)
    then show ?thesis using e p(1) old plain by (cases "cr_phase s ! p") auto
  next
    case (ReadReceipt q)
    then show ?thesis using e p(1) old plain by (cases "cr_phase s ! p") auto
  next
    case (ReadDelta q)
    then show ?thesis using e p(1) old plain by (cases "cr_phase s ! p") auto
  next
    case (WriteNext q ts)
    show ?thesis
    proof (cases "cr_phase s ! p")
      case (SawBoth j pr pd)
      then show ?thesis using e p(1) WriteNext inv_write_step [OF inv p(2)] by auto
    next
      case (Writing j pr pd ts' n)
      then show ?thesis using e p(1) WriteNext old inv_write_step [OF inv p(2), of j pr pd ts' n] by auto
    qed (use e WriteNext in auto)
  next
    case (CommitTx q)
    then obtain j pr pd ts n where w: "cr_phase s ! p = Writing j pr pd ts n" using e by (cases "cr_phase s ! p") auto
    then show ?thesis using e p(1) CommitTx inv_commit [OF inv p(2) w] by (auto split: if_splits)
  next
    case (RollbackTx q)
    then show ?thesis using e p(1) plain by (auto split: if_splits)
  qed
qed

interpretation commit_race: stepping_system "\<lambda>s. commit_start s \<and> cr_tables s = t0" "commit_move C" "commit_inv C t0" for C t0
proof
  fix s s'
  show "commit_inv C t0 s" if "commit_start s \<and> cr_tables s = t0"
    using that nth_mem by (fastforce simp: commit_start_def commit_inv_def list_all_iff locks_apart_def)
  show "commit_inv C t0 s'" if "commit_inv C t0 s" "commit_move C s s'"
    using that by (auto simp: commit_move.simps commit_step_def Let_def split: if_splits intro: session_event_ok)
qed

subsection \<open>Properties\<close>


definition two_commits :: commits where
  "two_commits = \<lparr>cr_tables = sample_tables, cr_phase = [Free, Free], cr_log = []\<rparr>"

definition edit_against_artifact :: "commit_event list" where
  "edit_against_artifact = [AskBridge 0 (TransitionJob sample_commit), AskBridge 1 (ArtifactJob sample_artifact),
     FirstStatement 1, FirstStatement 0, ReadReceipt 0, ReadReceipt 1, ReadDelta 0, ReadDelta 1, WriteNext 1 7, WriteNext 1 7,
     WriteNext 1 7, WriteNext 1 7, CommitTx 1, WriteNext 0 8]"


text \<open>
  A session that has written its receipt holds the one free number of its workflow: its next
  write is neither kept waiting nor refused, so every transaction that waits for it waits for
  one that can end.
\<close>

lemma writer_goes_on:
  assumes inv: "commit_inv C t0 s" and p: "p < length (cr_phase s)" and ph: "cr_phase s ! p = Writing j pr pd ts n" and n: "n < 4"
  shows "commit_step C (WriteNext p ts') s = Some (put_phase s p (Writing j pr pd ts (n + 1)))"
proof -
  let ?t = "cr_tables s"
  have ok: "\<forall>ph \<in> set (cr_phase s). session_ok ?t ph" and la: "locks_apart (cr_phase s)" and cap: "capped ?t" using inv by (auto simp: commit_inv_def)
  have "session_ok ?t (Writing j pr pd ts n)" using ok p ph by (metis nth_mem)
  then have j: "seen j ?t" "\<not> seq_taken j ?t" and n1: "1 \<le> n" by auto
  have ns: "\<not> has_snapshot (job_workflow j) (job_seq j) ?t" using j by (auto simp: seen_def)
  then have "\<not> key_used dl_key (job_workflow j, job_seq j) (t_deltas ?t)"
    using cap by (auto simp: key_used_def capped_def list_all_iff)
  then have acc: "write_accepted j n ?t" using n1 by (simp add: write_accepted_def)
  have "l \<notin> set (locks_held (cr_phase s ! q))" if q: "q < length (cr_phase s)" "q \<noteq> p" and l: "l \<in> set (job_locks j ! n)" for q l
  proof
    assume h: "l \<in> set (locks_held (cr_phase s ! q))"
    then obtain i a b c m where i: "cr_phase s ! q = Writing i a b c m" by (cases "cr_phase s ! q") auto
    have "session_ok ?t (Writing i a b c m)" using ok q(1) i by (metis nth_mem)
    then have i': "seen i ?t" "\<not> seq_taken i ?t" and m: "1 \<le> m" by auto
    have "l \<in> set (concat (job_locks i))" using h i by (auto dest: in_set_takeD)
    moreover have "n \<in> {1, 2, 3}" using n n1 by auto
    ultimately have w: "job_workflow i = job_workflow j" using l by (auto simp: job_locks_def Let_def)
    with seen_same_seq [OF i'(1) j(1) i'(2) j(2)] have "LReceipt (job_workflow j) (job_seq j) \<in> set (locks_held (cr_phase s ! q))"
      using m by (cases m) (auto simp: i job_locks_def Let_def)
    moreover have "LReceipt (job_workflow j) (job_seq j) \<in> set (locks_held (cr_phase s ! p))"
      using n1 by (cases n) (auto simp: ph job_locks_def Let_def)
    ultimately show False using la p q by (fastforce simp: locks_apart_def)
  qed
  then have "\<not> must_wait s p (job_locks j ! n)" by (auto simp: must_wait_def list_ex_iff)
  with acc n p ph show ?thesis by (simp add: commit_step_def write_step_def)
qed

end
