(* ===== verification/Bridge.thy ===== *)
theory Bridge
  imports Http
begin

section \<open>Runs of the bridge: internal/bridge/bridge.go\<close>

text \<open>
  \<^verbatim>\<open>runInner\<close> with its files, for any number of requests at the same time. A run makes an
  input file and an output directory, starts \<^verbatim>\<open>fardrun\<close>, reads \<^verbatim>\<open>result.json\<close> and removes both
  by its deferred calls; the steps of different runs interleave. The program is a function of
  its name and of the input file that gives the files it writes to its output directory and
  whether it fails; any call of the operating system may fail instead, a started process may
  be killed by its timeout, and the errors of the removals are dropped, as in the code. Shown:
  a run in which no call fails answers what \<open>bridge_Run\<close> answers, which the rest of the
  development uses, whatever the other runs do; and the runs leave no file behind but those
  whose removal failed.
\<close>

subsection \<open>Files\<close>

text \<open>The temporary directory with the input files, and the bridge's own directory with one output directory for a run.\<close>

type_synonym contents = "string \<Rightarrow> string option"

record temp_files =
  tf_inputs :: "string \<Rightarrow> string option"
  tf_outs :: "string \<Rightarrow> contents option"

type_synonym fard = "string \<Rightarrow> string \<Rightarrow> (string \<times> string) list \<times> go_error option"

text \<open>\<open>result.json\<close> as the program leaves it: the parameter \<open>h_fardrun\<close> of the handlers.\<close>

definition fardrun_of :: "fard \<Rightarrow> string \<Rightarrow> string \<Rightarrow> go_error + string" where
  "fardrun_of G program input =
     (case G program input of
        (files, Some e) \<Rightarrow> Inl (EWrap (''fardrun '' @ program) e)
      | (files, None) \<Rightarrow> (case map_of files ''result.json'' of
          None \<Rightarrow> Inl (EWrap ''read result'' (EMsg ''no such file or directory'')) | Some raw \<Rightarrow> Inr raw))"

subsection \<open>One run\<close>

datatype run_phase =
    RStart
  | RCreated string \<comment> \<open>the input file exists\<close>
  | RWritten string \<comment> \<open>and holds the input\<close>
  | ROpen string string \<comment> \<open>the output directory exists\<close>
  | RRan string string \<comment> \<open>the process ended without an error\<close>
  | RReturn "string option" "string option" bool "go_error + json option"
      \<comment> \<open>output directory and input file to remove, whether a call failed, and the answer\<close>

record runs =
  ru_files :: temp_files
  ru_phase :: "run_phase list"
  ru_leaked :: "string list \<times> string list" \<comment> \<open>input files and output directories whose removal failed\<close>

text \<open>Every event carries the error of its call; \<open>CreateTemp\<close> and \<open>MkdirTemp\<close> choose a name that is not in use.\<close>

datatype bridge_event =
    CreateTemp nat string "go_error option"
  | WriteInput nat "go_error option"
  | MkdirTemp nat string "go_error option"
  | RunFard nat "go_error option"
  | ReadResult nat "go_error option"
  | RemoveOut nat bool
  | RemoveInput nat bool

definition put_run :: "runs \<Rightarrow> nat \<Rightarrow> run_phase \<Rightarrow> runs" where
  "put_run s p ph = s\<lparr>ru_phase := (ru_phase s)[p := ph]\<rparr>"

definition put_input :: "runs \<Rightarrow> string \<Rightarrow> string option \<Rightarrow> runs" where
  "put_input s f c = s\<lparr>ru_files := (ru_files s)\<lparr>tf_inputs := (tf_inputs (ru_files s))(f := c)\<rparr>\<rparr>"

definition put_out :: "runs \<Rightarrow> string \<Rightarrow> contents option \<Rightarrow> runs" where
  "put_out s d c = s\<lparr>ru_files := (ru_files s)\<lparr>tf_outs := (tf_outs (ru_files s))(d := c)\<rparr>\<rparr>"

text \<open>\<open>job\<close> is the program and the input of the run.\<close>

fun run_event :: "fard \<Rightarrow> string \<times> json \<Rightarrow> bridge_event \<Rightarrow> run_phase \<Rightarrow> runs \<Rightarrow> runs option" where
  "run_event G job (CreateTemp p f err) ph s = (case ph of
     RStart \<Rightarrow> (case err of
       Some e \<Rightarrow> Some (put_run s p (RReturn None None True (Inl (EWrap ''create input temp file'' e))))
     | None \<Rightarrow> if tf_inputs (ru_files s) f \<noteq> None then None else Some (put_input (put_run s p (RCreated f)) f (Some [])))
   | _ \<Rightarrow> None)"
| "run_event G job (WriteInput p err) ph s = (case ph of
     RCreated f \<Rightarrow> (case err of
       Some e \<Rightarrow> Some (put_run s p (RReturn None (Some f) True (Inl (EWrap ''write input'' e))))
     | None \<Rightarrow> Some (put_input (put_run s p (RWritten f)) f (Some (marshal (snd job)))))
   | _ \<Rightarrow> None)"
| "run_event G job (MkdirTemp p d err) ph s = (case ph of
     RWritten f \<Rightarrow> (case err of
       Some e \<Rightarrow> Some (put_run s p (RReturn None (Some f) True (Inl (EWrap ''create out dir'' e))))
     | None \<Rightarrow> if tf_outs (ru_files s) d \<noteq> None then None else Some (put_out (put_run s p (ROpen f d)) d (Some (\<lambda>_. None))))
   | _ \<Rightarrow> None)"
| "run_event G job (RunFard p err) ph s = (case ph of
     ROpen f d \<Rightarrow> (case err of
       Some e \<Rightarrow> Some (put_run s p (RReturn (Some d) (Some f) True (Inl (EWrap (''fardrun '' @ fst job) e))))
     | None \<Rightarrow>
         (case (tf_inputs (ru_files s) f, tf_outs (ru_files s) d) of
            (Some input, Some c) \<Rightarrow>
              (case G (fst job) input of (files, r) \<Rightarrow>
                Some (put_out (put_run s p (case r of
                    Some e \<Rightarrow> RReturn (Some d) (Some f) False (Inl (EWrap (''fardrun '' @ fst job) e))
                  | None \<Rightarrow> RRan f d)) d (Some (c ++ map_of files))))
          | _ \<Rightarrow> None))
   | _ \<Rightarrow> None)"
| "run_event G job (ReadResult p err) ph s = (case ph of
     RRan f d \<Rightarrow> (case err of
       Some e \<Rightarrow> Some (put_run s p (RReturn (Some d) (Some f) True (Inl (EWrap ''read result'' e))))
     | None \<Rightarrow> Some (put_run s p (RReturn (Some d) (Some f) False
         (case Option.bind (tf_outs (ru_files s) d) (\<lambda>c. c ''result.json'') of
            Some raw \<Rightarrow> unwrap_result raw
          | None \<Rightarrow> Inl (EWrap ''read result'' (EMsg ''no such file or directory''))))))
   | _ \<Rightarrow> None)"
| "run_event G job (RemoveOut p ok) ph s = (case ph of
     RReturn (Some d) i b a \<Rightarrow> Some (if ok then put_out (put_run s p (RReturn None i b a)) d None
       else (put_run s p (RReturn None i b a))\<lparr>ru_leaked := (fst (ru_leaked s), d # snd (ru_leaked s))\<rparr>)
   | _ \<Rightarrow> None)"
| "run_event G job (RemoveInput p ok) ph s = (case ph of
     RReturn None (Some f) b a \<Rightarrow> Some (if ok then put_input (put_run s p (RReturn None None b a)) f None
       else (put_run s p (RReturn None None b a))\<lparr>ru_leaked := (f # fst (ru_leaked s), snd (ru_leaked s))\<rparr>)
   | _ \<Rightarrow> None)"

fun run_of :: "bridge_event \<Rightarrow> nat" where
  "run_of (CreateTemp p f e) = p"
| "run_of (WriteInput p e) = p"
| "run_of (MkdirTemp p d e) = p"
| "run_of (RunFard p e) = p"
| "run_of (ReadResult p e) = p"
| "run_of (RemoveOut p ok) = p"
| "run_of (RemoveInput p ok) = p"

definition run_step :: "fard \<Rightarrow> (string \<times> json) list \<Rightarrow> bridge_event \<Rightarrow> runs \<Rightarrow> runs option" where
  "run_step G jobs e s =
     (let p = run_of e in
      if p < length (ru_phase s) \<and> p < length jobs then run_event G (jobs ! p) e (ru_phase s ! p) s else None)"

inductive run_move :: "fard \<Rightarrow> (string \<times> json) list \<Rightarrow> runs \<Rightarrow> runs \<Rightarrow> bool" for G jobs where
  run_move: "run_step G jobs e s = Some s' \<Longrightarrow> run_move G jobs s s'"

subsection \<open>Names that belong to a run\<close>

text \<open>
  The files of one kind: \<open>own\<close> is the name each run holds. A held name was free at the start and
  exists now, no two runs hold the same one, and any other name that was not left behind is as
  it was at the start.
\<close>

definition ledger :: "string option list \<Rightarrow> string list \<Rightarrow> (string \<Rightarrow> 'c option) \<Rightarrow> (string \<Rightarrow> 'c option) \<Rightarrow> bool" where
  "ledger own leaked m0 m \<longleftrightarrow>
     (\<forall>f. Some f \<in> set own \<longrightarrow> m0 f = None \<and> m f \<noteq> None) \<and>
     (\<forall>p < length own. \<forall>q < length own. p \<noteq> q \<longrightarrow> own ! p \<noteq> None \<longrightarrow> own ! p \<noteq> own ! q) \<and>
     (\<forall>f. f \<notin> set leaked \<longrightarrow> Some f \<notin> set own \<longrightarrow> m f = m0 f) \<and> (\<forall>f \<in> set leaked. m0 f = None)"

lemma ledger_start: "list_all (\<lambda>x. x = None) own \<Longrightarrow> ledger own [] m m"
  by (auto simp: ledger_def list_all_iff)

lemma ledger_free: "ledger own leaked m0 m \<Longrightarrow> m f = None \<Longrightarrow> m0 f = None \<and> Some f \<notin> set own"
  unfolding ledger_def by metis

lemma ledger_other: "ledger own leaked m0 m \<Longrightarrow> p < length own \<Longrightarrow> q < length own \<Longrightarrow> p \<noteq> q \<Longrightarrow> own ! p = Some f \<Longrightarrow> own ! q \<noteq> Some f"
  unfolding ledger_def by (metis option.distinct(1))

lemma set_update_other: "Some f \<in> set (own[p := x]) \<Longrightarrow> Some f \<in> set own \<or> x = Some f"
  by (auto dest!: set_update_subset_insert [THEN subsetD])

lemma set_update_gone:
  assumes "ledger own leaked m0 m" and "p < length own" and "own ! p = Some f"
  shows "Some g \<in> set (own[p := None]) \<longleftrightarrow> Some g \<in> set own \<and> g \<noteq> f"
proof
  assume "Some g \<in> set (own[p := None])"
  then obtain q where q: "q < length own" "own[p := None] ! q = Some g" by (auto simp: in_set_conv_nth)
  then have "q \<noteq> p" "own ! q = Some g" by (cases "q = p"; simp)+
  note q = q(1) this
  with ledger_other [OF assms(1,2) q(1) _ assms(3)] show "Some g \<in> set own \<and> g \<noteq> f" by (metis nth_mem)
next
  assume "Some g \<in> set own \<and> g \<noteq> f"
  then obtain q where "q < length own" "own ! q = Some g" "g \<noteq> f" by (auto simp: in_set_conv_nth)
  moreover from this have "q \<noteq> p" using assms(3) by auto
  ultimately show "Some g \<in> set (own[p := None])" by (auto simp: in_set_conv_nth nth_list_update intro!: exI [of _ q])
qed

lemma ledger_take:
  assumes l: "ledger own leaked m0 m" and p: "p < length own" "own ! p = None" and f: "m f = None"
  shows "ledger (own[p := Some f]) leaked m0 (m(f := Some c))"
proof -
  note fr = ledger_free [OF l f]
  have s: "Some g \<in> set (own[p := Some f]) \<longleftrightarrow> g = f \<or> Some g \<in> set own" for g
  proof
    assume "g = f \<or> Some g \<in> set own"
    moreover have "Some f \<in> set (own[p := Some f])" using p by (simp add: set_update_memI)
    moreover have "Some g \<in> set (own[p := Some f])" if q: "q < length own" "own ! q = Some g" for q
    proof -
      have "q \<noteq> p" using q p by auto
      then have "own[p := Some f] ! q = Some g" using q by simp
      then show ?thesis using q by (metis length_list_update nth_mem)
    qed
    ultimately show "Some g \<in> set (own[p := Some f])" by (auto simp: in_set_conv_nth)
  qed (auto dest!: set_update_other)
  have "own[p := Some f] ! a \<noteq> own[p := Some f] ! b"
    if "a < length own" "b < length own" "a \<noteq> b" "own[p := Some f] ! a \<noteq> None" for a b
    using that fr l p by (auto simp: ledger_def nth_list_update in_set_conv_nth split: if_splits)
  then show ?thesis using l fr by (auto simp: ledger_def s)
qed

lemma ledger_write: "ledger own leaked m0 m \<Longrightarrow> Some f \<in> set own \<Longrightarrow> ledger own leaked m0 (m(f := Some c))"
  by (auto simp: ledger_def)

lemma ledger_gone_distinct:
  assumes "ledger own leaked m0 m"
  shows "\<forall>a < length own. \<forall>b < length own. a \<noteq> b \<longrightarrow> own[p := None] ! a \<noteq> None \<longrightarrow> own[p := None] ! a \<noteq> own[p := None] ! b"
proof (intro allI impI)
  fix a b assume ab: "a < length own" "b < length own" "a \<noteq> b" "own[p := None] ! a \<noteq> None"
  then have "a \<noteq> p" by (cases "a = p") auto
  moreover from this ab have "own ! a \<noteq> None" "own ! a \<noteq> own ! b" using assms by (auto simp: ledger_def)
  ultimately show "own[p := None] ! a \<noteq> own[p := None] ! b" using ab by (cases "b = p") auto
qed

lemma ledger_drop:
  assumes "ledger own leaked m0 m" and "p < length own" and "own ! p = Some f"
  shows "ledger (own[p := None]) leaked m0 (m(f := None))"
proof -
  have "m0 f = None" using assms by (auto simp: ledger_def) (metis nth_mem)
  then show ?thesis using assms(1) ledger_gone_distinct [OF assms(1), of p] by (auto simp: ledger_def set_update_gone [OF assms])
qed

lemma ledger_leak:
  assumes "ledger own leaked m0 m" and "p < length own" and "own ! p = Some f"
  shows "ledger (own[p := None]) (f # leaked) m0 m"
proof -
  have "m0 f = None" using assms by (auto simp: ledger_def) (metis nth_mem)
  then show ?thesis using assms(1) ledger_gone_distinct [OF assms(1), of p] by (auto simp: ledger_def set_update_gone [OF assms])
qed

subsection \<open>The invariant\<close>

fun input_of :: "run_phase \<Rightarrow> string option" where
  "input_of RStart = None"
| "input_of (RCreated f) = Some f"
| "input_of (RWritten f) = Some f"
| "input_of (ROpen f d) = Some f"
| "input_of (RRan f d) = Some f"
| "input_of (RReturn o' i b a) = i"

fun out_of :: "run_phase \<Rightarrow> string option" where
  "out_of (ROpen f d) = Some d"
| "out_of (RRan f d) = Some d"
| "out_of (RReturn o' i b a) = o'"
| "out_of _ = None"

definition answer :: "fard \<Rightarrow> string \<times> json \<Rightarrow> go_error + json option" where
  "answer G job = (case fardrun_of G (fst job) (marshal (snd job)) of Inl e \<Rightarrow> Inl e | Inr raw \<Rightarrow> unwrap_result raw)"

lemma answer_bridge_Run: "h_fardrun H = fardrun_of G \<Longrightarrow> answer G job = bridge_Run H (fst job) (snd job)"
  by (simp add: answer_def bridge_Run_def)

text \<open>What a run knows of its own files.\<close>

fun run_ok :: "fard \<Rightarrow> string \<times> json \<Rightarrow> temp_files \<Rightarrow> run_phase \<Rightarrow> bool" where
  "run_ok G job F (RWritten f) \<longleftrightarrow> tf_inputs F f = Some (marshal (snd job))"
| "run_ok G job F (ROpen f d) \<longleftrightarrow> tf_inputs F f = Some (marshal (snd job)) \<and> tf_outs F d = Some (\<lambda>_. None)"
| "run_ok G job F (RRan f d) \<longleftrightarrow> (\<exists>files. G (fst job) (marshal (snd job)) = (files, None) \<and> tf_outs F d = Some (map_of files))"
| "run_ok G job F (RReturn o' i b a) \<longleftrightarrow> b \<or> a = answer G job"
| "run_ok G job F _ \<longleftrightarrow> True"

definition runs_inv :: "fard \<Rightarrow> (string \<times> json) list \<Rightarrow> temp_files \<Rightarrow> runs \<Rightarrow> bool" where
  "runs_inv G jobs F0 s \<longleftrightarrow>
     ledger (map input_of (ru_phase s)) (fst (ru_leaked s)) (tf_inputs F0) (tf_inputs (ru_files s)) \<and>
     ledger (map out_of (ru_phase s)) (snd (ru_leaked s)) (tf_outs F0) (tf_outs (ru_files s)) \<and>
     (\<forall>p < length (ru_phase s). p < length jobs \<longrightarrow> run_ok G (jobs ! p) (ru_files s) (ru_phase s ! p))"

definition runs_start :: "runs \<Rightarrow> bool" where
  "runs_start s \<longleftrightarrow> list_all (\<lambda>ph. ph = RStart) (ru_phase s) \<and> ru_leaked s = ([], [])"

lemma run_ok_cong:
  assumes "run_ok G job F ph" and "\<And>f. input_of ph = Some f \<Longrightarrow> tf_inputs F' f = tf_inputs F f"
    and "\<And>d. out_of ph = Some d \<Longrightarrow> tf_outs F' d = tf_outs F d"
  shows "run_ok G job F' ph"
  using assms by (cases ph) auto

text \<open>A step changes at most the files that are or become the run's own.\<close>

lemma inv_step:
  assumes inv: "runs_inv G jobs F0 s" and p: "p < length (ru_phase s)"
    and s': "ru_phase s' = (ru_phase s)[p := ph]"
    and i: "ledger ((map input_of (ru_phase s))[p := input_of ph]) (fst (ru_leaked s')) (tf_inputs F0) (tf_inputs (ru_files s'))"
    and ou: "ledger ((map out_of (ru_phase s))[p := out_of ph]) (snd (ru_leaked s')) (tf_outs F0) (tf_outs (ru_files s'))"
    and ok: "p < length jobs \<Longrightarrow> run_ok G (jobs ! p) (ru_files s') ph"
    and fi: "\<And>f. Some f \<in> set ((map input_of (ru_phase s))[p := None]) \<Longrightarrow> tf_inputs (ru_files s') f = tf_inputs (ru_files s) f"
    and fo: "\<And>d. Some d \<in> set ((map out_of (ru_phase s))[p := None]) \<Longrightarrow> tf_outs (ru_files s') d = tf_outs (ru_files s) d"
  shows "runs_inv G jobs F0 s'"
proof -
  have "run_ok G (jobs ! q) (ru_files s') ((ru_phase s)[p := ph] ! q)" if q: "q < length (ru_phase s)" "q < length jobs" for q
  proof (cases "q = p")
    case False
    have m: "g (ru_phase s ! q) \<in> set ((map g (ru_phase s))[p := None])" for g :: "run_phase \<Rightarrow> string option"
      using False q by (auto simp: in_set_conv_nth nth_list_update intro!: exI [of _ q])
    have "run_ok G (jobs ! q) (ru_files s') (ru_phase s ! q)"
    proof (rule run_ok_cong)
      show "run_ok G (jobs ! q) (ru_files s) (ru_phase s ! q)" using inv q by (simp add: runs_inv_def)
      show "tf_inputs (ru_files s') f = tf_inputs (ru_files s) f" if "input_of (ru_phase s ! q) = Some f" for f
        using m [of input_of] that by (intro fi) simp
      show "tf_outs (ru_files s') f = tf_outs (ru_files s) f" if "out_of (ru_phase s ! q) = Some f" for f
        using m [of out_of] that by (intro fo) simp
    qed
    then show ?thesis using False by simp
  qed (use ok p q in simp)
  then show ?thesis using i ou by (simp add: runs_inv_def s' map_update)
qed

lemma keeps_own: "(map g phs)[p := g (phs ! p)] = map g phs"
  by (simp add: map_update [symmetric])

lemma run_files_simps [simp]:
  "ru_phase (put_run s p ph) = (ru_phase s)[p := ph]" "ru_files (put_run s p ph) = ru_files s" "ru_leaked (put_run s p ph) = ru_leaked s"
  "ru_phase (put_input s f c) = ru_phase s" "ru_leaked (put_input s f c) = ru_leaked s"
  "tf_inputs (ru_files (put_input s f c)) = (tf_inputs (ru_files s))(f := c)" "tf_outs (ru_files (put_input s f c)) = tf_outs (ru_files s)"
  "ru_phase (put_out s d e) = ru_phase s" "ru_leaked (put_out s d e) = ru_leaked s"
  "tf_outs (ru_files (put_out s d e)) = (tf_outs (ru_files s))(d := e)" "tf_inputs (ru_files (put_out s d e)) = tf_inputs (ru_files s)"
  by (simp_all add: put_run_def put_input_def put_out_def)

lemma own_elsewhere:
  assumes "ledger own leaked m0 m" and "p < length own" and "own ! p = Some f" and "Some g \<in> set (own[p := None])"
  shows "g \<noteq> f"
  using assms set_update_gone by blast

lemma run_event_inv:
  assumes inv: "runs_inv G jobs F0 s" and p: "run_of e = p" "p < length (ru_phase s)" "p < length jobs"
    and e: "run_event G (jobs ! p) e (ru_phase s ! p) s = Some s'"
  shows "runs_inv G jobs F0 s'"
proof -
  let ?ph = "ru_phase s ! p" and ?in = "map input_of (ru_phase s)" and ?out = "map out_of (ru_phase s)"
  have li: "ledger ?in (fst (ru_leaked s)) (tf_inputs F0) (tf_inputs (ru_files s))"
    and lo: "ledger ?out (snd (ru_leaked s)) (tf_outs F0) (tf_outs (ru_files s))"
    and ok: "run_ok G (jobs ! p) (ru_files s) ?ph" using inv p by (simp_all add: runs_inv_def)
  have quiet_step: "runs_inv G jobs F0 (put_run s p ph)"
    if "input_of ph = input_of ?ph" "out_of ph = out_of ?ph" "run_ok G (jobs ! p) (ru_files s) ph" for ph
    by (rule inv_step [OF inv p(2), of _ ph])
      (use li lo that in \<open>simp_all add: keeps_own\<close>)
  have keep: "?in[p := x] = ?in" if "input_of ?ph = x" for x using that p(2) by (simp add: list_update_same_conv)
  have keepo: "?out[p := x] = ?out" if "out_of ?ph = x" for x using that p(2) by (simp add: list_update_same_conv)
  have own: "Some f \<in> set ?in" if "input_of ?ph = Some f" for f using that p(2) by (force simp: in_set_conv_nth)
  have owno: "Some d \<in> set ?out" if "out_of ?ph = Some d" for d using that p(2) by (force simp: in_set_conv_nth)
  show ?thesis
  proof (cases e)
    case (CreateTemp q f err)
    show ?thesis
    proof (cases err)
      case None
      with CreateTemp e p have ph: "?ph = RStart" and f: "tf_inputs (ru_files s) f = None" and s': "s' = put_input (put_run s p (RCreated f)) f (Some [])"
        by (auto split: run_phase.splits if_splits)
      show ?thesis unfolding s'
        by (rule inv_step [OF inv p(2), of _ "RCreated f"])
          (use lo ph p ledger_take [OF li _ _ f] ledger_free [OF li f] in \<open>auto simp: keep keepo\<close>)
    qed (use CreateTemp e p quiet_step in \<open>auto split: run_phase.splits\<close>)
  next
    case (WriteInput q err)
    then obtain f where ph: "?ph = RCreated f" using e by (auto split: run_phase.splits)
    show ?thesis
    proof (cases err)
      case None
      with WriteInput e p ph have s': "s' = put_input (put_run s p (RWritten f)) f (Some (marshal (snd (jobs ! p))))" by simp
      show ?thesis unfolding s'
        by (rule inv_step [OF inv p(2), of _ "RWritten f"])
          (use lo ph p ledger_write [OF li own] own_elsewhere [OF li] in \<open>auto simp: keep keepo\<close>)
    qed (use WriteInput e p ph quiet_step in auto)
  next
    case (MkdirTemp q d err)
    then obtain f where ph: "?ph = RWritten f" using e by (auto split: run_phase.splits)
    show ?thesis
    proof (cases err)
      case None
      with MkdirTemp e p ph have d: "tf_outs (ru_files s) d = None" and s': "s' = put_out (put_run s p (ROpen f d)) d (Some (\<lambda>_. None))"
        by (auto split: if_splits)
      show ?thesis unfolding s'
        by (rule inv_step [OF inv p(2), of _ "ROpen f d"])
          (use li ph p ok ledger_take [OF lo _ _ d] ledger_free [OF lo d] in \<open>auto simp: keep keepo\<close>)
    qed (use MkdirTemp e p ph quiet_step in auto)
  next
    case (RunFard q err)
    then obtain f d where ph: "?ph = ROpen f d" using e by (auto split: run_phase.splits)
    show ?thesis
    proof (cases err)
      case None
      obtain files r where g: "G (fst (jobs ! p)) (marshal (snd (jobs ! p))) = (files, r)" by fastforce
      let ?nw = "case r of Some e \<Rightarrow> RReturn (Some d) (Some f) False (Inl (EWrap (''fardrun '' @ fst (jobs ! p)) e)) | None \<Rightarrow> RRan f d"
      have s': "s' = put_out (put_run s p ?nw) d (Some (map_of files))"
        using RunFard None e p ph ok g by (simp add: empty_map_add)
      have o': "input_of ?nw = Some f" "out_of ?nw = Some d" by (simp_all split: option.split)
      show ?thesis unfolding s'
        by (rule inv_step [OF inv p(2), of _ ?nw])
          (use li ph p g ledger_write [OF lo owno] own_elsewhere [OF lo] o' in
            \<open>auto simp: keep keepo answer_def fardrun_of_def split: option.splits\<close>)
    qed (use RunFard e p ph quiet_step in auto)
  next
    case (ReadResult q err)
    then obtain f d where ph: "?ph = RRan f d" using e by (auto split: run_phase.splits)
    then show ?thesis using ReadResult e p ok
      by (cases err) (auto intro!: quiet_step simp: answer_def fardrun_of_def split: option.splits)
  next
    case (RemoveOut q okk)
    then obtain d i b a where ph: "?ph = RReturn (Some d) i b a" using e by (auto split: run_phase.splits option.splits)
    have s': "s' = (if okk then put_out (put_run s p (RReturn None i b a)) d None
       else (put_run s p (RReturn None i b a))\<lparr>ru_leaked := (fst (ru_leaked s), d # snd (ru_leaked s))\<rparr>)" using RemoveOut e p ph by auto
    show ?thesis unfolding s'
      by (rule inv_step [OF inv p(2), of _ "RReturn None i b a"])
        (use li ph p ok ledger_drop [OF lo, of p d] ledger_leak [OF lo, of p d] own_elsewhere [OF lo, of p d] in \<open>auto simp: keep keepo\<close>)
  next
    case (RemoveInput q okk)
    then obtain f b a where ph: "?ph = RReturn None (Some f) b a" using e by (auto split: run_phase.splits option.splits)
    have s': "s' = (if okk then put_input (put_run s p (RReturn None None b a)) f None
       else (put_run s p (RReturn None None b a))\<lparr>ru_leaked := (f # fst (ru_leaked s), snd (ru_leaked s))\<rparr>)" using RemoveInput e p ph by auto
    show ?thesis unfolding s'
      by (rule inv_step [OF inv p(2), of _ "RReturn None None b a"])
        (use lo ph p ok ledger_drop [OF li, of p f] ledger_leak [OF li, of p f] own_elsewhere [OF li, of p f] in \<open>auto simp: keep keepo\<close>)
  qed
qed

interpretation bridge_runs: stepping_system "\<lambda>s. runs_start s \<and> ru_files s = F0" "run_move G jobs" "runs_inv G jobs F0" for G jobs F0
proof
  fix s s'
  show "runs_inv G jobs F0 s" if "runs_start s \<and> ru_files s = F0"
  proof -
    have r: "ph = RStart" if "ph \<in> set (ru_phase s)" for ph using that \<open>runs_start s \<and> ru_files s = F0\<close> by (simp add: runs_start_def list_all_iff)
    have "input_of ph = None \<and> out_of ph = None" if "ph \<in> set (ru_phase s)" for ph using r [OF that] by simp
    moreover have "run_ok G (jobs ! p) (ru_files s) (ru_phase s ! p)" if "p < length (ru_phase s)" for p
      using r [OF nth_mem [OF that]] by simp
    ultimately show ?thesis using that by (auto simp: runs_start_def runs_inv_def list_all_iff intro!: ledger_start)
  qed
  show "runs_inv G jobs F0 s'" if "runs_inv G jobs F0 s" "run_move G jobs s s'"
    using that by (auto simp: run_move.simps run_step_def Let_def split: if_splits intro: run_event_inv)
qed

definition all_done :: "runs \<Rightarrow> bool" where
  "all_done s \<longleftrightarrow> list_all (\<lambda>ph. input_of ph = None \<and> out_of ph = None) (ru_phase s)"

subsection \<open>Properties\<close>

text \<open>
  C13: concurrent runs of the bridge do not disturb each other. However their steps interleave, a
  run in which no call of the operating system failed answers what the program computes from
  its own input, which is \<open>bridge_Run\<close>; and when all runs are over, the temporary files are as
  before except for those whose removal failed.
\<close>
theorem bridge_runs_isolated:
  assumes "runs_start s0" and "(run_move G jobs)\<^sup>*\<^sup>* s0 s" and "h_fardrun H = fardrun_of G"
  shows "(\<forall>p < length (ru_phase s). \<forall>o' i a. p < length jobs \<longrightarrow> ru_phase s ! p = RReturn o' i False a \<longrightarrow>
      a = bridge_Run H (fst (jobs ! p)) (snd (jobs ! p))) \<and>
    (all_done s \<longrightarrow>
      (\<forall>f. f \<notin> set (fst (ru_leaked s)) \<longrightarrow> tf_inputs (ru_files s) f = tf_inputs (ru_files s0) f) \<and>
      (\<forall>d. d \<notin> set (snd (ru_leaked s)) \<longrightarrow> tf_outs (ru_files s) d = tf_outs (ru_files s0) d))"
proof -
  have "runs_start s0 \<and> ru_files s0 = ru_files s0" using assms(1) by simp
  then have inv: "runs_inv G jobs (ru_files s0) s" using assms(2) by (rule bridge_runs.inv_reachable)
  have "a = bridge_Run H (fst (jobs ! p)) (snd (jobs ! p))"
    if "p < length (ru_phase s)" "p < length jobs" "ru_phase s ! p = RReturn o' i False a" for p o' i a
    using inv that by (auto simp: runs_inv_def answer_bridge_Run [OF assms(3)])
  moreover have "(\<forall>f. f \<notin> set (fst (ru_leaked s)) \<longrightarrow> tf_inputs (ru_files s) f = tf_inputs (ru_files s0) f) \<and>
      (\<forall>d. d \<notin> set (snd (ru_leaked s)) \<longrightarrow> tf_outs (ru_files s) d = tf_outs (ru_files s0) d)" if "all_done s"
  proof -
    have "Some f \<notin> set (map input_of (ru_phase s))" "Some f \<notin> set (map out_of (ru_phase s))" for f
      using that by (auto simp: all_done_def list_all_iff)
    then show ?thesis using inv by (simp add: runs_inv_def ledger_def)
  qed
  ultimately show ?thesis by blast
qed

text \<open>Two runs of a program that echoes its input as the result, their steps mixed; the second loses its input file's removal.\<close>

definition echo_fard :: fard where
  "echo_fard program input = ([(''result.json'', ''{\"result\":'' @ input @ ''}'')], None)"

definition two_runs :: runs where
  "two_runs = \<lparr>ru_files = \<lparr>tf_inputs = (\<lambda>_. None), tf_outs = (\<lambda>_. None)\<rparr>, ru_phase = [RStart, RStart], ru_leaked = ([], [])\<rparr>"

definition two_runs_events :: "bridge_event list" where
  "two_runs_events = [CreateTemp 0 ''i0'' None, CreateTemp 1 ''i1'' None, WriteInput 1 None, WriteInput 0 None, MkdirTemp 1 ''d1'' None,
     MkdirTemp 0 ''d0'' None, RunFard 0 None, RunFard 1 None, ReadResult 1 None, ReadResult 0 None, RemoveOut 0 True, RemoveOut 1 True,
     RemoveInput 1 False, RemoveInput 0 True]"

theorem bridge_runs_isolated_witness:
  "\<exists>s. run_steps (run_step echo_fard [(''p'', JInt 1), (''p'', JInt 2)]) two_runs_events two_runs = Some s \<and>
     ru_phase s = [RReturn None None False (Inr (Some (JInt 1))), RReturn None None False (Inr (Some (JInt 2)))] \<and>
     ru_leaked s = ([''i1''], []) \<and> tf_inputs (ru_files s) ''i0'' = None \<and>
     bridge_Run (\<lparr>h_fardrun = fardrun_of echo_fard, h_uuid = [], h_crypto = plain_crypto, h_snapshotEvery = 1,
       h_dberr = (\<lambda>_. []), h_trunc = (\<lambda>_. 0)\<rparr>) ''p'' (JInt 2) = Inr (Some (JInt 2))"
proof -
  let ?jobs = "[(''p'', JInt 1), (''p'', JInt 2)]"
  let ?H = "\<lparr>h_fardrun = fardrun_of echo_fard, h_uuid = [], h_crypto = plain_crypto, h_snapshotEvery = 1, h_dberr = (\<lambda>_. []), h_trunc = (\<lambda>_. 0)\<rparr>"
  have "map_option (\<lambda>s. (ru_phase s, ru_leaked s)) (run_steps (run_step echo_fard ?jobs) two_runs_events two_runs) =
      Some ([RReturn None None False (Inr (Some (JInt 1))), RReturn None None False (Inr (Some (JInt 2)))], ([''i1''], []))" by code_simp
  then obtain s where s: "run_steps (run_step echo_fard ?jobs) two_runs_events two_runs = Some s"
    "ru_phase s = [RReturn None None False (Inr (Some (JInt 1))), RReturn None None False (Inr (Some (JInt 2)))]"
    "ru_leaked s = ([''i1''], [])" by auto
  have st: "runs_start two_runs" by code_simp
  have m: "(run_move echo_fard ?jobs)\<^sup>*\<^sup>* two_runs s" by (rule run_steps_moves [OF run_move s(1)])
  have h: "h_fardrun ?H = fardrun_of echo_fard" by simp
  have "all_done s" using s(2) by (simp add: all_done_def)
  with bridge_runs_isolated [OF st m h] s have "tf_inputs (ru_files s) ''i0'' = None"
    "Inr (Some (JInt 2)) = bridge_Run ?H ''p'' (JInt 2)"
    by (auto simp: two_runs_def dest!: spec [where x = "1::nat"])
  with s show ?thesis by auto
qed

end
