(* ===== verification/Migrate.thy ===== *)
theory Migrate
  imports DB
begin

section \<open>Opening and migrating the database: store/db.go, Open and migrate\<close>

text \<open>
  The migration runner over a directory of scripts. A script is given by its statements; the
  ones that occur in \<^verbatim>\<open>acpd/migrations\<close> are modelled, and the ten files of that directory
  are \<open>repo_scripts\<close>. The engine keeps the tables with their columns, the indexes and the
  rows of \<^verbatim>\<open>schema_migrations\<close>. SQLite runs the statements of a script one after the other
  and keeps what was done before an error; Postgres runs a script without arguments in one
  transaction. The version check is sent without \<^verbatim>\<open>rebind\<close>, so Postgres, which knows no
  placeholder \<^verbatim>\<open>?\<close>, refuses it, and the runner goes on as if nothing was applied. Engine
  failures other than those of the statements themselves are not modelled here. Shown: a
  migrated database is left as it is by the next start, for both engines and for different
  reasons, and what a script that was cut off leaves behind.
\<close>

subsection \<open>Statements of migration scripts\<close>

datatype ddl =
    CreateTable string "string list" \<comment> \<open>\<^verbatim>\<open>CREATE TABLE IF NOT EXISTS\<close>\<close>
  | CreateIndex string string "string list" \<comment> \<open>\<^verbatim>\<open>CREATE INDEX IF NOT EXISTS\<close>\<close>
  | AddColumn bool string string \<comment> \<open>\<^verbatim>\<open>ALTER TABLE ADD COLUMN\<close>, with \<^verbatim>\<open>IF NOT EXISTS\<close> or without\<close>
  | RecordVersion string \<comment> \<open>\<^verbatim>\<open>INSERT INTO schema_migrations\<close>, a conflict ignored\<close>

record schema =
  sc_tables :: "(string \<times> string list) list"
  sc_indexes :: "string list"
  sc_versions :: "string list"

fun run_ddl :: "ddl \<Rightarrow> schema \<Rightarrow> go_error option \<times> schema" where
  "run_ddl (CreateTable t cols) s =
     (case map_of (sc_tables s) t of
        Some _ \<Rightarrow> (None, s)
      | None \<Rightarrow> (None, s\<lparr>sc_tables := sc_tables s @ [(t, cols)]\<rparr>))"
| "run_ddl (CreateIndex i t cols) s =
     (if i \<in> set (sc_indexes s) then (None, s)
      else case map_of (sc_tables s) t of
        None \<Rightarrow> (Some (EMsg (''no such table: '' @ t)), s)
      | Some cs \<Rightarrow> if set cols \<subseteq> set cs then (None, s\<lparr>sc_indexes := sc_indexes s @ [i]\<rparr>)
          else (Some (EMsg (''no such column in '' @ t)), s))"
| "run_ddl (AddColumn ifne t c) s =
     (case map_of (sc_tables s) t of
        None \<Rightarrow> (Some (EMsg (''no such table: '' @ t)), s)
      | Some cs \<Rightarrow>
          if c \<in> set cs then (if ifne then None else Some (EMsg (''duplicate column name: '' @ c)), s)
          else (None, s\<lparr>sc_tables := map (\<lambda>(n, cols). if n = t then (n, cols @ [c]) else (n, cols)) (sc_tables s)\<rparr>))"
| "run_ddl (RecordVersion v) s =
     (case map_of (sc_tables s) ''schema_migrations'' of
        None \<Rightarrow> (Some (EMsg ''no such table: schema_migrations''), s)
      | Some _ \<Rightarrow> (None, if v \<in> set (sc_versions s) then s else s\<lparr>sc_versions := sc_versions s @ [v]\<rparr>))"

fun run_script :: "ddl list \<Rightarrow> schema \<Rightarrow> go_error option \<times> schema" where
  "run_script [] s = (None, s)"
| "run_script (x # xs) s = (case run_ddl x s of (Some e, s') \<Rightarrow> (Some e, s') | (None, s') \<Rightarrow> run_script xs s')"

text \<open>\<^verbatim>\<open>d.sql.Exec\<close> on the text of a script, and the version check with its unbound placeholder.\<close>

definition exec_script :: "string \<Rightarrow> ddl list \<Rightarrow> schema \<Rightarrow> go_error option \<times> schema" where
  "exec_script drv xs s =
     (case run_script xs s of
        (None, s') \<Rightarrow> (None, s')
      | (Some e, s') \<Rightarrow> (Some e, if drv = ''pgx'' then s else s'))"

definition count_version :: "string \<Rightarrow> string \<Rightarrow> schema \<Rightarrow> go_error + nat" where
  "count_version drv v s =
     (if drv = ''pgx'' then Inl EDialect
      else case map_of (sc_tables s) ''schema_migrations'' of
        None \<Rightarrow> Inl (EMsg ''no such table: schema_migrations'')
      | Some _ \<Rightarrow> Inr (length (filter (\<lambda>x. x = v) (sc_versions s))))"

subsection \<open>db.go: choosing the files\<close>

record DirEntry =
  de_Name :: string
  de_IsDir :: bool

record migration =
  mg_version :: string
  mg_file :: string

record MigrationDir =
  dir_path :: string
  dir_entries :: "go_error + DirEntry list"
  dir_read :: "string \<Rightarrow> go_error + ddl list"

text \<open>\<^verbatim>\<open>os.Stat\<close> finds exactly the entries of the directory.\<close>

fun choose_migrations :: "bool \<Rightarrow> string list \<Rightarrow> DirEntry list \<Rightarrow> string list \<Rightarrow> migration list" where
  "choose_migrations pg names [] seen = []"
| "choose_migrations pg names (e # es) seen =
     (let name = de_Name e; isPostgres = HasSuffix name ''.postgres.sql'' in
      if de_IsDir e \<or> \<not> HasSuffix name ''.sql'' then choose_migrations pg names es seen
      else if isPostgres \<and> \<not> pg then choose_migrations pg names es seen
      else if \<not> isPostgres \<and> pg \<and> TrimSuffix name ''.sql'' @ ''.postgres.sql'' \<in> set names then choose_migrations pg names es seen
      else let version = (if isPostgres then TrimSuffix name ''.postgres.sql'' else TrimSuffix name ''.sql'') in
        if version \<in> set seen then choose_migrations pg names es seen
        else \<lparr>mg_version = version, mg_file = name\<rparr> # choose_migrations pg names es (version # seen))"

subsection \<open>db.go: migrate and Open\<close>

definition migrate_one :: "string \<Rightarrow> (string \<Rightarrow> go_error + ddl list) \<Rightarrow> migration \<Rightarrow> schema \<Rightarrow> go_error option \<times> schema" where
  "migrate_one drv readFile m s =
     (let count = (case count_version drv (mg_version m) s of Inl scanErr \<Rightarrow> 0 | Inr n \<Rightarrow> n) in
      if count > 0 then (None, s)
      else case readFile (mg_file m) of
        Inl e \<Rightarrow> (Some e, s)
      | Inr sqlBytes \<Rightarrow>
          (case exec_script drv sqlBytes s of
             (Some e, s') \<Rightarrow> (Some (EWrap (''migration '' @ mg_file m) e), s')
           | (None, s') \<Rightarrow> (None, s')))"

fun each_until_error :: "('m \<Rightarrow> 's \<Rightarrow> go_error option \<times> 's) \<Rightarrow> 'm list \<Rightarrow> 's \<Rightarrow> go_error option \<times> 's" where
  "each_until_error f [] s = (None, s)"
| "each_until_error f (m # ms) s = (case f m s of (Some e, s') \<Rightarrow> (Some e, s') | (None, s') \<Rightarrow> each_until_error f ms s')"

definition migrations_of :: "string \<Rightarrow> DirEntry list \<Rightarrow> migration list" where
  "migrations_of drv es = choose_migrations (drv = ''pgx'') (map de_Name es) es []"

definition migrate :: "string \<Rightarrow> MigrationDir \<Rightarrow> schema \<Rightarrow> go_error option \<times> schema" where
  "migrate drv dir s =
     (case dir_entries dir of
        Inl e \<Rightarrow> (Some (EWrap (''read migrations dir '' @ dir_path dir) e), s)
      | Inr entries \<Rightarrow> each_until_error (migrate_one drv (dir_read dir)) (migrations_of drv entries) s)"

record PoolLimits =
  pl_MaxOpenConns :: int
  pl_MaxIdleConns :: int
  pl_ConnMaxLifetime :: int
  pl_ConnMaxIdleTime :: int

definition pool_limits :: "string \<Rightarrow> PoolLimits" where
  "pool_limits drv =
     (if drv = ''sqlite3''
      then \<lparr>pl_MaxOpenConns = 1, pl_MaxIdleConns = 1, pl_ConnMaxLifetime = 0, pl_ConnMaxIdleTime = 0\<rparr>
      else \<lparr>pl_MaxOpenConns = 20, pl_MaxIdleConns = 5, pl_ConnMaxLifetime = 30 * 60, pl_ConnMaxIdleTime = 5 * 60\<rparr>)"

definition Open :: "(string \<Rightarrow> string \<Rightarrow> go_error option) \<Rightarrow> (string \<Rightarrow> string \<Rightarrow> go_error option) \<Rightarrow> MigrationDir \<Rightarrow>
    string \<Rightarrow> schema \<Rightarrow> (go_error + string \<times> PoolLimits) \<times> schema" where
  "Open sqlOpen ping dir dsn s =
     (case resolveDriver dsn of (drv, normalizedDSN) \<Rightarrow>
        (case sqlOpen drv normalizedDSN of
           Some e \<Rightarrow> (Inl (EWrap (''open db ('' @ drv @ '')'') e), s)
         | None \<Rightarrow>
        (case ping drv normalizedDSN of
           Some e \<Rightarrow> (Inl (EWrap (''ping db ('' @ drv @ '')'') e), s)
         | None \<Rightarrow>
        (case migrate drv dir s of
           (Some e, s') \<Rightarrow> (Inl (EWrap ''migrate'' e), s')
         | (None, s') \<Rightarrow> (Inr (drv, pool_limits drv), s')))))"

subsection \<open>acpd/migrations\<close>

text \<open>The files of a version differ between the engines only in \<^verbatim>\<open>IF NOT EXISTS\<close> of the added columns.\<close>

definition initial_script :: "ddl list" where
  "initial_script =
     [CreateTable ''actors'' [''actor_id'', ''api_key_hash'', ''roles_json'', ''allowed_agents_json'', ''allowed_workflows_json'',
        ''created_at'', ''updated_at''],
      CreateIndex ''idx_actors_api_key_hash'' ''actors'' [''api_key_hash''],
      CreateTable ''workflows'' [''workflow_id'', ''goal'', ''owner'', ''stage'', ''state_hash'', ''current_seq'', ''snapshot_seq'',
        ''created_at'', ''updated_at''],
      CreateIndex ''idx_workflows_stage'' ''workflows'' [''stage''],
      CreateIndex ''idx_workflows_updated_at'' ''workflows'' [''updated_at''],
      CreateTable ''workflow_snapshots'' [''workflow_id'', ''seq'', ''state_json'', ''state_hash'', ''created_at''],
      CreateIndex ''idx_snapshots_workflow_seq'' ''workflow_snapshots'' [''workflow_id'', ''seq''],
      CreateTable ''deltas'' [''workflow_id'', ''seq'', ''delta_json'', ''delta_hash'', ''prev_delta_hash'', ''created_at''],
      CreateIndex ''idx_deltas_workflow_seq'' ''deltas'' [''workflow_id'', ''seq''],
      CreateTable ''receipts'' [''workflow_id'', ''seq'', ''receipt_digest'', ''receipt_json'', ''prev_receipt_digest'', ''created_at''],
      CreateIndex ''idx_receipts_workflow_seq'' ''receipts'' [''workflow_id'', ''seq''],
      CreateIndex ''idx_receipts_digest'' ''receipts'' [''receipt_digest''],
      CreateTable ''artifacts'' [''digest'', ''workflow_id'', ''artifact_json'', ''content_ref'', ''created_at''],
      CreateIndex ''idx_artifacts_workflow'' ''artifacts'' [''workflow_id''],
      CreateTable ''gates'' [''token'', ''workflow_id'', ''seq'', ''status'', ''gate_json'', ''resolved_at'', ''resolved_by'', ''created_at''],
      CreateIndex ''idx_gates_workflow'' ''gates'' [''workflow_id''],
      CreateIndex ''idx_gates_status'' ''gates'' [''status''],
      CreateTable ''tasks'' [''task_id'', ''workflow_id'', ''node_id'', ''agent'', ''status'', ''priority'', ''input_json'', ''output_json'',
        ''policy_result_json'', ''claimed_by'', ''claimed_at'', ''timeout_sec'', ''completed_at'', ''failed_reason'', ''created_at'',
        ''updated_at''],
      CreateIndex ''idx_tasks_agent_status'' ''tasks'' [''agent'', ''status''],
      CreateIndex ''idx_tasks_workflow'' ''tasks'' [''workflow_id''],
      CreateIndex ''idx_tasks_status'' ''tasks'' [''status''],
      CreateIndex ''idx_tasks_claimed_at'' ''tasks'' [''claimed_at''],
      CreateTable ''audit_events'' [''id'', ''workflow_id'', ''actor_id'', ''event_type'', ''event_json'', ''digest'', ''prev_digest'', ''created_at''],
      CreateIndex ''idx_audit_workflow'' ''audit_events'' [''workflow_id''],
      CreateIndex ''idx_audit_actor'' ''audit_events'' [''actor_id''],
      CreateIndex ''idx_audit_event_type'' ''audit_events'' [''event_type''],
      CreateIndex ''idx_audit_created_at'' ''audit_events'' [''created_at''],
      CreateTable ''policy_versions'' [''policy_version'', ''policy_json'', ''policy_digest'', ''created_at'']]"

definition migrations_table :: ddl where
  "migrations_table = CreateTable ''schema_migrations'' [''version'', ''applied_at'']"

definition indexes_script :: "ddl list" where
  "indexes_script =
     [CreateIndex ''idx_workflows_stage_updated'' ''workflows'' [''stage'', ''updated_at''],
      CreateIndex ''idx_workflows_owner'' ''workflows'' [''owner'', ''updated_at''],
      CreateIndex ''idx_receipts_chain'' ''receipts'' [''workflow_id'', ''seq'', ''receipt_digest''],
      CreateIndex ''idx_deltas_since_seq'' ''deltas'' [''workflow_id'', ''seq'', ''delta_hash''],
      CreateIndex ''idx_snapshots_nearest'' ''workflow_snapshots'' [''workflow_id'', ''seq'', ''state_hash''],
      CreateIndex ''idx_tasks_queue'' ''tasks'' [''agent'', ''status'', ''priority'', ''created_at''],
      CreateIndex ''idx_tasks_expiry'' ''tasks'' [''status'', ''claimed_at'', ''timeout_sec''],
      CreateIndex ''idx_gates_inbox'' ''gates'' [''status'', ''created_at''],
      CreateIndex ''idx_audit_time_range'' ''audit_events'' [''created_at'', ''workflow_id''],
      RecordVersion ''002_indexes'']"

definition hardening_script :: "bool \<Rightarrow> ddl list" where
  "hardening_script ifne =
     [AddColumn ifne ''tasks'' ''attempt_count'', AddColumn ifne ''tasks'' ''max_attempts'', AddColumn ifne ''tasks'' ''last_heartbeat'',
      AddColumn ifne ''tasks'' ''dead_lettered'', AddColumn ifne ''tasks'' ''priority_lane'',
      CreateTable ''dead_letter_tasks'' [''task_id'', ''workflow_id'', ''node_id'', ''agent'', ''input_json'', ''failed_reason'',
        ''attempt_count'', ''original_created'', ''dead_lettered_at''],
      CreateIndex ''idx_dead_letter_workflow'' ''dead_letter_tasks'' [''workflow_id''],
      CreateIndex ''idx_dead_letter_agent'' ''dead_letter_tasks'' [''agent''],
      CreateTable ''workers'' [''worker_id'', ''agent'', ''status'', ''last_heartbeat'', ''current_task_id'', ''registered_at''],
      CreateIndex ''idx_workers_agent'' ''workers'' [''agent''],
      CreateIndex ''idx_workers_status'' ''workers'' [''status''],
      CreateIndex ''idx_tasks_heartbeat'' ''tasks'' [''last_heartbeat'', ''status''],
      CreateIndex ''idx_tasks_priority_lane'' ''tasks'' [''agent'', ''status'', ''priority_lane'', ''priority'', ''created_at''],
      RecordVersion ''003_worker_hardening'']"

definition branches_script :: "ddl list" where
  "branches_script =
     [CreateTable ''branches'' [''branch_id'', ''parent_id'', ''branch_point_seq'', ''branch_point_hash'', ''reason'', ''kind'', ''created_at''],
      CreateIndex ''idx_branches_parent'' ''branches'' [''parent_id'', ''branch_point_seq''],
      CreateIndex ''idx_branches_kind'' ''branches'' [''kind'', ''created_at''],
      RecordVersion ''004_branches'']"

definition anchors_script :: "ddl list" where
  "anchors_script =
     [CreateTable ''anchors'' [''proof_id'', ''workflow_id'', ''seq_from'', ''seq_to'', ''chain_root'', ''payload_digest'', ''proof_digest'',
        ''external_kind'', ''external_ref'', ''anchored_by'', ''payload_json'', ''proof_json'', ''created_at''],
      CreateIndex ''idx_anchors_workflow'' ''anchors'' [''workflow_id'', ''seq_from'', ''seq_to''],
      CreateIndex ''idx_anchors_kind'' ''anchors'' [''external_kind'', ''created_at''],
      RecordVersion ''005_anchors'']"

definition repo_scripts :: "(string \<times> ddl list) list" where
  "repo_scripts =
     [(''001_initial.postgres.sql'', migrations_table # initial_script @ [RecordVersion ''001_initial'']),
      (''001_initial.sql'', initial_script @ [migrations_table, RecordVersion ''001_initial'']),
      (''002_indexes.postgres.sql'', indexes_script),
      (''002_indexes.sql'', indexes_script),
      (''003_worker_hardening.postgres.sql'', hardening_script True),
      (''003_worker_hardening.sql'', hardening_script False),
      (''004_branches.postgres.sql'', branches_script),
      (''004_branches.sql'', branches_script),
      (''005_anchors.postgres.sql'', anchors_script),
      (''005_anchors.sql'', anchors_script)]"

definition repo_dir :: MigrationDir where
  "repo_dir = \<lparr>dir_path = ''migrations'', dir_entries = Inr (map (\<lambda>(n, _). \<lparr>de_Name = n, de_IsDir = False\<rparr>) repo_scripts),
     dir_read = (\<lambda>n. case map_of repo_scripts n of None \<Rightarrow> Inl (EMsg ''no such file'') | Some xs \<Rightarrow> Inr xs)\<rparr>"

definition empty_schema :: schema where
  "empty_schema = \<lparr>sc_tables = [], sc_indexes = [], sc_versions = []\<rparr>"

subsection \<open>What a script achieves\<close>

fun satisfied :: "schema \<Rightarrow> ddl \<Rightarrow> bool" where
  "satisfied s (CreateTable t cols) \<longleftrightarrow> map_of (sc_tables s) t \<noteq> None"
| "satisfied s (CreateIndex i t cols) \<longleftrightarrow> i \<in> set (sc_indexes s)"
| "satisfied s (AddColumn ifne t c) \<longleftrightarrow> (\<exists>cs. map_of (sc_tables s) t = Some cs \<and> c \<in> set cs)"
| "satisfied s (RecordVersion v) \<longleftrightarrow> map_of (sc_tables s) ''schema_migrations'' \<noteq> None \<and> v \<in> set (sc_versions s)"

fun repeatable :: "ddl \<Rightarrow> bool" where
  "repeatable (AddColumn ifne t c) \<longleftrightarrow> ifne"
| "repeatable _ \<longleftrightarrow> True"

lemma map_of_add_column:
  "map_of (map (\<lambda>(n, cols). if n = t then (n, cols @ [c]) else (n, cols)) ts) u =
     (if u = t then map_option (\<lambda>cols. cols @ [c]) (map_of ts u) else map_of ts u)"
  by (induction ts) auto

lemma run_ddl_repeats: "satisfied s x \<Longrightarrow> repeatable x \<Longrightarrow> run_ddl x s = (None, s)"
  by (cases x) (auto split: option.splits)

lemma run_ddl_satisfies: "run_ddl x s = (None, s') \<Longrightarrow> satisfied s' x"
  by (cases x) (auto simp: map_of_add_column map_add_def split: option.splits if_splits)

lemma run_ddl_keeps: "run_ddl x s = (r, s') \<Longrightarrow> satisfied s y \<Longrightarrow> satisfied s' y"
  by (cases x; cases y) (auto simp: map_of_add_column map_add_def split: option.splits if_splits)

lemma run_script_repeats: "list_all (satisfied s) xs \<Longrightarrow> list_all repeatable xs \<Longrightarrow> run_script xs s = (None, s)"
  by (induction xs) (auto simp: run_ddl_repeats)

lemma run_script_keeps: "run_script xs s = (r, s') \<Longrightarrow> satisfied s y \<Longrightarrow> satisfied s' y"
  by (induction xs arbitrary: s) (auto split: prod.splits option.splits dest: run_ddl_keeps)

lemma run_script_satisfies: "run_script xs s = (None, s') \<Longrightarrow> list_all (satisfied s') xs"
  by (induction xs arbitrary: s)
    (auto split: prod.splits option.splits dest: run_ddl_satisfies intro: run_script_keeps)

subsection \<open>Restarting a migration\<close>

text \<open>
  The contract of one migration: when it returns nil it is settled, a settled migration
  changes nothing, and settled migrations stay settled. It makes the whole run repeatable.
\<close>

locale restartable =
  fixes known :: "'m \<Rightarrow> bool" and run :: "'m \<Rightarrow> 's \<Rightarrow> go_error option \<times> 's" and settled :: "'m \<Rightarrow> 's \<Rightarrow> bool"
  assumes run_settles: "known m \<Longrightarrow> run m s = (None, s') \<Longrightarrow> settled m s'"
    and settled_runs: "known m \<Longrightarrow> settled m s \<Longrightarrow> run m s = (None, s)"
    and settled_kept: "run m s = (None, s') \<Longrightarrow> settled n s \<Longrightarrow> settled n s'"
begin

lemma all_kept: "each_until_error run ms s = (None, s') \<Longrightarrow> settled n s \<Longrightarrow> settled n s'"
  by (induction ms arbitrary: s) (auto split: prod.splits option.splits dest: settled_kept)

lemma all_settled: "list_all known ms \<Longrightarrow> each_until_error run ms s = (None, s') \<Longrightarrow> list_all (\<lambda>m. settled m s') ms"
  by (induction ms arbitrary: s) (auto split: prod.splits option.splits dest: run_settles intro: all_kept)

lemma settled_all: "list_all known ms \<Longrightarrow> list_all (\<lambda>m. settled m s) ms \<Longrightarrow> each_until_error run ms s = (None, s)"
  by (induction ms) (auto simp: settled_runs)

lemma again: "list_all known ms \<Longrightarrow> each_until_error run ms s = (None, s') \<Longrightarrow> each_until_error run ms s' = (None, s')"
  by (blast intro: settled_all all_settled)

end

text \<open>
  On SQLite a migration is settled by its recorded version, so its script must record it; on
  Postgres, where the version check always fails, by the effects of its statements, all of
  which must be repeatable.
\<close>

definition script_ok :: "string \<Rightarrow> (string \<Rightarrow> go_error + ddl list) \<Rightarrow> migration \<Rightarrow> bool" where
  "script_ok drv readFile m \<longleftrightarrow> (case readFile (mg_file m) of
      Inl e \<Rightarrow> True
    | Inr xs \<Rightarrow> if drv = ''pgx'' then list_all repeatable xs else RecordVersion (mg_version m) \<in> set xs)"

definition settled_in :: "string \<Rightarrow> (string \<Rightarrow> go_error + ddl list) \<Rightarrow> migration \<Rightarrow> schema \<Rightarrow> bool" where
  "settled_in drv readFile m s \<longleftrightarrow>
     (if drv = ''pgx'' then (case readFile (mg_file m) of Inl e \<Rightarrow> False | Inr xs \<Rightarrow> list_all (satisfied s) xs)
      else satisfied s (RecordVersion (mg_version m)))"

lemma exec_script_None: "exec_script drv xs s = (None, s') \<longleftrightarrow> run_script xs s = (None, s')"
  by (auto simp: exec_script_def split: prod.splits option.splits)

lemma count_version_applied:
  "(case count_version drv v s of Inl e \<Rightarrow> 0 | Inr n \<Rightarrow> n) > 0 \<longleftrightarrow> drv \<noteq> ''pgx'' \<and> satisfied s (RecordVersion v)"
  by (auto simp: count_version_def filter_empty_conv split: option.splits)

lemma migrate_one_None:
  "migrate_one drv readFile m s = (None, s') \<longleftrightarrow>
     (if drv \<noteq> ''pgx'' \<and> satisfied s (RecordVersion (mg_version m)) then s' = s
      else \<exists>xs. readFile (mg_file m) = Inr xs \<and> run_script xs s = (None, s'))"
proof (cases "readFile (mg_file m)")
  case (Inr xs)
  obtain r s1 where x: "exec_script drv xs s = (r, s1)" by (cases "exec_script drv xs s")
  then have "(r = None \<and> s1 = s') \<longleftrightarrow> run_script xs s = (None, s')" using exec_script_None [of drv xs s s'] by auto
  with x Inr show ?thesis unfolding migrate_one_def Let_def count_version_applied by (cases r) (auto simp del: satisfied.simps)
qed (auto simp: migrate_one_def Let_def count_version_applied simp del: satisfied.simps)

interpretation migrations: restartable "script_ok drv readFile" "migrate_one drv readFile" "settled_in drv readFile" for drv readFile
proof
  fix m n s s'
  show "settled_in drv readFile m s'" if "script_ok drv readFile m" "migrate_one drv readFile m s = (None, s')"
    using that by (auto simp: migrate_one_None script_ok_def settled_in_def list_all_iff simp del: satisfied.simps
        dest!: run_script_satisfies split: if_splits)
  show "migrate_one drv readFile m s = (None, s)" if "script_ok drv readFile m" "settled_in drv readFile m s"
    using that by (auto simp: migrate_one_None script_ok_def settled_in_def simp del: satisfied.simps
        intro: run_script_repeats split: sum.splits if_splits)
  show "settled_in drv readFile n s'" if "migrate_one drv readFile m s = (None, s')" "settled_in drv readFile n s"
    using that by (auto simp: migrate_one_None settled_in_def list_all_iff simp del: satisfied.simps
        split: if_splits sum.splits intro: run_script_keeps)
qed

subsection \<open>Properties\<close>

definition dir_ok :: "string \<Rightarrow> MigrationDir \<Rightarrow> bool" where
  "dir_ok drv dir \<longleftrightarrow> (case dir_entries dir of Inl e \<Rightarrow> True | Inr es \<Rightarrow> list_all (script_ok drv (dir_read dir)) (migrations_of drv es))"

lemma repo_dir_ok: "dir_ok ''sqlite3'' repo_dir" "dir_ok ''pgx'' repo_dir"
  by code_simp+

lemma migrate_again: "dir_ok drv dir \<Longrightarrow> migrate drv dir s = (None, s') \<Longrightarrow> migrate drv dir s' = (None, s')"
  by (auto simp: migrate_def dir_ok_def split: sum.splits intro: migrations.again)

text \<open>The tables and columns the rows of this development have are those the scripts create.\<close>

lemma migrate_repo_tables:
  "drv \<in> {''sqlite3'', ''pgx''} \<Longrightarrow> fst (migrate drv repo_dir empty_schema) = None \<and>
     map_of (sc_tables (snd (migrate drv repo_dir empty_schema))) ''tasks'' = Some [''task_id'', ''workflow_id'', ''node_id'', ''agent'',
       ''status'', ''priority'', ''input_json'', ''output_json'', ''policy_result_json'', ''claimed_by'', ''claimed_at'', ''timeout_sec'',
       ''completed_at'', ''failed_reason'', ''created_at'', ''updated_at'', ''attempt_count'', ''max_attempts'', ''last_heartbeat'',
       ''dead_lettered'', ''priority_lane'']"
  by (elim insertE emptyE; simp only:; code_simp)

text \<open>
  C36: opening a database is repeatable. When \<^verbatim>\<open>Open\<close> has succeeded, every later \<^verbatim>\<open>Open\<close> with
  the same directory succeeds and leaves the schema as it is: on SQLite because the recorded
  versions are skipped, on Postgres, where the check of the versions never succeeds and every
  script runs again, because every statement of the scripts can be repeated.
\<close>
theorem Open_idempotent:
  assumes "dir_ok (fst (resolveDriver dsn)) dir" and "Open sqlOpen ping dir dsn s = (Inr h, s')"
  shows "Open sqlOpen ping dir dsn s' = (Inr h, s')"
  using assms migrate_again [of "fst (resolveDriver dsn)" dir s s']
  by (auto simp: Open_def split: prod.splits option.splits)

definition sample_open :: "string \<Rightarrow> schema \<Rightarrow> (go_error + string \<times> PoolLimits) \<times> schema" where
  "sample_open = Open (\<lambda>_ _. None) (\<lambda>_ _. None) repo_dir"

theorem Open_idempotent_witness:
  "\<exists>h s'. sample_open ''postgres://db'' empty_schema = (Inr h, s') \<and> sample_open ''postgres://db'' s' = (Inr h, s') \<and>
     length (sc_versions s') = 5"
proof -
  have d: "dir_ok (fst (resolveDriver ''postgres://db'')) repo_dir" by code_simp
  have "(case sample_open ''postgres://db'' empty_schema of (Inl e, s') \<Rightarrow> False | (Inr h, s') \<Rightarrow> length (sc_versions s') = 5)" by code_simp
  then obtain h s' where o: "sample_open ''postgres://db'' empty_schema = (Inr h, s')" "length (sc_versions s') = 5"
    by (auto split: prod.splits sum.splits)
  from Open_idempotent [OF d o(1) [unfolded sample_open_def]] o show ?thesis by (auto simp: sample_open_def)
qed

lemma repo_migrations:
  "(case dir_entries repo_dir of Inl e \<Rightarrow> [] | Inr es \<Rightarrow> migrations_of ''sqlite3'' es) =
     [\<lparr>mg_version = ''001_initial'', mg_file = ''001_initial.sql''\<rparr>, \<lparr>mg_version = ''002_indexes'', mg_file = ''002_indexes.sql''\<rparr>,
      \<lparr>mg_version = ''003_worker_hardening'', mg_file = ''003_worker_hardening.sql''\<rparr>,
      \<lparr>mg_version = ''004_branches'', mg_file = ''004_branches.sql''\<rparr>, \<lparr>mg_version = ''005_anchors'', mg_file = ''005_anchors.sql''\<rparr>]"
  by code_simp

text \<open>
  C38: a migration that was cut off cannot be repaired by a restart. On SQLite the script
  that adds the columns of the task queue runs without a transaction; once one of its
  columns exists and its version is not recorded, every start fails with the same error and
  leaves the schema as it is.
\<close>
theorem interrupted_migration_stuck:
  assumes "satisfied s (RecordVersion ''001_initial'')" and "satisfied s (RecordVersion ''002_indexes'')"
    and "\<not> satisfied s (RecordVersion ''003_worker_hardening'')" and "satisfied s (AddColumn False ''tasks'' ''attempt_count'')"
  shows "migrate ''sqlite3'' repo_dir s =
    (Some (EWrap ''migration 003_worker_hardening.sql'' (EMsg ''duplicate column name: attempt_count'')), s)"
proof -
  obtain es where es: "dir_entries repo_dir = Inr es" by (simp add: repo_dir_def)
  have r: "dir_read repo_dir ''003_worker_hardening.sql'' = Inr (hardening_script False)" by code_simp
  have "migrate_one ''sqlite3'' (dir_read repo_dir) \<lparr>mg_version = ''001_initial'', mg_file = ''001_initial.sql''\<rparr> s = (None, s)"
    "migrate_one ''sqlite3'' (dir_read repo_dir) \<lparr>mg_version = ''002_indexes'', mg_file = ''002_indexes.sql''\<rparr> s = (None, s)"
    using assms(1,2) by (simp_all add: migrate_one_None del: satisfied.simps)
  moreover have "run_script (hardening_script False) s = (Some (EMsg ''duplicate column name: attempt_count''), s)"
    using assms(4) by (auto simp: hardening_script_def)
  then have "migrate_one ''sqlite3'' (dir_read repo_dir) \<lparr>mg_version = ''003_worker_hardening'', mg_file = ''003_worker_hardening.sql''\<rparr> s =
      (Some (EWrap ''migration 003_worker_hardening.sql'' (EMsg ''duplicate column name: attempt_count'')), s)"
    using assms(3) r unfolding migrate_one_def Let_def count_version_applied by (simp add: exec_script_def del: satisfied.simps)
  ultimately show ?thesis using repo_migrations es by (simp add: migrate_def)
qed

definition cut_off :: schema where
  "cut_off = snd (run_script (initial_script @ [migrations_table, RecordVersion ''001_initial''] @ indexes_script @
     take 2 (hardening_script False)) empty_schema)"

theorem interrupted_migration_stuck_witness:
  "migrate ''sqlite3'' repo_dir cut_off =
     (Some (EWrap ''migration 003_worker_hardening.sql'' (EMsg ''duplicate column name: attempt_count'')), cut_off)"
proof (rule interrupted_migration_stuck)
  have "(\<lambda>s. (sc_versions s, map_of (sc_tables s) ''schema_migrations'' \<noteq> None,
      case map_of (sc_tables s) ''tasks'' of None \<Rightarrow> False | Some cs \<Rightarrow> ''attempt_count'' \<in> set cs)) cut_off =
      ([''001_initial'', ''002_indexes''], True, True)" by code_simp
  then show "satisfied cut_off (RecordVersion ''001_initial'')" "satisfied cut_off (RecordVersion ''002_indexes'')"
    "\<not> satisfied cut_off (RecordVersion ''003_worker_hardening'')" "satisfied cut_off (AddColumn False ''tasks'' ''attempt_count'')"
    by (auto split: option.splits)
qed

end
