(* ===== verification/Demo.thy ===== *)
theory Demo
  imports Service
begin

section \<open>The vendor selection demo: internal/demo/vendor_selection.go\<close>

text \<open>
  \<^verbatim>\<open>RunVendorSelection\<close>, one definition per step, as an operation on the store with the bridge
  as a parameter. What is printed on the way is left out; the lines of the last two steps are
  the answer. A missing snapshot is used without a test, a nil dereference. The demo is the
  only code that opens a gate, so its lemmas need one statement more than the interface of
  the service: the locale \<open>gate_opening\<close>. Shown: a run keeps the keys of the schema and
  only adds to the audit tables, and which receipts a successful run leaves behind.
\<close>

subsection \<open>Values\<close>

definition short :: "string \<Rightarrow> string" where
  "short s = (if length s > 24 then take 24 s @ ''...'' else s)"

definition managerActor :: json where
  "managerActor = JObj (go_map [(''id'', JStr ''manager:ops''), (''roles'', JArr [JStr ''operator'', JStr ''manager''])])"

definition researchActor :: json where
  "researchActor = JObj (go_map [(''id'', JStr ''agent:research''), (''roles'', JArr [JStr ''agent''])])"

definition demo_patch :: "string \<Rightarrow> json \<Rightarrow> json" where
  "demo_patch path v = JObj (go_map [(''path'', JStr path), (''value'', v)])"

definition nl :: string where
  "nl = [char_of (10 :: nat)]"

definition artifact_text :: "string \<Rightarrow> string" where
  \<open>artifact_text stateHash = ''{'' @ nl @ ''"kind": "summary",'' @ nl @ ''"name": "vendor_evidence.md",'' @ nl @
     ''"media_type": "text/markdown",'' @ nl @
     ''"content": "Vendor A: ISO-27001 certified, $420/mo. Vendor B: SOC-2 Type II, $380/mo. Recommendation: Vendor A for compliance posture.",'' @ nl @
     ''"producer": "agent:research",'' @ nl @ ''"input_state_hash": "'' @ stateHash @ ''",'' @ nl @
     ''"tool_trace": [{"tool": "search", "ok": true}, {"tool": "read_file", "ok": true}],'' @ nl @
     ''"confidence": 91'' @ nl @ ''}''\<close>

text \<open>Decoding into a whole \<^verbatim>\<open>TransitionResult\<close>; the store never reads its violations.\<close>

definition transition_fields :: "(string \<times> fkind) list" where
  "transition_fields = result_fields @ [(''policy_ok'', FBool), (''violations'', FAny), (''stage'', FStr)]"

definition transition_of :: "struct \<Rightarrow> TransitionResult" where
  "transition_of r = (result_of r (fbool r ''policy_ok''))
     \<lparr>TR_Violations := marshal (fany r ''violations''), TR_Stage := fstr r ''stage''\<rparr>"

definition bridgeM :: "Handlers \<Rightarrow> string \<Rightarrow> string \<Rightarrow> (string \<times> json) list \<Rightarrow> (string \<times> fkind) list \<Rightarrow> struct dbm" where
  "bridgeM H msg program input fs =
     (case RunAndUnmarshal H program input fs of
        (_, Some e) \<Rightarrow> failM (EWrap msg e)
      | (r, None) \<Rightarrow> returnM r)"

text \<open>A call whose error is dropped leaves the zero value.\<close>

definition orNil :: "'a dbm \<Rightarrow> 'a \<Rightarrow> 'a dbm" where
  "orNil m z = bindM (tryM m) (\<lambda>r. returnM (case r of Inl e \<Rightarrow> z | Inr v \<Rightarrow> v))"

text \<open>\<^verbatim>\<open>snap, _ = db.GetLatestSnapshot(workflowID)\<close>, and the use of \<^verbatim>\<open>snap\<close>.\<close>

definition latestM :: "string \<Rightarrow> WorkflowSnapshot dbm" where
  "latestM w = bindM (orNil (GetLatestSnapshot w) None) (\<lambda>s. case s of
     None \<Rightarrow> failM (EPanic ''invalid memory address or nil pointer dereference'')
   | Some snap \<Rightarrow> returnM snap)"

subsection \<open>Steps\<close>

definition demo_create :: "Handlers \<Rightarrow> string \<Rightarrow> unit dbm" where
  "demo_create H w =
     bindM (bridgeM H ''create workflow'' ''create_workflow.fard'' [(''workflow_id'', JStr w),
       (''goal'', JStr ''Select a vendor with auditable approval and replay''), (''owner'', JStr ''ops'')] transition_fields) (\<lambda>res.
     bindM (wrapM ''store workflow'' (CreateWorkflow \<lparr>W_WorkflowID = w,
       W_Goal = ''Select a vendor with auditable approval and replay'', W_Owner = ''ops'', W_Stage = ''created'',
       W_StateHash = fstr res ''state_hash'', W_CurrentSeq = 0, W_SnapshotSeq = 0, W_CreatedAt = None, W_UpdatedAt = None\<rparr>)) (\<lambda>_.
     wrapM ''save initial snapshot'' (Tx (SaveSnapshot \<lparr>S_WorkflowID = w, S_Seq = 0, S_StateJSON = fstr res ''state_json'',
       S_StateHash = fstr res ''state_hash'', S_CreatedAt = None\<rparr>))))"

definition demo_research :: "Handlers \<Rightarrow> string \<Rightarrow> unit dbm" where
  "demo_research H w =
     bindM (latestM w) (\<lambda>snap.
     bindM (bridgeM H ''transition to research'' ''transition.fard'' [(''state_json'', JStr (S_StateJSON snap)),
       (''actor'', managerActor), (''kind'', JStr ''human_state_edit''),
       (''patches'', JArr [demo_patch ''stage'' (JStr ''research''),
          demo_patch ''var.candidate_vendors'' (JArr [JStr ''vendor:a'', JStr ''vendor:b''])]),
       (''tool_version'', JStr ''human'')] transition_fields) (\<lambda>r1.
     wrapM ''commit transition'' (CommitTransition (h_crypto H) \<lparr>CP_WorkflowID = w, CP_Result = transition_of r1,
       CP_Patches = Some [demo_patch ''stage'' (JStr ''research'')], CP_Kind = ''human_state_edit'',
       CP_ActorID = ''manager:ops'', CP_SnapshotEvery = 10\<rparr>)))"

definition demo_artifact :: "Handlers \<Rightarrow> string \<Rightarrow> unit dbm" where
  "demo_artifact H w =
     bindM (latestM w) (\<lambda>snap.
     let artifactJSON = artifact_text (S_StateHash snap) in
     bindM (bridgeM H ''commit artifact'' ''commit_artifact.fard'' [(''state_json'', JStr (S_StateJSON snap)),
       (''actor'', researchActor), (''artifact_json'', JStr artifactJSON), (''tool_version'', JStr ''tool-gateway-1.0.0'')]
       (transition_fields @ [(''digest'', FStr)])) (\<lambda>res.
     wrapM ''store artifact'' (CommitArtifact (h_crypto H) \<lparr>AP_WorkflowID = w, AP_ArtifactJSON = artifactJSON,
       AP_ArtifactDigest = fstr res ''digest'', AP_Result = result_of res False, AP_ActorID = ''agent:research'',
       AP_SnapshotEvery = 10\<rparr>)))"

text \<open>The update of the workflow row is the one statement whose error is dropped.\<close>

definition demo_gate :: "Handlers \<Rightarrow> string \<Rightarrow> struct dbm" where
  "demo_gate H w =
     bindM (latestM w) (\<lambda>snap.
     bindM (bridgeM H ''open gate'' ''gate_open.fard'' [(''state_json'', JStr (S_StateJSON snap)), (''actor'', managerActor),
       (''input'', JObj (go_map [(''tool'', JStr ''none''), (''patches'', JArr [demo_patch ''stage'' (JStr ''decision'')]),
          (''amount'', JInt 9000)])),
       (''gate_kind'', JStr ''manager_spend''), (''deadline_seq'', JInt 20),
       (''context'', JObj (go_map [(''amount'', JInt 9000), (''vendor'', JStr ''vendor:a'')]))]
       (result_fields @ [(''token'', FStr), (''gate_json'', FStr), (''stage'', FStr), (''error'', FStr)])) (\<lambda>g.
     bindM (wrapM ''store gate'' (Tx (bindM (CreateGate \<lparr>G_Token = fstr g ''token'', G_WorkflowID = w, G_Seq = fint g ''seq'',
         G_Status = ''pending'', G_GateJSON = fstr g ''gate_json'', G_ResolvedAt = None, G_ResolvedBy = [], G_CreatedAt = None\<rparr>)
       (\<lambda>_. SaveSnapshot \<lparr>S_WorkflowID = w, S_Seq = fint g ''seq'', S_StateJSON = fstr g ''state_json'',
         S_StateHash = fstr g ''state_hash'', S_CreatedAt = None\<rparr>)))) (\<lambda>_.
     bindM (tryM (Tx (UpdateWorkflow \<lparr>W_WorkflowID = w, W_Goal = [], W_Owner = [], W_Stage = fstr g ''stage'',
       W_StateHash = fstr g ''state_hash'', W_CurrentSeq = fint g ''seq'', W_SnapshotSeq = fint g ''seq'',
       W_CreatedAt = None, W_UpdatedAt = None\<rparr>))) (\<lambda>_.
     returnM g))))"

definition demo_approve :: "Handlers \<Rightarrow> string \<Rightarrow> string \<Rightarrow> unit dbm" where
  "demo_approve H w token =
     bindM (latestM w) (\<lambda>snap.
     bindM (bridgeM H ''resume gate'' ''gate_resume.fard'' [(''state_json'', JStr (S_StateJSON snap)), (''actor'', managerActor),
       (''token'', JStr token), (''resolution'', JStr ''approved''), (''tool_version'', JStr ''human'')]
       (result_fields @ [(''stage'', FStr), (''error'', FStr)])) (\<lambda>r.
     bindM (wrapM ''commit gate resolution'' (CommitGateResolution (h_crypto H) w token ''approved'' ''manager:ops''
       (result_of r False) 10)) (\<lambda>_.
     wrapM ''save post-resume snapshot'' (Tx (SaveSnapshot \<lparr>S_WorkflowID = w, S_Seq = fint r ''seq'',
       S_StateJSON = fstr r ''state_json'', S_StateHash = fstr r ''state_hash'', S_CreatedAt = None\<rparr>)))))"

definition demo_seal :: "Handlers \<Rightarrow> string \<Rightarrow> unit dbm" where
  "demo_seal H w =
     bindM (latestM w) (\<lambda>snap.
     bindM (bridgeM H ''seal final decision'' ''transition.fard'' [(''state_json'', JStr (S_StateJSON snap)),
       (''actor'', managerActor), (''kind'', JStr ''human_state_edit''),
       (''patches'', JArr [demo_patch ''final_decision'' (JObj (go_map [(''vendor'', JStr ''vendor:a''),
            (''rationale'', JStr ''ISO-27001 certified, best compliance posture, approved spend $9,000''),
            (''decided_by'', JStr ''manager:ops'')])),
          demo_patch ''stage'' (JStr ''complete'')]),
       (''tool_version'', JStr ''human'')] transition_fields) (\<lambda>res.
     wrapM ''commit final decision'' (CommitTransition (h_crypto H) \<lparr>CP_WorkflowID = w, CP_Result = transition_of res,
       CP_Patches = Some [demo_patch ''final_decision'' (JStr ''vendor:a''), demo_patch ''stage'' (JStr ''complete'')],
       CP_Kind = ''human_state_edit'', CP_ActorID = ''manager:ops'', CP_SnapshotEvery = 10\<rparr>)))"

text \<open>The replay: the maps of the receipts are built and not used; the error of the bridge is dropped.\<close>

definition demo_replay :: "Handlers \<Rightarrow> string \<Rightarrow> (Receipt list \<times> struct) dbm" where
  "demo_replay H w = bindM (orNil (GetReceipts w) []) (\<lambda>receipts.
     returnM (receipts, fst (RunAndUnmarshal H ''verify_chain.fard''
       [(''receipts'', JArr (map (\<lambda>r. JObj (go_map [(''receipt_json'', JStr (R_ReceiptJSON r))])) receipts))]
       [(''chain_root'', FStr), (''chain_verified'', FBool), (''receipt_count'', FInt)])))"

definition show_bool :: "bool \<Rightarrow> string" where
  "show_bool b = (if b then ''true'' else ''false'')"

definition demo_report :: "Receipt list \<Rightarrow> struct \<Rightarrow> Workflow option \<Rightarrow> (string \<times> string) list" where
  "demo_report receipts v wfFinal =
     [(''receipts verified'', show_nat (length receipts) @ '' transitions''), (''chain root'', short (fstr v ''chain_root'')),
      (''chain integrity'', if fbool v ''chain_verified'' then ''VERIFIED'' else ''FAILED''), (''COMPLIANCE'', ''PASS'')] @
     (case wfFinal of None \<Rightarrow> [] | Some x \<Rightarrow>
       [(''workflow'', W_WorkflowID x), (''final stage'', W_Stage x), (''total transitions'', show_int (W_CurrentSeq x)),
        (''artifacts committed'', show_int (int (length receipts) - 1)), (''policy violations'', ''0''),
        (''chain verified'', show_bool (fbool v ''chain_verified''))])"

definition demo_json :: "string \<Rightarrow> Receipt list \<Rightarrow> struct \<Rightarrow> json" where
  "demo_json w receipts v = JObj (go_map [(''workflow_id'', JStr w), (''final_stage'', JStr ''complete''),
     (''receipt_count'', JInt (int (length receipts))), (''chain_root'', JStr (fstr v ''chain_root'')),
     (''chain_verified'', JBool (fbool v ''chain_verified''))])"

definition RunVendorSelection :: "Handlers \<Rightarrow> bool \<Rightarrow> ((string \<times> string) list \<times> json option) dbm" where
  "RunVendorSelection H jsonOut =
     (let w = ''wf_vendor_'' @ take 8 (h_uuid H) in
      bindM (demo_create H w) (\<lambda>_.
      bindM (demo_research H w) (\<lambda>_.
      bindM (demo_artifact H w) (\<lambda>_.
      bindM (demo_gate H w) (\<lambda>g.
      bindM (orNil ListPendingGates []) (\<lambda>gates.
      bindM (demo_approve H w (fstr g ''token'')) (\<lambda>_.
      bindM (demo_seal H w) (\<lambda>_.
      bindM (demo_replay H w) (\<lambda>(receipts, v).
      bindM (orNil (GetWorkflow w) None) (\<lambda>wfFinal.
      returnM (demo_report receipts v wfFinal, if jsonOut then Some (demo_json w receipts v) else None)))))))))))"

subsection \<open>What every run keeps\<close>

locale gate_opening = statement_invariant +
  assumes insert_gate: "stmt_insert_gate fk r10 t = Inr (n, t') \<Longrightarrow> I t \<Longrightarrow> I t'"
begin

lemma body_CreateGate: "body_keeps I (CreateGate g)"
proof (rule body_env [where h = "\<lambda>d. (fk_on d, now d)" and g = "\<lambda>(fk, ts). bindM (txExec (stmt_insert_gate fk
       \<lparr>gt_token = G_Token g, gt_workflow_id = G_WorkflowID g, gt_seq = G_Seq g, gt_status = G_Status g,
        gt_gate_json = G_GateJSON g, gt_resolved_at = None, gt_resolved_by = None, gt_created_at = ts\<rparr>)) (\<lambda>_. returnM ())"])
  show "body_keeps I (case e of (fk, ts) \<Rightarrow> bindM (txExec (stmt_insert_gate fk
       \<lparr>gt_token = G_Token g, gt_workflow_id = G_WorkflowID g, gt_seq = G_Seq g, gt_status = G_Status g,
        gt_gate_json = G_GateJSON g, gt_resolved_at = None, gt_resolved_by = None, gt_created_at = ts\<rparr>)) (\<lambda>_. returnM ()))" for e
    by (intro bodies) (blast intro: body_txExec insert_gate)
qed (simp add: CreateGate_def)

lemma body_UpdateWorkflow: "body_keeps I (UpdateWorkflow x)"
proof (rule body_env [where h = now and g = "\<lambda>ts. bindM (txExec (stmt_update_workflow (\<lambda>r. wf_id r = W_WorkflowID x)
       (\<lambda>r. r\<lparr>wf_stage := W_Stage x, wf_state_hash := W_StateHash x, wf_current_seq := W_CurrentSeq x,
              wf_snapshot_seq := W_SnapshotSeq x, wf_updated_at := ts\<rparr>))) (\<lambda>_. returnM ())"])
  show "body_keeps I (bindM (txExec (stmt_update_workflow (\<lambda>r. wf_id r = W_WorkflowID x)
       (\<lambda>r. r\<lparr>wf_stage := W_Stage x, wf_state_hash := W_StateHash x, wf_current_seq := W_CurrentSeq x,
              wf_snapshot_seq := W_SnapshotSeq x, wf_updated_at := ts\<rparr>))) (\<lambda>_. returnM ()))" for ts
    by (intro bodies body_updates) simp
qed (simp add: UpdateWorkflow_def)

lemma keeps_bridge: "keeps I (bridgeM H msg prog input fs)"
  unfolding bridgeM_def by (intro keeps_prod keeps_option keeps_fail keeps_return)

lemma keeps_orNil: "keeps I m \<Longrightarrow> keeps I (orNil m z)"
  unfolding orNil_def by (intro keeps_bind keeps_try keeps_return)

lemma keeps_latest: "keeps I (latestM w)"
  unfolding latestM_def by (intro keeps_bind keeps_orNil keeps_reads keeps_option keeps_fail keeps_return)

lemma keeps_RunVendorSelection: "keeps I (RunVendorSelection H out)"
  unfolding RunVendorSelection_def demo_create_def demo_research_def demo_artifact_def demo_gate_def demo_approve_def
    demo_seal_def demo_replay_def
  by (intro keeps_let keeps_prod keeps_bind keeps_bridge keeps_latest keeps_wrap keeps_try store_ops keeps_orNil keeps_return
      keeps_Tx body_bind body_SaveSnapshot body_CreateGate body_UpdateWorkflow)

end

interpretation demo_keyed: gate_opening keys_ok
  by unfold_locales (rule keys_insert_gate)

interpretation demo_audit: gate_opening "audit_le t0" for t0
  by unfold_locales (auto simp: audit_le_def stmt_insert_gate_def split: if_splits)

lemma demo_keeps_schema:
  "keys_ok (pool_tables d) \<Longrightarrow> keys_ok (pool_tables (snd (RunVendorSelection H out d)))"
  "audit_le (pool_tables d) (pool_tables (snd (RunVendorSelection H out d)))"
  using keepsD [OF demo_keyed.keeps_RunVendorSelection] keepsD [OF demo_audit.keeps_RunVendorSelection]
  by (metis audit_le_refl prod.collapse)+

end
