(* ===== verification/Startup.thy ===== *)
theory Startup
  imports Daemon Migrate Demo
begin

section \<open>The two programs: cmd/acpd and cmd/acp\<close>

text \<open>
  The start of the daemon up to the point where it listens, and the command line tool. The
  flags' defaults come from the environment; \<open>Settings\<close> are the values after parsing. A
  process keeps nothing but the database: the master key is read from the environment or,
  without \<^verbatim>\<open>ACP_MASTER_KEY\<close>, drawn at random. Shown: the admin that \<^verbatim>\<open>--seed\<close> created is let
  in by the daemon started afterwards when the two share a master key, and is a stranger
  when each drew its own, which is what the commands of the README do.
\<close>

subsection \<open>Flags\<close>

record Settings =
  st_addr :: string
  st_dsn :: string
  st_migrationsDir :: string
  st_fardrunBin :: string
  st_fardDir :: string
  st_snapshotEvery :: int
  st_seed :: bool
  st_seedKey :: string
  st_seedActorID :: string
  st_rateLimit :: int
  st_logFormat :: string
  st_telemetryOut :: bool

definition default_settings :: "(string \<Rightarrow> string) \<Rightarrow> Settings" where
  "default_settings env =
     \<lparr>st_addr = envOr env ''ACP_ADDR'' '':8080'', st_dsn = envOr env ''ACP_DB'' ''acp.db'',
      st_migrationsDir = envOr env ''ACP_MIGRATIONS'' ''migrations'', st_fardrunBin = envOr env ''ACP_FARDRUN'' ''fardrun'',
      st_fardDir = envOr env ''ACP_FARD_DIR'' ''fard/bridge'', st_snapshotEvery = envIntOr env ''ACP_SNAPSHOT_EVERY'' 10,
      st_seed = False, st_seedKey = envOr env ''ACP_SEED_KEY'' [], st_seedActorID = envOr env ''ACP_SEED_ACTOR'' ''admin'',
      st_rateLimit = envIntOr env ''ACP_RATE_LIMIT'' 100, st_logFormat = envOr env ''ACP_LOG_FORMAT'' ''json'',
      st_telemetryOut = (envOr env ''ACP_TELEMETRY'' ''true'' = ''true'')\<rparr>"

subsection \<open>acpd\<close>

text \<open>Durations in seconds.\<close>

record ServerConfig =
  sv_Addr :: string
  sv_ReadTimeout :: int
  sv_WriteTimeout :: int
  sv_IdleTimeout :: int
  sv_ReadHeaderTimeout :: int
  sv_MaxHeaderBytes :: int

definition server_config :: "Settings \<Rightarrow> ServerConfig" where
  "server_config st = \<lparr>sv_Addr = st_addr st, sv_ReadTimeout = 30, sv_WriteTimeout = 60, sv_IdleTimeout = 120,
     sv_ReadHeaderTimeout = 5, sv_MaxHeaderBytes = 1048576\<rparr>"

text \<open>What the process is given: the environment, the driver's open and ping, the files, the random bytes.\<close>

record World =
  wo_env :: "string \<Rightarrow> string"
  wo_open :: "string \<Rightarrow> string \<Rightarrow> go_error option"
  wo_ping :: "string \<Rightarrow> string \<Rightarrow> go_error option"
  wo_dir :: "string \<Rightarrow> MigrationDir"
  wo_random :: "string option"
  wo_mkdtemp :: "go_error option"

datatype process = Exited int | Listening ServerConfig | Hung

definition SetKeyProvider :: "KeyProvider \<Rightarrow> dbs \<Rightarrow> dbs" where
  "SetKeyProvider kp d = d\<lparr>db_keys := Some kp\<rparr>"

definition connect :: "string \<Rightarrow> dbs \<Rightarrow> dbs" where
  "connect drv d = d\<lparr>driver := drv, db_keys := None\<rparr>"

definition acpd_main :: "crypto \<Rightarrow> World \<Rightarrow> Settings \<Rightarrow> schema \<times> dbs \<Rightarrow> process \<times> schema \<times> dbs" where
  "acpd_main C W st sd =
     (case Open (wo_open W) (wo_ping W) (wo_dir W (st_migrationsDir st)) (st_dsn st) (fst sd) of
        (Inl e, s) \<Rightarrow> (Exited 1, s, snd sd)
      | (Inr (drv, pool), s) \<Rightarrow>
          let d = connect drv (snd sd) in
          (case DefaultProvider (wo_env W) (wo_random W) of
             Ok kp \<Rightarrow>
               let d = SetKeyProvider kp d in
               if st_seed st then
                 (case seed_admin C (st_seedActorID st) (st_seedKey st) d of
                    (Ok code, d') \<Rightarrow> (Exited code, s, d')
                  | (Err e, d') \<Rightarrow> (Exited 2, s, d')
                  | (Blocked, d') \<Rightarrow> (Hung, s, d'))
               else if wo_mkdtemp W \<noteq> None then (Exited 1, s, d)
               else (Listening (server_config st), s, d)
           | _ \<Rightarrow> (Exited 1, s, d)))"

subsection \<open>acp\<close>

datatype command = Usage | Fatal go_error | Stuck | DemoReport "(string \<times> string) list" "json option"

definition acp_main ::
  "Handlers \<Rightarrow> World \<Rightarrow> string \<Rightarrow> string \<Rightarrow> bool \<Rightarrow> string list \<Rightarrow> schema \<times> dbs \<Rightarrow> command \<times> schema \<times> dbs" where
  "acp_main H W dsn migrationsDir jsonOutput args sd =
     (if length args < 2 then (Usage, sd)
      else if args ! 0 = ''demo'' \<and> args ! 1 = ''vendor-selection'' then
        (case Open (wo_open W) (wo_ping W) (wo_dir W migrationsDir) dsn (fst sd) of
           (Inl e, s) \<Rightarrow> (Fatal (EWrap ''open db'' e), s, snd sd)
         | (Inr (drv, pool), s) \<Rightarrow>
             let d = connect drv (snd sd) in
             (case wo_mkdtemp W of
                Some e \<Rightarrow> (Fatal (EWrap ''create bridge outdir'' e), s, d)
              | None \<Rightarrow>
                  (case RunVendorSelection H jsonOutput d of
                     (Ok (lines, out), d') \<Rightarrow> (DemoReport lines out, s, d')
                   | (Err e, d') \<Rightarrow> (Fatal (EWrap ''demo failed'' e), s, d')
                   | (Blocked, d') \<Rightarrow> (Stuck, s, d'))))
      else (Usage, sd))"

text \<open>The tool inherits what the demo keeps.\<close>

lemma pool_connect: "pool_tables (connect drv d) = pool_tables d"
  by (cases "saved d") (simp_all add: connect_def pool_tables_def)

lemma acp_keeps_schema:
  assumes "acp_main H W dsn dir out args (s, d) = (c, s', d')"
  shows "(keys_ok (pool_tables d) \<longrightarrow> keys_ok (pool_tables d')) \<and> audit_le (pool_tables d) (pool_tables d')"
  using assms demo_keeps_schema [of "connect (fst (resolveDriver dsn)) d" H out]
  by (auto simp: acp_main_def Open_def Let_def pool_connect split: if_splits prod.splits sum.splits option.splits outcome.splits)

subsection \<open>The seeded admin\<close>

definition admin_record :: "string \<Rightarrow> ActorRecord" where
  "admin_record actorID = \<lparr>ar_ActorID = actorID, ar_Roles = Some [''operator'', ''manager'', ''admin''],
     ar_AllowedAgents = None, ar_AllowedWorkflows = None\<rparr>"

text \<open>
  What the two runs have in common: the first has stored the admin under the hash of its key,
  the second looks a key up under its own.
\<close>

lemma quiet_start: "quiet (SetKeyProvider kp (connect drv d)) = quiet d"
  by (simp add: quiet_def SetKeyProvider_def connect_def)

lemma seeded_rows:
  assumes "acpd_main C W st (s, d) = (Exited 0, s1, d1)" and "st_seed st" and "quiet d" and "t_actors (tabs d) = []"
  shows "\<exists>kp row. DefaultProvider (wo_env W) (wo_random W) = Ok kp \<and> quiet d1 \<and> t_actors (tabs d1) = [row] \<and>
    ac_api_key_hash row = kp_HashAPIKey C kp (st_seedKey st) \<and> ac_actor_id row = st_seedActorID st \<and>
    unmarshal_strings (ac_roles_json row) = Some [''operator'', ''manager'', ''admin''] \<and>
    ac_allowed_agents_json row = None \<and> ac_allowed_workflows_json row = None"
proof -
  let ?a = "\<lparr>AC_ActorID = st_seedActorID st, AC_APIKeyHash = [], AC_Roles = Some [''operator'', ''manager'', ''admin''],
    AC_AllowedAgents = None, AC_AllowedWorkflows = None, AC_CreatedAt = None, AC_UpdatedAt = None\<rparr>"
  obtain drv pool kp where kp: "DefaultProvider (wo_env W) (wo_random W) = Ok kp"
    and sd: "seed_admin C (st_seedActorID st) (st_seedKey st) (SetKeyProvider kp (connect drv d)) = (Ok 0, d1)"
    using assms(1,2) by (auto simp: acpd_main_def Let_def split: prod.splits sum.splits outcome.splits)
  let ?d = "SetKeyProvider kp (connect drv d)"
  have q: "quiet ?d" and e: "t_actors (tabs ?d) = []" using assms(3,4) by (simp_all add: quiet_start) (simp add: SetKeyProvider_def connect_def)
  obtain res where t: "tryM (CreateActor C ?a (st_seedKey st)) ?d = (Ok res, d1)"
    using sd by (auto simp: seed_admin_def bindM_Ok returnM_def split: if_splits)
  have "CreateActor C ?a (st_seedKey st) ?d =
      (Ok (), ?d\<lparr>tabs := (tabs ?d)\<lparr>t_actors := [actor_row_of C ?d ?a (st_seedKey st)]\<rparr>\<rparr>)"
    using q e by (simp add: CreateActor_def bindM_def stmt_insert_actor_def key_used_def returnM_def)
  then have d1: "d1 = ?d\<lparr>tabs := (tabs ?d)\<lparr>t_actors := [actor_row_of C ?d ?a (st_seedKey st)]\<rparr>\<rparr>"
    using t by (simp add: tryM_def)
  have h: "hashAPIKey C ?d (st_seedKey st) = kp_HashAPIKey C kp (st_seedKey st)" by (simp add: hashAPIKey_def SetKeyProvider_def)
  show ?thesis
    using kp q h unmarshal_marshal_strings [of "Some [''operator'', ''manager'', ''admin'']"]
    by (auto simp: d1 actor_row_of_def nullBytes_def marshal_strings_def)
qed

lemma listening_handle:
  assumes "acpd_main C W st (s, d) = (Listening cfg, s1, d1)"
  shows "\<exists>kp. DefaultProvider (wo_env W) (wo_random W) = Ok kp \<and> db_keys d1 = Some kp \<and> tabs d1 = tabs d \<and> quiet d1 = quiet d"
  using assms by (auto simp: acpd_main_def Let_def SetKeyProvider_def connect_def quiet_def
      split: prod.splits sum.splits outcome.splits if_splits)

lemma resolve_one:
  assumes "quiet d" and "t_actors (tabs d) = [row]" and "rq_path r \<noteq> ''/health''" and "extractKey r \<noteq> []"
  shows "Middleware C nxt r d =
    (if ac_api_key_hash row = hashAPIKey C d (extractKey r)
     then nxt (contextWithActor r \<lparr>ar_ActorID = AC_ActorID (scanActor row), ar_Roles = AC_Roles (scanActor row),
       ar_AllowedAgents = AC_AllowedAgents (scanActor row), ar_AllowedWorkflows = AC_AllowedWorkflows (scanActor row)\<rparr>) d
     else (Ok [writeErr 401 ''invalid API key''], d))"
  using assms by (simp add: Middleware_def Let_def bindM_def tryM_def ResolveAPIKey_def returnM_def)

subsection \<open>Properties\<close>

text \<open>
  C37: what the two runs of a deployment do together: the admin that \<^verbatim>\<open>--seed\<close> stored in an
  empty table is the actor of every request with its key to the daemon that is started
  afterwards, with its three roles and no restriction, provided that the master key comes
  from the environment, the same for both.
\<close>
theorem seeded_admin_authenticates:
  assumes "acpd_main C W st (s, d) = (Exited 0, s1, d1)" and "st_seed st" and "quiet d" and "t_actors (tabs d) = []"
    and "acpd_main C W' st' (s1, d1) = (Listening cfg, s2, d2)" and "wo_env W' = wo_env W"
    and "wo_env W ''ACP_MASTER_KEY'' \<noteq> []"
    and "rq_path r \<noteq> ''/health''" and "extractKey r = st_seedKey st" and "st_seedKey st \<noteq> []"
  shows "Middleware C nxt r d2 = nxt (contextWithActor r (admin_record (st_seedActorID st))) d2"
proof -
  obtain kp row where row: "DefaultProvider (wo_env W) (wo_random W) = Ok kp" "quiet d1" "t_actors (tabs d1) = [row]"
    "ac_api_key_hash row = kp_HashAPIKey C kp (st_seedKey st)" "ac_actor_id row = st_seedActorID st"
    "unmarshal_strings (ac_roles_json row) = Some [''operator'', ''manager'', ''admin'']"
    "ac_allowed_agents_json row = None" "ac_allowed_workflows_json row = None"
    using seeded_rows [OF assms(1-4)] by blast
  obtain kp' where d2: "DefaultProvider (wo_env W') (wo_random W') = Ok kp'" "db_keys d2 = Some kp'" "tabs d2 = tabs d1" "quiet d2 = quiet d1"
    using listening_handle [OF assms(5)] by blast
  have "kp' = kp" using row(1) d2(1) assms(6,7) by (auto simp: DefaultProvider_def NewLocalKeyProvider_def Let_def split: if_splits option.splits)
  then show ?thesis using resolve_one [of d2 row r C nxt] row d2 assms(8-10)
    by (simp add: hashAPIKey_def scanActor_def admin_record_def)
qed

definition sample_world :: "string \<Rightarrow> string \<Rightarrow> World" where
  "sample_world masterKey rnd = \<lparr>wo_env = (\<lambda>k. if k = ''ACP_MASTER_KEY'' then masterKey else []), wo_open = (\<lambda>_ _. None),
     wo_ping = (\<lambda>_ _. None), wo_dir = (\<lambda>p. \<lparr>dir_path = p, dir_entries = Inr [], dir_read = (\<lambda>n. Inl (EMsg n))\<rparr>),
     wo_random = Some rnd, wo_mkdtemp = None\<rparr>"

definition sample_settings :: "bool \<Rightarrow> Settings" where
  "sample_settings seed = (default_settings (\<lambda>_. []))\<lparr>st_seed := seed, st_seedKey := ''key''\<rparr>"

lemma sample_start:
  "st_seed (sample_settings True)" "quiet (handle_of ''sqlite3'' empty_tables [])"
  "t_actors (tabs (handle_of ''sqlite3'' empty_tables [])) = []"
  by (simp_all add: sample_settings_def quiet_handle) (simp add: handle_of_def empty_tables_def)

lemma sample_listens:
  assumes "DefaultProvider (wo_env (sample_world mk rnd)) (Some rnd) = Ok kp"
  shows "\<exists>cfg s2 d2. acpd_main C (sample_world mk rnd) (sample_settings False) (s, d) = (Listening cfg, s2, d2)"
proof -
  have "wo_random (sample_world mk rnd) = Some rnd" "wo_mkdtemp (sample_world mk rnd) = None" "\<not> st_seed (sample_settings False)"
    by (simp_all add: sample_world_def sample_settings_def)
  moreover have "Open (wo_open (sample_world mk rnd)) (wo_ping (sample_world mk rnd)) (wo_dir (sample_world mk rnd) p) q s =
      (Inr (fst (resolveDriver q), pool_limits (fst (resolveDriver q))), s)" for p q
    by (simp add: Open_def sample_world_def migrate_def migrations_of_def split: prod.split)
  ultimately show ?thesis using assms by (simp add: acpd_main_def Let_def)
qed

theorem seeded_admin_authenticates_witness:
  "\<exists>d2. Middleware plain_crypto (\<lambda>r. returnM [(200, case rq_actor r of None \<Rightarrow> JNull | Some a \<Rightarrow> JStr (ar_ActorID a))])
     (sample_request ''GET'' ''/workflows'' []) d2 = (Ok [(200, JStr ''admin'')], d2)"
proof -
  let ?mk = "replicate 64 CHR ''0''" and ?d = "handle_of ''sqlite3'' empty_tables []"
  have "fst (acpd_main plain_crypto (sample_world ?mk ''x'') (sample_settings True) (empty_schema, ?d)) = Exited 0" by code_simp
  then obtain s1 d1 where a: "acpd_main plain_crypto (sample_world ?mk ''x'') (sample_settings True) (empty_schema, ?d) = (Exited 0, s1, d1)"
    by (cases "acpd_main plain_crypto (sample_world ?mk ''x'') (sample_settings True) (empty_schema, ?d)") auto
  have "DefaultProvider (wo_env (sample_world ?mk ''y'')) (Some ''y'') = Ok (LocalKeyProvider (replicate 32 (char_of (0 :: nat))))" by code_simp
  from sample_listens [OF this] obtain cfg s2 d2 where
    b: "acpd_main plain_crypto (sample_world ?mk ''y'') (sample_settings False) (s1, d1) = (Listening cfg, s2, d2)" by blast
  have "Middleware plain_crypto nxt (sample_request ''GET'' ''/workflows'' []) d2 =
      nxt (contextWithActor (sample_request ''GET'' ''/workflows'' []) (admin_record (st_seedActorID (sample_settings True)))) d2" for nxt
    by (rule seeded_admin_authenticates [OF a sample_start b])
      (simp_all add: sample_settings_def sample_world_def sample_request_def extractKey_def TrimPrefix_def HasPrefix_def)
  then show ?thesis
    by (intro exI [of _ d2]) (simp add: contextWithActor_def admin_record_def sample_settings_def default_settings_def envOr_def returnM_def)
qed

text \<open>
  Without \<^verbatim>\<open>ACP_MASTER_KEY\<close> the seeded admin is a stranger. Each process draws a master
  key of its own, so the daemon answers 401 to the key that was just seeded; the same holds
  for every actor after a restart. The two keys must give the API key different hashes.
\<close>
theorem seed_lost_without_master_key:
  assumes "acpd_main C W st (s, d) = (Exited 0, s1, d1)" and "st_seed st" and "quiet d" and "t_actors (tabs d) = []"
    and "acpd_main C W' st' (s1, d1) = (Listening cfg, s2, d2)" and "wo_env W' = wo_env W"
    and "wo_env W ''ACP_MASTER_KEY'' = []" and "wo_env W ''ACP_KMS_KEY_ID'' = []"
    and "wo_random W = Some k1" and "wo_random W' = Some k2"
    and "hmac_hex C k1 (''apikey:'' @ st_seedKey st) \<noteq> hmac_hex C k2 (''apikey:'' @ st_seedKey st)"
    and "rq_path r \<noteq> ''/health''" and "extractKey r = st_seedKey st" and "st_seedKey st \<noteq> []"
  shows "Middleware C nxt r d2 = (Ok [writeErr 401 ''invalid API key''], d2)"
proof -
  obtain row where row: "quiet d1" "t_actors (tabs d1) = [row]" "ac_api_key_hash row = lkp_sign C k1 (''apikey:'' @ st_seedKey st)"
    using seeded_rows [OF assms(1-4)] assms(7-9) by (auto simp: DefaultProvider_def NewLocalKeyProvider_def)
  have "db_keys d2 = Some (LocalKeyProvider k2)" and d2: "tabs d2 = tabs d1" "quiet d2 = quiet d1"
    using listening_handle [OF assms(5)] assms(6-8,10) by (auto simp: DefaultProvider_def NewLocalKeyProvider_def)
  then show ?thesis using resolve_one [of d2 row r C nxt] row assms(11-14)
    by (simp add: hashAPIKey_def lkp_sign_def)
qed

theorem seed_lost_without_master_key_witness:
  "\<exists>d2. Middleware plain_crypto (\<lambda>r. returnM []) (sample_request ''GET'' ''/workflows'' []) d2 = (Ok [writeErr 401 ''invalid API key''], d2) \<and>
     map ac_actor_id (t_actors (tabs d2)) = [''admin'']"
proof -
  let ?d = "handle_of ''sqlite3'' empty_tables []" and ?r = "sample_request ''GET'' ''/workflows'' []"
  have "fst (acpd_main plain_crypto (sample_world [] ''x'') (sample_settings True) (empty_schema, ?d)) = Exited 0" by code_simp
  then obtain s1 d1 where a: "acpd_main plain_crypto (sample_world [] ''x'') (sample_settings True) (empty_schema, ?d) = (Exited 0, s1, d1)"
    by (cases "acpd_main plain_crypto (sample_world [] ''x'') (sample_settings True) (empty_schema, ?d)") auto
  have "DefaultProvider (wo_env (sample_world [] ''y'')) (Some ''y'') = Ok (LocalKeyProvider ''y'')" by code_simp
  from sample_listens [OF this] obtain cfg s2 d2 where
    b: "acpd_main plain_crypto (sample_world [] ''y'') (sample_settings False) (s1, d1) = (Listening cfg, s2, d2)" by blast
  note s = sample_start
  have "Middleware plain_crypto (\<lambda>r. returnM []) ?r d2 = (Ok [writeErr 401 ''invalid API key''], d2)"
    by (rule seed_lost_without_master_key [OF a s b, where ?k1.0 = "''x''" and ?k2.0 = "''y''"])
      (simp_all add: sample_settings_def sample_world_def sample_request_def extractKey_def TrimPrefix_def HasPrefix_def plain_crypto_def)
  moreover have "map ac_actor_id (t_actors (tabs d2)) = [''admin'']"
  proof -
    obtain row where "t_actors (tabs d1) = [row]" "ac_actor_id row = st_seedActorID (sample_settings True)"
      using seeded_rows [OF a s] by blast
    moreover have "tabs d2 = tabs d1" using listening_handle [OF b] by blast
    ultimately show ?thesis by (simp add: sample_settings_def default_settings_def envOr_def)
  qed
  ultimately show ?thesis by (intro exI [of _ d2] conjI)
qed

end
