(* ===== verification/Testutil.thy ===== *)
theory Testutil
  imports Startup
begin

section \<open>The test server: internal/testutil\<close>

text \<open>
  What the tests of the repository run against: \<open>NewTestServer\<close> builds the handler stack on an
  empty database in memory, \<open>Do\<close> and \<open>DoUnauth\<close> send a request and decode the answer (a redirect is
  not followed). A failed
  \<^verbatim>\<open>t.Fatalf\<close> is an error here. Shown: on a fresh server every request of \<open>Do\<close> is handled by the
  routes of the daemon in the name of the test's operator, except those to \<^verbatim>\<open>/health\<close> and
  \<^verbatim>\<open>/ready\<close>, for which the test server has answers of its own.
\<close>

definition TestAPIKey :: string where "TestAPIKey = ''acp_test_key_operator''"
definition TestActorID :: string where "TestActorID = ''operator:test''"

text \<open>\<open>stat\<close> tells which paths exist.\<close>

definition findMigrationsDir :: "(string \<Rightarrow> bool) \<Rightarrow> string option" where
  "findMigrationsDir stat = find stat [''migrations'', ''../migrations'', ''../../migrations'', ''../../../migrations'']"

definition findFardDir :: "(string \<Rightarrow> bool) \<Rightarrow> string option" where
  "findFardDir stat = find stat [''fard/bridge'', ''../fard/bridge'', ''../../fard/bridge'', ''../../../fard/bridge'']"

definition test_mux :: "Handlers \<Rightarrow> handler" where
  "test_mux H = Register H (\<lambda>r.
     if rq_path r = ''/ready'' then returnM (writeJSON 200 [(''ok'', JBool True), (''version'', JStr ''1.0.0''), (''db'', JStr ''ok'')])
     else if rq_path r = ''/health'' then returnM (writeJSON 200 [(''ok'', JBool True), (''version'', JStr ''0.2.0'')])
     else if rq_path r = ''/tasks'' then returnM [(301, JStr ''/tasks/'')]
     else returnM [(404, JStr ''404 page not found'')])"

definition test_actor :: Actor where
  "test_actor = \<lparr>AC_ActorID = TestActorID, AC_APIKeyHash = [], AC_Roles = Some [''operator'', ''manager''], AC_AllowedAgents = None,
     AC_AllowedWorkflows = None, AC_CreatedAt = None, AC_UpdatedAt = None\<rparr>"

text \<open>The handlers are given but for the snapshot interval, which is 10; the clock is that of the handle.\<close>

definition NewTestServer ::
  "(string \<Rightarrow> bool) \<Rightarrow> World \<Rightarrow> Handlers \<Rightarrow> schema \<times> dbs \<Rightarrow> (go_error + handler) \<times> schema \<times> dbs" where
  "NewTestServer stat W H sd =
     (case (findMigrationsDir stat, findFardDir stat) of
        (None, _) \<Rightarrow> (Inl (EMsg ''could not find migrations dir''), sd)
      | (Some m, None) \<Rightarrow> (Inl (EMsg ''could not find fard/bridge dir''), sd)
      | (Some migrationsDir, Some fardDir) \<Rightarrow>
          (case Open (wo_open W) (wo_ping W) (wo_dir W migrationsDir) '':memory:'' (fst sd) of
             (Inl e, s) \<Rightarrow> (Inl (EWrap ''open db'' e), s, snd sd)
           | (Inr (drv, pool), s) \<Rightarrow>
               (case CreateActor (h_crypto H) test_actor TestAPIKey (connect drv (snd sd)) of
                  (Ok u, d) \<Rightarrow>
                    (case wo_mkdtemp W of
                       Some e \<Rightarrow> (Inl (EWrap ''create bridge outdir'' e), s, d)
                     | None \<Rightarrow> (Inr (Middleware (h_crypto H) (test_mux (H\<lparr>h_snapshotEvery := 10\<rparr>))), s, d))
                | (Err e, d) \<Rightarrow> (Inl (EWrap ''seed actor'' e), s, d)
                | (Blocked, d) \<Rightarrow> (Inl (EMsg ''test timed out''), s, d))))"

text \<open>An answer that is not an object ends the test; \<^verbatim>\<open>null\<close> leaves a nil map, and writing to it panics.\<close>

definition test_request :: "string \<Rightarrow> string \<Rightarrow> (string \<Rightarrow> string) \<Rightarrow> string \<Rightarrow> string \<Rightarrow> request" where
  "test_request method path q authorization body =
     \<lparr>rq_method = method, rq_path = path, rq_query = q, rq_authorization = authorization, rq_body = body, rq_actor = None\<rparr>"

definition Do :: "handler \<Rightarrow> string \<Rightarrow> string \<Rightarrow> (string \<Rightarrow> string) \<Rightarrow> json option \<Rightarrow> (string \<times> json) list dbm" where
  "Do srv method path q body =
     bindM (srv (test_request method path q (''Bearer '' @ TestAPIKey) (case body of None \<Rightarrow> [] | Some b \<Rightarrow> marshal b)))
       (\<lambda>resp. case resp of
          [] \<Rightarrow> failM (EMsg ''decode response: EOF'')
        | (code, JObj m) # _ \<Rightarrow> returnM (map_put ''_status'' (JInt code) m)
        | (code, JNull) # _ \<Rightarrow> failM (EPanic ''assignment to entry in nil map'')
        | _ \<Rightarrow> failM (EMsg ''decode response''))"

definition DoUnauth :: "handler \<Rightarrow> string \<Rightarrow> string \<Rightarrow> (string \<Rightarrow> string) \<Rightarrow> (string \<times> json) list dbm" where
  "DoUnauth srv method path q =
     bindM (srv (test_request method path q [] [])) (\<lambda>resp. case resp of
          (code, JObj m) # _ \<Rightarrow> returnM (map_put ''_status'' (JInt code) m)
        | _ \<Rightarrow> failM (EPanic ''assignment to entry in nil map''))"

subsection \<open>What the tests test\<close>

definition operator_record :: ActorRecord where
  "operator_record = \<lparr>ar_ActorID = TestActorID, ar_Roles = Some [''operator'', ''manager''], ar_AllowedAgents = None, ar_AllowedWorkflows = None\<rparr>"

lemma test_mux_routes: "rq_path r \<noteq> ''/health'' \<Longrightarrow> rq_path r \<noteq> ''/ready'' \<Longrightarrow> test_mux H r = mux H bin r"
  by (simp add: test_mux_def mux_def Register_def Let_def)

lemma new_test_server:
  assumes "NewTestServer stat W H (s, d) = (Inr srv, s', d')" and "quiet d" and "t_actors (tabs d) = []"
  shows "srv = Middleware (h_crypto H) (test_mux (H\<lparr>h_snapshotEvery := 10\<rparr>)) \<and> quiet d' \<and> db_keys d' = None \<and>
    (\<exists>e. t_actors (tabs d') = [actor_row_of (h_crypto H) e test_actor TestAPIKey] \<and> db_keys e = None)"
proof -
  obtain drv m where c: "CreateActor (h_crypto H) test_actor TestAPIKey (connect drv d) = (Ok (), d')"
    and srv: "srv = Middleware (h_crypto H) (test_mux (H\<lparr>h_snapshotEvery := 10\<rparr>))"
    using assms(1) by (auto simp: NewTestServer_def split: option.splits prod.splits sum.splits outcome.splits)
  let ?d = "connect drv d"
  have q: "quiet ?d" "t_actors (tabs ?d) = []" "db_keys ?d = None" using assms(2,3) by (simp_all add: connect_def quiet_def)
  have "CreateActor (h_crypto H) test_actor TestAPIKey ?d =
      (Ok (), ?d\<lparr>tabs := (tabs ?d)\<lparr>t_actors := [actor_row_of (h_crypto H) ?d test_actor TestAPIKey]\<rparr>\<rparr>)"
    using q by (simp add: CreateActor_def bindM_def stmt_insert_actor_def key_used_def returnM_def)
  with c have "d' = ?d\<lparr>tabs := (tabs ?d)\<lparr>t_actors := [actor_row_of (h_crypto H) ?d test_actor TestAPIKey]\<rparr>\<rparr>" by simp
  with q srv show ?thesis by (auto simp: quiet_def)
qed

lemma test_server_is_the_stack:
  assumes "NewTestServer stat W H (s, d) = (Inr srv, s', d')" and "quiet d" and "t_actors (tabs d) = []"
    and "path \<noteq> ''/health''" and "path \<noteq> ''/ready''"
  shows "srv (test_request method path q (''Bearer '' @ TestAPIKey) body) d' =
    mux (H\<lparr>h_snapshotEvery := 10\<rparr>) bin (contextWithActor (test_request method path q (''Bearer '' @ TestAPIKey) body) operator_record) d'"
proof -
  let ?r = "test_request method path q (''Bearer '' @ TestAPIKey) body"
  obtain e where n: "srv = Middleware (h_crypto H) (test_mux (H\<lparr>h_snapshotEvery := 10\<rparr>))" "quiet d'" "db_keys d' = None"
    "t_actors (tabs d') = [actor_row_of (h_crypto H) e test_actor TestAPIKey]" "db_keys e = None"
    using new_test_server [OF assms(1-3)] by blast
  have k: "extractKey ?r = TestAPIKey" "extractKey ?r \<noteq> []" "rq_path ?r = path"
    by (simp_all add: extractKey_def test_request_def HasPrefix_def TrimPrefix_def TestAPIKey_def)
  have a: "AC_ActorID (scanActor (actor_row_of C e test_actor k)) = TestActorID"
    "AC_Roles (scanActor (actor_row_of C e test_actor k)) = Some [''operator'', ''manager'']"
    "AC_AllowedAgents (scanActor (actor_row_of C e test_actor k)) = None"
    "AC_AllowedWorkflows (scanActor (actor_row_of C e test_actor k)) = None" for C k
    by (simp_all add: scanActor_def actor_row_of_def test_actor_def null_strings)
  have h: "ac_api_key_hash (actor_row_of C e test_actor k) = HashAPIKey C k" "hashAPIKey C d' k = HashAPIKey C k" for C k
    using n(3,5) by (simp_all add: actor_row_of_def hashAPIKey_def)
  have "test_mux (H\<lparr>h_snapshotEvery := 10\<rparr>) (contextWithActor ?r operator_record) =
      mux (H\<lparr>h_snapshotEvery := 10\<rparr>) bin (contextWithActor ?r operator_record)"
    using assms(4,5) by (intro test_mux_routes) (simp_all add: contextWithActor_def test_request_def)
  then show ?thesis
    unfolding n(1) using resolve_one [OF n(2,4), of ?r "h_crypto H"] k assms(4)
    by (simp add: a h operator_record_def)
qed

end
