(* ===== verification/Telemetry.thy ===== *)
theory Telemetry
  imports Daemon
begin

section \<open>Spans and measurements: internal/telemetry\<close>

text \<open>
  The set-up of telemetry.go, and the wrappers of spans.go and middleware.go around a call. What
  OpenTelemetry is given is a log of spans and measurements; \<open>te_tracer\<close> is whether \<^verbatim>\<open>Tracer\<close> is
  set, \<open>te_instruments\<close> the names of the instruments whose variables are. The elapsed
  milliseconds and what the OpenTelemetry SDK answers are arguments. A call that panics ends
  its span by the deferred \<^verbatim>\<open>End\<close> without a status. Shown: a wrapper returns what it wraps, so
  the rest of the development leaves it out, and which status the middleware notes.
\<close>

datatype span_status = Unset | SpanError string

record span =
  sp_name :: string
  sp_attributes :: "(string \<times> json) list"
  sp_status :: span_status
  sp_recorded :: "go_error list"

record measurement =
  me_instrument :: string
  me_value :: int
  me_attributes :: "(string \<times> json) list"

record telemetry =
  te_tracer :: bool
  te_instruments :: "string list"
  te_spans :: "span list"
  te_measured :: "measurement list"

definition end_span :: "span \<Rightarrow> telemetry \<Rightarrow> telemetry" where
  "end_span s T = T\<lparr>te_spans := te_spans T @ [s]\<rparr>"

definition record_value :: "string \<Rightarrow> int \<Rightarrow> (string \<times> json) list \<Rightarrow> telemetry \<Rightarrow> telemetry" where
  "record_value i v attrs T =
     (if i \<in> set (te_instruments T) then T\<lparr>te_measured := te_measured T @ [\<lparr>me_instrument = i, me_value = v, me_attributes = attrs\<rparr>]\<rparr> else T)"

subsection \<open>telemetry.go\<close>

definition ServiceName :: string where "ServiceName = ''agent-control-plane''"

text \<open>The instruments in the order in which \<^verbatim>\<open>initInstruments\<close> creates them; it stops at the first error.\<close>

definition instrument_names :: "string list" where
  "instrument_names = [''acp.workflows.created'', ''acp.tasks.claimed'', ''acp.tasks.completed'', ''acp.tasks.failed'',
     ''acp.tasks.dead_lettered'', ''acp.commit.duration_ms'', ''acp.bridge.duration_ms'', ''acp.http.duration_ms'', ''acp.tasks.requeued'']"

fun create_instruments :: "(string \<Rightarrow> bool \<times> go_error option) \<Rightarrow> string list \<Rightarrow> telemetry \<Rightarrow> go_error option \<times> telemetry" where
  "create_instruments mk [] T = (None, T)"
| "create_instruments mk (i # is) T =
     (let T' = (if fst (mk i) then T\<lparr>te_instruments := List.insert i (te_instruments T)\<rparr>
                else T\<lparr>te_instruments := removeAll i (te_instruments T)\<rparr>) in
      case snd (mk i) of Some e \<Rightarrow> (Some e, T') | None \<Rightarrow> create_instruments mk is T')"

definition initInstruments :: "(string \<Rightarrow> bool \<times> go_error option) \<Rightarrow> telemetry \<Rightarrow> go_error option \<times> telemetry" where
  "initInstruments mk = create_instruments mk instrument_names"

text \<open>The SDK: the errors of the resource and the two exporters, and what it makes of an instrument's name.\<close>

record otel =
  ot_resource :: "go_error option"
  ot_trace :: "go_error option"
  ot_metric :: "go_error option"
  ot_make :: "string \<Rightarrow> bool \<times> go_error option"

definition Init :: "otel \<Rightarrow> bool \<Rightarrow> bool \<Rightarrow> telemetry \<Rightarrow> go_error option \<times> telemetry" where
  "Init ot traceW metricW T =
     (case ot_resource ot of Some e \<Rightarrow> (Some e, T) | None \<Rightarrow>
      case (if traceW then ot_trace ot else None) of Some e \<Rightarrow> (Some e, T) | None \<Rightarrow>
        let T' = T\<lparr>te_tracer := True\<rparr> in
        case (if metricW then ot_metric ot else None) of Some e \<Rightarrow> (Some e, T') | None \<Rightarrow>
          initInstruments (ot_make ot) T')"

definition NoopInit :: "otel \<Rightarrow> telemetry \<Rightarrow> telemetry" where
  "NoopInit ot T = snd (initInstruments (ot_make ot) (T\<lparr>te_tracer := True\<rparr>))"

text \<open>\<^verbatim>\<open>main\<close> goes on when \<open>Init\<close> fails. The first component is whether there is a provider to flush.\<close>

definition setup_telemetry :: "otel \<Rightarrow> bool \<Rightarrow> telemetry \<Rightarrow> bool \<times> telemetry" where
  "setup_telemetry ot telemetryOut T =
     (if telemetryOut then (case Init ot True True T of (e, T') \<Rightarrow> (e = None, T')) else (False, NoopInit ot T))"

lemma create_instruments_all:
  assumes "\<And>i. i \<in> set is \<Longrightarrow> mk i = (True, None)"
  shows "fst (create_instruments mk is T) = None \<and> set (te_instruments (snd (create_instruments mk is T))) = set is \<union> set (te_instruments T) \<and>
    te_tracer (snd (create_instruments mk is T)) = te_tracer T"
  using assms by (induction "is" arbitrary: T) (auto simp: Let_def)

text \<open>Both ways of the set-up leave a tracer and every instrument when the SDK has no error.\<close>

lemma setup_telemetry_complete:
  assumes "ot_resource ot = None" "ot_trace ot = None" "ot_metric ot = None" "\<And>i. ot_make ot i = (True, None)"
  shows "fst (setup_telemetry ot out T) = out \<and> te_tracer (snd (setup_telemetry ot out T)) \<and>
    set instrument_names \<subseteq> set (te_instruments (snd (setup_telemetry ot out T)))"
  using assms create_instruments_all [of instrument_names "ot_make ot" "T\<lparr>te_tracer := True\<rparr>"]
  by (auto simp: setup_telemetry_def Init_def NoopInit_def initInstruments_def split: prod.splits)

subsection \<open>spans.go\<close>

text \<open>The three wrappers differ in the name, the measurement, and whether an error is recorded too.\<close>

definition traced_call ::
  "string \<Rightarrow> (string \<times> json) list \<Rightarrow> (go_error \<Rightarrow> string) \<Rightarrow> bool \<Rightarrow> (bool \<Rightarrow> telemetry \<Rightarrow> telemetry) \<Rightarrow>
    'a dbm \<Rightarrow> telemetry \<Rightarrow> dbs \<Rightarrow> ('a outcome \<times> dbs) \<times> telemetry" where
  "traced_call name attrs text recordErr note_value fn T d =
     (if \<not> te_tracer T then (fn d, T)
      else case fn d of
        (Ok a, d') \<Rightarrow> ((Ok a, d'), end_span \<lparr>sp_name = name, sp_attributes = attrs, sp_status = Unset, sp_recorded = []\<rparr> (note_value True T))
      | (Err (EPanic s), d') \<Rightarrow> ((Err (EPanic s), d'),
          end_span \<lparr>sp_name = name, sp_attributes = attrs, sp_status = Unset, sp_recorded = []\<rparr> T)
      | (Err e, d') \<Rightarrow> ((Err e, d'), end_span \<lparr>sp_name = name, sp_attributes = attrs, sp_status = SpanError (text e),
          sp_recorded = (if recordErr then [e] else [])\<rparr> (note_value False T))
      | (Blocked, d') \<Rightarrow> ((Blocked, d'), T))"

definition TraceCommit :: "string \<Rightarrow> (go_error \<Rightarrow> string) \<Rightarrow> int \<Rightarrow> 'a dbm \<Rightarrow> telemetry \<Rightarrow> dbs \<Rightarrow> ('a outcome \<times> dbs) \<times> telemetry" where
  "TraceCommit w text elapsed = traced_call ''acp.commit_transition'' [(''workflow_id'', JStr w)] text True
     (\<lambda>_. record_value ''acp.commit.duration_ms'' elapsed [(''workflow_id'', JStr w)])"

definition TraceBridge :: "string \<Rightarrow> (go_error \<Rightarrow> string) \<Rightarrow> int \<Rightarrow> 'a dbm \<Rightarrow> telemetry \<Rightarrow> dbs \<Rightarrow> ('a outcome \<times> dbs) \<times> telemetry" where
  "TraceBridge program text elapsed = traced_call (''acp.bridge.'' @ program) [(''bridge.program'', JStr program)] text True
     (\<lambda>_. record_value ''acp.bridge.duration_ms'' elapsed [(''program'', JStr program)])"

definition TraceClaimTask :: "string \<Rightarrow> (go_error \<Rightarrow> string) \<Rightarrow> 'a dbm \<Rightarrow> telemetry \<Rightarrow> dbs \<Rightarrow> ('a outcome \<times> dbs) \<times> telemetry" where
  "TraceClaimTask agent text = traced_call ''acp.task.claim'' [(''agent'', JStr agent)] text False
     (\<lambda>ok. if ok then record_value ''acp.tasks.claimed'' 1 [(''agent'', JStr agent)] else id)"

subsection \<open>middleware.go\<close>

text \<open>The wrapped writer keeps the status of the last \<^verbatim>\<open>WriteHeader\<close>; the client gets the first.\<close>

definition noted_status :: "response \<Rightarrow> int" where
  "noted_status resp = (if resp = [] then 200 else fst (last resp))"

definition sent_status :: "response \<Rightarrow> int" where
  "sent_status resp = (if resp = [] then 200 else fst (hd resp))"

definition HTTPMiddleware :: "int \<Rightarrow> handler \<Rightarrow> request \<Rightarrow> telemetry \<Rightarrow> dbs \<Rightarrow> (response outcome \<times> dbs) \<times> telemetry" where
  "HTTPMiddleware elapsed nxt r T d =
     (let attrs = [(''http.method'', JStr (rq_method r)), (''http.path'', JStr (rq_path r))];
          name = rq_method r @ '' '' @ rq_path r in
      if \<not> te_tracer T then (nxt r d, T)
      else case nxt r d of
        (Ok resp, d') \<Rightarrow>
          let status = noted_status resp in
          ((Ok resp, d'), end_span \<lparr>sp_name = name, sp_attributes = attrs @ [(''http.status_code'', JInt status)],
              sp_status = (if status \<ge> 500 then SpanError (show_int status) else Unset), sp_recorded = []\<rparr>
            (record_value ''acp.http.duration_ms'' elapsed
              [(''method'', JStr (rq_method r)), (''path'', JStr (rq_path r)), (''status'', JInt status)] T))
      | (Err e, d') \<Rightarrow> ((Err e, d'), end_span \<lparr>sp_name = name, sp_attributes = attrs, sp_status = Unset, sp_recorded = []\<rparr> T)
      | (Blocked, d') \<Rightarrow> ((Blocked, d'), T))"

subsection \<open>Wrappers are transparent\<close>

lemma traced_call_transparent: "fst (traced_call name attrs text rec note_value fn T d) = fn d"
  by (auto simp: traced_call_def split: prod.splits outcome.splits go_error.splits)

lemma wrappers_transparent:
  "fst (TraceCommit w text ms fn T d) = fn d" "fst (TraceBridge p text ms fn T d) = fn d"
  "fst (TraceClaimTask a text fn T d) = fn d" "fst (HTTPMiddleware ms nxt r T d) = nxt r d"
  by (simp_all add: TraceCommit_def TraceBridge_def TraceClaimTask_def traced_call_transparent)
    (simp add: HTTPMiddleware_def Let_def split: prod.splits outcome.splits)

text \<open>\<^verbatim>\<open>CommitTransition\<close> wraps \<^verbatim>\<open>commitTransitionInner\<close>: with a tracer or without, it is what it wraps.\<close>

lemma traced_commit: "fst (TraceCommit (CP_WorkflowID p) text ms (commitTransitionInner C p) T d) = CommitTransition C p d"
  by (simp add: wrappers_transparent CommitTransition_def)

text \<open>
  In \<^verbatim>\<open>main\<close> the middleware stands between the authentication and the routes: the stack with it
  answers what the stack without it answers.
\<close>

lemma stack_with_telemetry: "Middleware (h_crypto H) (\<lambda>r d. fst (HTTPMiddleware (ms r d) (mux H fardrunBin) r (T r d) d)) = app H fardrunBin"
  by (simp add: wrappers_transparent app_def)

text \<open>Only the handlers that write two answers are noted with another status than the client gets.\<close>

lemma noted_sent: "length resp \<le> 1 \<Longrightarrow> noted_status resp = sent_status resp"
  by (cases resp) (auto simp: noted_status_def sent_status_def)

end
