(* ===== verification/Tls.thy ===== *)
theory Tls
  imports Prelude
begin

section \<open>Mutual TLS: internal/security/tls.go\<close>

text \<open>
  The certificate authority, the certificates it issues and the configurations of both ends of
  a connection. What Go's crypto packages compute is a record of parameters: keys, signatures,
  and the encodings (\<^typ>\<open>'d\<close> is DER, \<^typ>\<open>'p\<close> the text of a PEM file); \<open>x509_ok\<close> is what they
  document of these: what was encoded is read back, and a signature verifies under the key
  that made it and no other. \<open>handshake\<close> is the check of certificates of crypto/tls under
  these configurations. Shown: a client gets in exactly when its certificate comes from the
  authority of the server and all certificates are in their time. The daemon itself does not
  use this file.
\<close>

datatype key_usage = DigitalSignature | CertSign | CRLSign

datatype ext_key_usage = ServerAuth | ClientAuth

record pkix_name =
  nm_Organization :: "string list"
  nm_CommonName :: string

record Certificate =
  ct_SerialNumber :: int
  ct_Subject :: pkix_name
  ct_Issuer :: pkix_name
  ct_NotBefore :: int
  ct_NotAfter :: int
  ct_IsCA :: bool
  ct_BasicConstraintsValid :: bool
  ct_KeyUsage :: "key_usage list"
  ct_ExtKeyUsage :: "ext_key_usage list"
  ct_DNSNames :: "string list"
  ct_IPAddresses :: "string list"
  ct_PublicKey :: string
  ct_Signature :: string

record ('d, 'p) x509 =
  xk_public :: "string \<Rightarrow> string"
  xs_sign :: "string \<Rightarrow> Certificate \<Rightarrow> string"
  xs_verify :: "string \<Rightarrow> Certificate \<Rightarrow> string \<Rightarrow> bool"
  xc_refuses :: "Certificate \<Rightarrow> go_error option"
  xc_der :: "Certificate \<Rightarrow> 'd"
  xc_parse :: "'d \<Rightarrow> Certificate option"
  xk_der :: "string \<Rightarrow> 'd"
  xk_parse :: "'d \<Rightarrow> string option"
  xp_pem :: "string \<Rightarrow> 'd \<Rightarrow> 'p"
  xp_blocks :: "'p \<Rightarrow> (string \<times> 'd) list"
  xv_host :: "string \<Rightarrow> Certificate \<Rightarrow> bool"

definition x509_ok :: "('d, 'p) x509 \<Rightarrow> bool" where
  "x509_ok X \<longleftrightarrow> (\<forall>c. xc_parse X (xc_der X c) = Some c) \<and> (\<forall>k. xk_parse X (xk_der X k) = Some k) \<and>
     (\<forall>t d. xp_blocks X (xp_pem X t d) = [(t, d)]) \<and> (\<forall>k. xk_public X k \<noteq> []) \<and>
     (\<forall>k k' c. xs_verify X (xk_public X k) c (xs_sign X k' c) \<longleftrightarrow> k = k')"

text \<open>What is signed is the certificate without its signature.\<close>

definition tbs :: "Certificate \<Rightarrow> Certificate" where
  "tbs c = c\<lparr>ct_Signature := []\<rparr>"

text \<open>\<^verbatim>\<open>x509.CreateCertificate\<close>: a template without a public key is its own parent when self-signed.\<close>

definition CreateCertificate :: "('d, 'p) x509 \<Rightarrow> Certificate \<Rightarrow> Certificate \<Rightarrow> string \<Rightarrow> string \<Rightarrow> 'd outcome" where
  "CreateCertificate X tmpl parent pub priv =
     (if ct_PublicKey parent \<noteq> [] \<and> ct_PublicKey parent \<noteq> xk_public X priv then Err (EMsg ''x509: key does not match parent'')
      else let c = tmpl\<lparr>ct_Issuer := ct_Subject parent, ct_PublicKey := pub, ct_Signature := []\<rparr> in
        case xc_refuses X c of Some e \<Rightarrow> Err e | None \<Rightarrow> Ok (xc_der X (c\<lparr>ct_Signature := xs_sign X priv c\<rparr>)))"

subsection \<open>The authority\<close>

record 'p CertBundle =
  CACert :: "Certificate option" \<comment> \<open>the error of \<^verbatim>\<open>ParseCertificate\<close> is dropped\<close>
  CAKey :: string
  CAPEMCert :: 'p
  CAPEMKey :: 'p

definition hours :: "int \<Rightarrow> int" where "hours n = n * 3600"

definition ca_template :: "string \<Rightarrow> int \<Rightarrow> int \<Rightarrow> Certificate" where
  "ca_template org serial ts =
     \<lparr>ct_SerialNumber = serial, ct_Subject = \<lparr>nm_Organization = [org], nm_CommonName = org @ '' CA''\<rparr>,
      ct_Issuer = \<lparr>nm_Organization = [], nm_CommonName = []\<rparr>, ct_NotBefore = ts - 60, ct_NotAfter = ts + hours 87600,
      ct_IsCA = True, ct_BasicConstraintsValid = True, ct_KeyUsage = [CertSign, CRLSign], ct_ExtKeyUsage = [],
      ct_DNSNames = [], ct_IPAddresses = [], ct_PublicKey = [], ct_Signature = []\<rparr>"

definition GenerateCA :: "('d, 'p) x509 \<Rightarrow> string \<Rightarrow> string outcome \<Rightarrow> int \<Rightarrow> int \<Rightarrow> 'p CertBundle outcome" where
  "GenerateCA X org newkey serial ts =
     (case newkey of Err e \<Rightarrow> Err (EWrap ''generate CA key'' e) | Blocked \<Rightarrow> Blocked | Ok key \<Rightarrow>
      let tmpl = ca_template org serial ts in
      case CreateCertificate X tmpl tmpl (xk_public X key) key of
        Err e \<Rightarrow> Err (EWrap ''create CA cert'' e) | Blocked \<Rightarrow> Blocked
      | Ok certDER \<Rightarrow> Ok \<lparr>CACert = xc_parse X certDER, CAKey = key,
          CAPEMCert = xp_pem X ''CERTIFICATE'' certDER, CAPEMKey = xp_pem X ''EC PRIVATE KEY'' (xk_der X key)\<rparr>)"

definition leaf_template :: "string \<Rightarrow> string list \<Rightarrow> string list \<Rightarrow> int \<Rightarrow> int \<Rightarrow> Certificate" where
  "leaf_template commonName dnsNames ips serial ts =
     \<lparr>ct_SerialNumber = serial, ct_Subject = \<lparr>nm_Organization = [], nm_CommonName = commonName\<rparr>,
      ct_Issuer = \<lparr>nm_Organization = [], nm_CommonName = []\<rparr>, ct_NotBefore = ts - 60, ct_NotAfter = ts + hours 8760,
      ct_IsCA = False, ct_BasicConstraintsValid = False, ct_KeyUsage = [DigitalSignature], ct_ExtKeyUsage = [ServerAuth, ClientAuth],
      ct_DNSNames = dnsNames, ct_IPAddresses = ips, ct_PublicKey = [], ct_Signature = []\<rparr>"

definition IssueCert ::
  "('d, 'p) x509 \<Rightarrow> 'p CertBundle \<Rightarrow> string outcome \<Rightarrow> int \<Rightarrow> int \<Rightarrow> string \<Rightarrow> string list \<Rightarrow> string list \<Rightarrow> ('p \<times> 'p) outcome" where
  "IssueCert X ca newkey serial ts commonName dnsNames ips =
     (case newkey of Err e \<Rightarrow> Err (EWrap ''generate key'' e) | Blocked \<Rightarrow> Blocked | Ok key \<Rightarrow>
      case CACert ca of None \<Rightarrow> Err (EPanic ''nil pointer dereference'') | Some parent \<Rightarrow>
      case CreateCertificate X (leaf_template commonName dnsNames ips serial ts) parent (xk_public X key) (CAKey ca) of
        Err e \<Rightarrow> Err (EWrap ''create cert'' e) | Blocked \<Rightarrow> Blocked
      | Ok certDER \<Rightarrow> Ok (xp_pem X ''CERTIFICATE'' certDER, xp_pem X ''EC PRIVATE KEY'' (xk_der X key)))"

subsection \<open>Configurations\<close>

datatype client_auth = NoClientCert | RequireAndVerifyClientCert

record tls_config =
  tc_Certificates :: "(Certificate \<times> string) list"
  tc_ClientAuth :: client_auth
  tc_ClientCAs :: "Certificate list option"
  tc_RootCAs :: "Certificate list option"
  tc_MinVersion :: int

definition VersionTLS13 :: int where "VersionTLS13 = 0x304"

definition blocks_of :: "('d, 'p) x509 \<Rightarrow> (string \<Rightarrow> bool) \<Rightarrow> 'p \<Rightarrow> 'd list" where
  "blocks_of X P p = map snd (filter (\<lambda>b. P (fst b)) (xp_blocks X p))"

definition is_key_block :: "string \<Rightarrow> bool" where
  "is_key_block t \<longleftrightarrow> t = ''PRIVATE KEY'' \<or> drop (length t - 12) t = '' PRIVATE KEY''"

text \<open>\<^verbatim>\<open>tls.X509KeyPair\<close>: the first certificate and the first key, which must belong together.\<close>

definition X509KeyPair :: "('d, 'p) x509 \<Rightarrow> 'p \<Rightarrow> 'p \<Rightarrow> (Certificate \<times> string) outcome" where
  "X509KeyPair X certPEM keyPEM =
     (case blocks_of X (\<lambda>t. t = ''CERTIFICATE'') certPEM of [] \<Rightarrow> Err (EMsg ''tls: no certificate'') | c # _ \<Rightarrow>
      case blocks_of X is_key_block keyPEM of [] \<Rightarrow> Err (EMsg ''tls: no private key'') | k # _ \<Rightarrow>
      case (xc_parse X c, xk_parse X k) of
        (Some leaf, Some priv) \<Rightarrow>
          if xk_public X priv = ct_PublicKey leaf then Ok (leaf, priv) else Err (EMsg ''tls: private key does not match public key'')
      | _ \<Rightarrow> Err (EMsg ''tls: failed to parse''))"

text \<open>\<^verbatim>\<open>AppendCertsFromPEM\<close> on a new pool; the pool is empty when it answers false.\<close>

definition pool_of :: "('d, 'p) x509 \<Rightarrow> 'p \<Rightarrow> Certificate list" where
  "pool_of X p = List.map_filter (xc_parse X) (blocks_of X (\<lambda>t. t = ''CERTIFICATE'') p)"

definition ServerTLSConfig :: "('d, 'p) x509 \<Rightarrow> 'p \<Rightarrow> 'p \<Rightarrow> 'p \<Rightarrow> tls_config outcome" where
  "ServerTLSConfig X certPEM keyPEM caCertPEM =
     (case X509KeyPair X certPEM keyPEM of Err e \<Rightarrow> Err (EWrap ''parse server cert'' e) | Blocked \<Rightarrow> Blocked | Ok cert \<Rightarrow>
      if pool_of X caCertPEM = [] then Err (EMsg ''parse CA cert for client verification'')
      else Ok \<lparr>tc_Certificates = [cert], tc_ClientAuth = RequireAndVerifyClientCert, tc_ClientCAs = Some (pool_of X caCertPEM),
        tc_RootCAs = None, tc_MinVersion = VersionTLS13\<rparr>)"

definition ClientTLSConfig :: "('d, 'p) x509 \<Rightarrow> 'p \<Rightarrow> 'p \<Rightarrow> 'p \<Rightarrow> tls_config outcome" where
  "ClientTLSConfig X certPEM keyPEM caCertPEM =
     (case X509KeyPair X certPEM keyPEM of Err e \<Rightarrow> Err (EWrap ''parse client cert'' e) | Blocked \<Rightarrow> Blocked | Ok cert \<Rightarrow>
      if pool_of X caCertPEM = [] then Err (EMsg ''parse CA cert for server verification'')
      else Ok \<lparr>tc_Certificates = [cert], tc_ClientAuth = NoClientCert, tc_ClientCAs = None,
        tc_RootCAs = Some (pool_of X caCertPEM), tc_MinVersion = VersionTLS13\<rparr>)"

subsection \<open>Certificate files\<close>

text \<open>
  A directory of files with their permissions; \<open>refuses\<close> is the error of the file system for a
  path. \<^verbatim>\<open>os.WriteFile\<close> gives the permissions, before the umask, only to a
  file that it creates.
\<close>

type_synonym 'p files = "string \<Rightarrow> (int \<times> 'p) option"

definition WriteFile :: "(string \<Rightarrow> go_error option) \<Rightarrow> string \<Rightarrow> 'p \<Rightarrow> int \<Rightarrow> 'p files \<Rightarrow> unit outcome \<times> 'p files" where
  "WriteFile refuses path data perm fs =
     (case refuses path of Some e \<Rightarrow> (Err e, fs)
      | None \<Rightarrow> (Ok (), fs(path \<mapsto> (case fs path of None \<Rightarrow> perm | Some (p, _) \<Rightarrow> p, data))))"

definition WriteCertFiles ::
  "(string \<Rightarrow> go_error option) \<Rightarrow> string \<Rightarrow> string \<Rightarrow> 'p \<Rightarrow> 'p \<Rightarrow> 'p files \<Rightarrow> unit outcome \<times> 'p files" where
  "WriteCertFiles refuses dir name certPEM keyPEM fs =
     (case WriteFile refuses (dir @ ''/'' @ name @ ''.crt'') certPEM 0x1A4 fs of
        (Ok _, fs') \<Rightarrow> WriteFile refuses (dir @ ''/'' @ name @ ''.key'') keyPEM 0x180 fs'
      | (e, fs') \<Rightarrow> (e, fs'))"

text \<open>Rotating a key keeps the permissions of the old file, whatever they were.\<close>

lemma WriteCertFiles_success:
  assumes "WriteCertFiles refuses dir name c k fs = (Ok (), fs')"
  shows "map_option snd (fs' (dir @ ''/'' @ name @ ''.crt'')) = Some c \<and>
    fs' (dir @ ''/'' @ name @ ''.key'') = Some (case fs (dir @ ''/'' @ name @ ''.key'') of None \<Rightarrow> 0x180 | Some (p, _) \<Rightarrow> p, k)"
  using assms by (auto simp: WriteCertFiles_def WriteFile_def split: option.splits prod.splits outcome.splits)

subsection \<open>The handshake\<close>

definition in_time :: "int \<Rightarrow> Certificate \<Rightarrow> bool" where
  "in_time t c \<longleftrightarrow> ct_NotBefore c \<le> t \<and> t \<le> ct_NotAfter c"

definition signed_by :: "('d, 'p) x509 \<Rightarrow> Certificate \<Rightarrow> Certificate \<Rightarrow> bool" where
  "signed_by X ca c \<longleftrightarrow> ct_Issuer c = ct_Subject ca \<and> ct_IsCA ca \<and> ct_BasicConstraintsValid ca \<and> CertSign \<in> set (ct_KeyUsage ca) \<and>
     xs_verify X (ct_PublicKey ca) (tbs c) (ct_Signature c)"

definition verify_leaf :: "('d, 'p) x509 \<Rightarrow> Certificate list \<Rightarrow> ext_key_usage \<Rightarrow> int \<Rightarrow> Certificate \<Rightarrow> bool" where
  "verify_leaf X pool usage t c \<longleftrightarrow> in_time t c \<and> (ct_ExtKeyUsage c = [] \<or> usage \<in> set (ct_ExtKeyUsage c)) \<and>
     (c \<in> set pool \<or> list_ex (\<lambda>ca. in_time t ca \<and> signed_by X ca c) pool)"

definition handshake :: "('d, 'p) x509 \<Rightarrow> Certificate list \<Rightarrow> int \<Rightarrow> string \<Rightarrow> tls_config \<Rightarrow> tls_config \<Rightarrow> bool" where
  "handshake X system t host server client \<longleftrightarrow>
     (case tc_Certificates server of [] \<Rightarrow> False | (leaf, _) # _ \<Rightarrow>
        verify_leaf X (case tc_RootCAs client of Some pool \<Rightarrow> pool | None \<Rightarrow> system) ServerAuth t leaf \<and> xv_host X host leaf) \<and>
     (case tc_ClientAuth server of NoClientCert \<Rightarrow> True | RequireAndVerifyClientCert \<Rightarrow>
        (case tc_Certificates client of [] \<Rightarrow> False | (leaf, _) # _ \<Rightarrow>
          verify_leaf X (case tc_ClientCAs server of Some pool \<Rightarrow> pool | None \<Rightarrow> system) ClientAuth t leaf))"

subsection \<open>What the authority issues\<close>

definition ca_cert :: "('d, 'p) x509 \<Rightarrow> string \<Rightarrow> string \<Rightarrow> int \<Rightarrow> int \<Rightarrow> Certificate" where
  "ca_cert X org k serial ts =
     (let c = (ca_template org serial ts)\<lparr>ct_Issuer := ct_Subject (ca_template org serial ts), ct_PublicKey := xk_public X k\<rparr>
      in c\<lparr>ct_Signature := xs_sign X k c\<rparr>)"

definition leaf_cert ::
  "('d, 'p) x509 \<Rightarrow> string \<Rightarrow> string \<Rightarrow> string \<Rightarrow> string \<Rightarrow> string list \<Rightarrow> string list \<Rightarrow> int \<Rightarrow> int \<Rightarrow> Certificate" where
  "leaf_cert X org k key cn dns ips serial ts =
     (let c = (leaf_template cn dns ips serial ts)\<lparr>ct_Issuer := ct_Subject (ca_template org 0 0), ct_PublicKey := xk_public X key\<rparr>
      in c\<lparr>ct_Signature := xs_sign X k c\<rparr>)"

lemma x509_okD:
  assumes "x509_ok X"
  shows "xc_parse X (xc_der X c) = Some c" "xk_parse X (xk_der X k) = Some k" "xp_blocks X (xp_pem X t d) = [(t, d)]"
    "xk_public X k \<noteq> []" "xs_verify X (xk_public X k) c (xs_sign X k' c) \<longleftrightarrow> k = k'"
  using assms by (simp_all add: x509_ok_def)

lemma GenerateCA_ok:
  assumes "x509_ok X" and "GenerateCA X org (Ok k) serial ts = Ok ca"
  shows "CACert ca = Some (ca_cert X org k serial ts) \<and> CAKey ca = k \<and> pool_of X (CAPEMCert ca) = [ca_cert X org k serial ts]"
  using assms by (auto simp: GenerateCA_def CreateCertificate_def ca_template_def ca_cert_def pool_of_def blocks_of_def
      Let_def x509_okD map_filter_simps split: option.splits outcome.splits)

lemma IssueCert_ok:
  assumes X: "x509_ok X" and ca: "CACert ca = Some (ca_cert X org k serial ts)" "CAKey ca = k"
    and i: "IssueCert X ca (Ok key) serial' ts' cn dns ips = Ok (c, p)"
  shows "X509KeyPair X c p = Ok (leaf_cert X org k key cn dns ips serial' ts', key)"
  using i ca by (auto simp: IssueCert_def CreateCertificate_def ca_cert_def ca_template_def leaf_cert_def leaf_template_def Let_def
      X509KeyPair_def blocks_of_def is_key_block_def x509_okD [OF X] split: option.splits outcome.splits if_splits)

lemma signed_by_ca:
  assumes "x509_ok X"
  shows "signed_by X (ca_cert X org k serial ts) (leaf_cert X org' k' key cn dns ips serial' ts') \<longleftrightarrow> org' = org \<and> k' = k"
proof -
  have t: "tbs (leaf_cert X org' k' key cn dns ips serial' ts') =
      (leaf_template cn dns ips serial' ts')\<lparr>ct_Issuer := ct_Subject (ca_template org' 0 0), ct_PublicKey := xk_public X key\<rparr>"
    by (simp add: tbs_def leaf_cert_def leaf_template_def Let_def)
  have s: "ct_Signature (leaf_cert X org' k' key cn dns ips serial' ts') = xs_sign X k' (tbs (leaf_cert X org' k' key cn dns ips serial' ts'))"
    unfolding t by (simp add: leaf_cert_def Let_def)
  show ?thesis unfolding signed_by_def s
    by (auto simp: x509_okD [OF assms] ca_cert_def Let_def) (auto simp: leaf_cert_def ca_template_def Let_def)
qed

lemma verify_leaf_ca:
  assumes "x509_ok X" and "u \<in> {ServerAuth, ClientAuth}"
  shows "verify_leaf X [ca_cert X org k serial ts] u t (leaf_cert X org' k' key cn dns ips serial' ts') \<longleftrightarrow>
    org' = org \<and> k' = k \<and> ts - 60 \<le> t \<and> t \<le> ts + hours 87600 \<and> ts' - 60 \<le> t \<and> t \<le> ts' + hours 8760"
proof -
  have "leaf_cert X org' k' key cn dns ips serial' ts' \<noteq> ca_cert X org k serial ts"
    by (auto simp: leaf_cert_def leaf_template_def ca_cert_def ca_template_def Let_def dest: arg_cong [of _ _ ct_IsCA])
  moreover have "in_time t (ca_cert X org k serial ts) \<longleftrightarrow> ts - 60 \<le> t \<and> t \<le> ts + hours 87600"
    by (simp add: in_time_def ca_cert_def ca_template_def Let_def)
  moreover have "in_time t (leaf_cert X org' k' key cn dns ips serial' ts') \<longleftrightarrow> ts' - 60 \<le> t \<and> t \<le> ts' + hours 8760"
    "ct_ExtKeyUsage (leaf_cert X org' k' key cn dns ips serial' ts') = [ServerAuth, ClientAuth]"
    by (simp_all add: in_time_def leaf_cert_def leaf_template_def Let_def)
  ultimately show ?thesis using assms by (auto simp: verify_leaf_def signed_by_ca)
qed

subsection \<open>Properties\<close>

text \<open>
  C39: a server whose certificate and client pool come from one authority completes a handshake
  with a client that trusts this authority exactly when the client's certificate was issued by
  it too, the server's names match, and every certificate is in its time.
\<close>
theorem mtls_trusts_exactly_own_ca:
  assumes "x509_ok X"
    and "GenerateCA X org (Ok k) n t0 = Ok ca" and "GenerateCA X org' (Ok k') n' t0' = Ok ca'"
    and "IssueCert X ca (Ok ks) ns ts cns dnss ipss = Ok (sc, sk)" and "IssueCert X ca' (Ok kc) nc tc cnc dnsc ipsc = Ok (cc, ck)"
  shows "\<exists>server client. ServerTLSConfig X sc sk (CAPEMCert ca) = Ok server \<and> ClientTLSConfig X cc ck (CAPEMCert ca) = Ok client \<and>
    (\<forall>t host. handshake X system t host server client \<longleftrightarrow>
      (org' = org \<and> k' = k) \<and> xv_host X host (leaf_cert X org k ks cns dnss ipss ns ts) \<and>
      (t0 - 60 \<le> t \<and> t \<le> t0 + hours 87600) \<and> (ts - 60 \<le> t \<and> t \<le> ts + hours 8760) \<and> (tc - 60 \<le> t \<and> t \<le> tc + hours 8760))"
proof -
  note ca = GenerateCA_ok [OF assms(1,2)] and ca' = GenerateCA_ok [OF assms(1,3)]
  have "X509KeyPair X sc sk = Ok (leaf_cert X org k ks cns dnss ipss ns ts, ks)" using IssueCert_ok [OF assms(1) _ _ assms(4)] ca by blast
  moreover have "X509KeyPair X cc ck = Ok (leaf_cert X org' k' kc cnc dnsc ipsc nc tc, kc)" using IssueCert_ok [OF assms(1) _ _ assms(5)] ca' by blast
  ultimately show ?thesis using ca
    by (auto simp: ServerTLSConfig_def ClientTLSConfig_def handshake_def verify_leaf_ca [OF assms(1)])
qed

text \<open>A transparent instance of the parameters, in which DER and PEM are the values they encode.\<close>

definition plain_x509 :: "(Certificate + string, (string \<times> (Certificate + string)) list) x509" where
  "plain_x509 = \<lparr>xk_public = (\<lambda>k. CHR ''p'' # k), xs_sign = (\<lambda>k c. CHR ''s'' # k), xs_verify = (\<lambda>p c s. tl p = tl s),
     xc_refuses = (\<lambda>_. None), xc_der = Inl, xc_parse = (\<lambda>d. case d of Inl c \<Rightarrow> Some c | Inr _ \<Rightarrow> None),
     xk_der = Inr, xk_parse = (\<lambda>d. case d of Inr k \<Rightarrow> Some k | Inl _ \<Rightarrow> None),
     xp_pem = (\<lambda>t d. [(t, d)]), xp_blocks = id, xv_host = (\<lambda>h c. h \<in> set (ct_DNSNames c))\<rparr>"

lemma plain_x509_ok: "x509_ok plain_x509"
  by (simp add: x509_ok_def plain_x509_def)

lemma plain_authority: "\<exists>ca. GenerateCA plain_x509 org (Ok k) n t = Ok ca"
  by (simp add: GenerateCA_def CreateCertificate_def ca_template_def plain_x509_def)

lemma plain_issue:
  assumes "GenerateCA plain_x509 org (Ok k) n t = Ok ca"
  shows "\<exists>c p. IssueCert plain_x509 ca (Ok key) n' t' cn dns ips = Ok (c, p)"
  using GenerateCA_ok [OF plain_x509_ok assms]
  by (auto simp: IssueCert_def CreateCertificate_def ca_cert_def Let_def plain_x509_def split: outcome.splits)

text \<open>A worker of the authority gets in, one of another authority of the same name does not.\<close>

theorem mtls_trusts_exactly_own_ca_witness:
  "\<exists>ca ca' sc sk server cc ck client rc rk rogue.
    GenerateCA plain_x509 ''ACP'' (Ok ''k'') 1 0 = Ok ca \<and> GenerateCA plain_x509 ''ACP'' (Ok ''r'') 1 0 = Ok ca' \<and>
    IssueCert plain_x509 ca (Ok ''s'') 2 100 ''acp-server'' [''localhost''] [] = Ok (sc, sk) \<and>
    IssueCert plain_x509 ca (Ok ''c'') 3 100 ''acp-worker'' [] [] = Ok (cc, ck) \<and>
    IssueCert plain_x509 ca' (Ok ''c'') 3 100 ''acp-worker'' [] [] = Ok (rc, rk) \<and>
    ServerTLSConfig plain_x509 sc sk (CAPEMCert ca) = Ok server \<and>
    ClientTLSConfig plain_x509 cc ck (CAPEMCert ca) = Ok client \<and> ClientTLSConfig plain_x509 rc rk (CAPEMCert ca) = Ok rogue \<and>
    handshake plain_x509 [] 200 ''localhost'' server client \<and> \<not> handshake plain_x509 [] 200 ''localhost'' server rogue"
proof -
  obtain ca where ca: "GenerateCA plain_x509 ''ACP'' (Ok ''k'') 1 0 = Ok ca" using plain_authority by blast
  obtain ca' where ca': "GenerateCA plain_x509 ''ACP'' (Ok ''r'') 1 0 = Ok ca'" using plain_authority by blast
  obtain sc sk where s: "IssueCert plain_x509 ca (Ok ''s'') 2 100 ''acp-server'' [''localhost''] [] = Ok (sc, sk)"
    using plain_issue [OF ca] by blast
  obtain cc ck where c: "IssueCert plain_x509 ca (Ok ''c'') 3 100 ''acp-worker'' [] [] = Ok (cc, ck)" using plain_issue [OF ca] by blast
  obtain rc rk where r: "IssueCert plain_x509 ca' (Ok ''c'') 3 100 ''acp-worker'' [] [] = Ok (rc, rk)" using plain_issue [OF ca'] by blast
  have h: "xv_host plain_x509 ''localhost'' (leaf_cert plain_x509 ''ACP'' ''k'' ''s'' ''acp-server'' [''localhost''] [] 2 100)"
    by (simp add: plain_x509_def leaf_cert_def leaf_template_def Let_def)
  from mtls_trusts_exactly_own_ca [OF plain_x509_ok ca ca s c, of "[]"] h obtain server client where
    1: "ServerTLSConfig plain_x509 sc sk (CAPEMCert ca) = Ok server" "ClientTLSConfig plain_x509 cc ck (CAPEMCert ca) = Ok client"
      "handshake plain_x509 [] 200 ''localhost'' server client" by (auto simp: hours_def)
  from mtls_trusts_exactly_own_ca [OF plain_x509_ok ca ca' s r, of "[]"] 1(1) obtain rogue where
    2: "ClientTLSConfig plain_x509 rc rk (CAPEMCert ca) = Ok rogue" "\<not> handshake plain_x509 [] 200 ''localhost'' server rogue" by auto
  show ?thesis by (intro exI conjI, rule ca, rule ca', rule s, rule c, rule r) (rule 1 2)+
qed

end
