(* ===== verification/Spec2Isabelle.thy ===== *)
theory Spec2Isabelle
  imports Sdk History ClaimRace CommitRace Bridge Testutil Telemetry Tls
begin

text \<open>
  \<^bold>\<open>Agent Control Plane\<close>: a Go service (\<^verbatim>\<open>src/acpd\<close>) that keeps workflows of agents in SQLite or
  Postgres, lets a pure program (\<^verbatim>\<open>fardrun\<close> on the scripts of \<^verbatim>\<open>fard/bridge\<close>) compute every transition
  of a workflow, and records each transition as a receipt, a delta and a snapshot in hash
  chains; with a Go client library (\<^verbatim>\<open>src/sdk/go\<close>) and a command line demo. This development
  models the service from the SQL statements up to the HTTP handler stack and the two
  programs, and the client library down to the same handlers.

  \<^bold>\<open>Parts, theories and code\<close> (store is \<^verbatim>\<open>acpd/internal/store\<close>, api is \<^verbatim>\<open>acpd/internal/api\<close>):

  \<^item> \<^verbatim>\<open>Prelude\<close>: outcomes of calls, Go's 64-bit \<^verbatim>\<open>int\<close> (\<open>wrap64\<close>), functions of the package
    strings, tables as lists of rows, the locale \<open>stepping_system\<close> of step relations with an
    invariant. \<^verbatim>\<open>Json\<close>: documents, \<open>marshal\<close>, and a tokenizer and parser that read back what
    was written. \<^verbatim>\<open>GoTime\<close>: printed times.
  \<^item> \<^verbatim>\<open>Security\<close>: \<^verbatim>\<open>acpd/internal/security/keys.go\<close>. The hash functions are the fields of a
    record \<open>crypto\<close>.
  \<^item> \<^verbatim>\<open>DB\<close>, \<^verbatim>\<open>Schema\<close>, \<^verbatim>\<open>Migrate\<close>: store/db.go, the tables and statements, and \<^verbatim>\<open>acpd/migrations\<close>.
    The Go struct DB is the record \<open>dbs\<close>: the driver, the key provider, the tables, the tables
    committed before a running transaction, the clock, and the engine failures to come. An
    operation \<^verbatim>\<open>func (d *DB) F(x)\<close> is a function \<open>F x\<close> from a handle to an outcome and a handle.
  \<^item> \<^verbatim>\<open>Workflows\<close>, \<^verbatim>\<open>Chain\<close>, \<^verbatim>\<open>Commit\<close>, \<^verbatim>\<open>Gates\<close>, \<^verbatim>\<open>Tasks\<close>, \<^verbatim>\<open>Plan\<close>, \<^verbatim>\<open>Branches\<close>, \<^verbatim>\<open>Anchors\<close>: the
    files of store with these names (receipts.go, deltas.go and artifacts.go in \<^verbatim>\<open>Chain\<close>; queue.go
    in \<^verbatim>\<open>Tasks\<close>; \<^verbatim>\<open>acpd/internal/anchor\<close> in \<^verbatim>\<open>Anchors\<close>). \<^verbatim>\<open>ClaimRace\<close> and \<^verbatim>\<open>CommitRace\<close> take
    ClaimNextTask and the three commits apart into statements that interleave.
  \<^item> \<^verbatim>\<open>Actors\<close>: store/actors.go and the middleware of \<^verbatim>\<open>acpd/internal/auth\<close>.
  \<^item> \<^verbatim>\<open>Http\<close>, \<^verbatim>\<open>Api\<close>: the decoding of bodies, the bridge (\<^verbatim>\<open>acpd/internal/bridge\<close>) as a function
    of its input, every handler of api and the routing. \<^verbatim>\<open>Bridge\<close>: the runs of the bridge with
    their temporary files, any number at the same time, which justifies that function.
    \<^verbatim>\<open>Service\<close>: what every request keeps. \<^verbatim>\<open>Endpoints\<close>: what some handlers answer against what
    they did.
  \<^item> \<^verbatim>\<open>Daemon\<close>: the handler stack of \<^verbatim>\<open>acpd/cmd/acpd/main.go\<close> with its limits, as a step relation;
    \<^verbatim>\<open>History\<close>: what that stack does to the chains of receipts and deltas.
    \<^verbatim>\<open>Telemetry\<close>: \<^verbatim>\<open>acpd/internal/telemetry\<close>, which the stack can leave out. \<^verbatim>\<open>Demo\<close>:
    \<^verbatim>\<open>acpd/internal/demo\<close>. \<^verbatim>\<open>Startup\<close>: the rest of main, and \<^verbatim>\<open>acpd/cmd/acp/main.go\<close>.
    \<^verbatim>\<open>Testutil\<close>: \<^verbatim>\<open>acpd/internal/testutil\<close>, the server of the repository's tests.
  \<^item> \<^verbatim>\<open>Tls\<close>: \<^verbatim>\<open>acpd/internal/security/tls.go\<close>, which no other part calls.
  \<^item> \<^verbatim>\<open>Sdk\<close>: \<^verbatim>\<open>sdk/go/acp\<close> and \<^verbatim>\<open>sdk/go/adapters\<close>, calling the handler stack of \<^verbatim>\<open>Daemon\<close>.

  A handler calls the bridge and the store; the store composes statements in transactions;
  the requeue loop and the requests change the same tables. The interfaces are locales:
  \<open>token_signer\<close> between the key providers and the gates, \<open>side_statements\<close> (extended by
  \<open>statement_invariant\<close> and \<open>gate_opening\<close>) between the statements and everything above them,
  \<open>stepping_system\<close> between a step relation and its invariant, \<open>restartable\<close> between one migration and the run of all. Each is
  interpreted on the model's own definitions where they are given.

  \<^bold>\<open>What is shown.\<close>

  \<^item> Commits: CommitTransition and CommitFork do exactly what their specification says or
    nothing, under every pattern of engine failures; the receipt and delta chains stay
    linked; what was committed is what is read back. The operations that drop errors are
    treated apart: on Postgres they keep the chains, on SQLite one dropped error breaks one.
    Concurrent commits are serialisable.
  \<^item> Queue: no sequence of operations hands a task out beyond its limit; the claim takes the
    best task; concurrent claims never share an attempt; the requeue pass takes exactly the
    expired claims, and on Postgres nothing at all.
  \<^item> Plans: the ready nodes are the pending ones whose blockers are done; an acyclic plan never
    stalls; enqueueing and marking do what they say; a plan sent by the client is the plan read.
  \<^item> Anchors: the gaps are the maximal uncovered runs; the loop returns except at the end of
    the range of \<^verbatim>\<open>int\<close>, where it runs for ever.
  \<^item> Service: on Postgres no run of the daemon breaks a chain, provided the bridge numbers the
    transitions in order (\<open>bridge_steps\<close>); keys stay unique, the audit tables only grow, only POST
    and the claim of a task change anything, unknown keys are refused, an edit is answered
    truthfully, the limiter lets through no more than it promises and starves a client that is
    slightly too fast.
  \<^item> Start: opening a database twice is opening it once; the seeded admin is let in exactly
    when the two processes share a master key.
  \<^item> Bridge: concurrent runs answer what the program computes from their own input and leave no
    files behind. Test server: outside two paths it is the daemon's stack.
  \<^item> TLS: a client gets in exactly with a certificate of the server's authority, in time.
  \<^item> Faults of the code are theorems of their own, on the definitions that model it.

  \<^bold>\<open>Conventions and bounds.\<close> Strings are lists of characters. A Go \<^verbatim>\<open>int\<close> is an HOL integer with
  \<open>wrap64\<close> wherever the code computes with it. A time is a number of seconds, an absent or zero
  time \<^verbatim>\<open>None\<close>; the limiter counts nanoseconds. A panic is the error \<open>EPanic\<close>, a call that never
  returns the outcome \<open>Blocked\<close>. \<open>faults\<close> has one element per statement, so a theorem without
  a hypothesis on the handle holds for all engine failures; \<open>quiet\<close> handles have none. There
  is no fuel: the loops are structural, except the two counting loops of \<^verbatim>\<open>Anchors\<close>, which are
  \<open>partial_function\<close>s with \<^verbatim>\<open>None\<close> for a loop that does not end.

  \<^bold>\<open>Parameters.\<close> The hash functions, the keys, signatures and encodings of certificates, the
  program \<^verbatim>\<open>fardrun\<close> and what it answers, the identifiers
  of the package uuid, the texts of database errors, the environment, the random bytes, the
  remote address and the clock are arguments of the definitions. Theorems that need more of
  them (two different hashes, a handle without failures) say so, and a witness meets it.

  \<^bold>\<open>Not modelled.\<close> The exporters of package telemetry, logging, the
  flag parser, the listener and its shutdown, the escaping of URLs and the clean-up of unclean
  paths, the cancellation of a call in flight, and the interleaving of statements outside
  ClaimNextTask and the commits: the operations of one handle are otherwise taken one after
  the other. The limiter's floating point refill is
  an exact product. Reading a JSON object into a struct ignores the case of keys in \<^verbatim>\<open>Http\<close> (where
  two keys differ only in case the exact one is taken); the decoders of the plan in the
  state match them exactly.
\<close>

end
